(* ===== verification/Vault_Prelude.thy ===== *)
theory Vault_Prelude
  imports Main "HOL-Library.Word" "HOL-Library.Signed_Division"
begin

text \<open>
  The part of the library that does not know the contract: the three ways a Rust contract
  function can end (a value, an error value, a host trap), the sequencing of such functions
  over an explicit state, the machine integers of the contract (\<open>i128\<close>, \<open>u64\<close>, \<open>u32\<close>) with
  Rust's checked, saturating and wrapping arithmetic, and lemmas on maps and on sums over the
  domain of a map.
\<close>

named_theorems ok_iff \<open>when an operation ends with a value\<close>
named_theorems ends_intro \<open>proof rules for a postcondition on every outcome\<close>
named_theorems int_defs \<open>the machine integer operations, to be unfolded\<close>

section \<open>Outcomes\<close>

text \<open>
  \<open>Ok\<close> and \<open>Err\<close> are the two constructors of Rust's \<open>Result\<close>; \<open>Trap\<close> is a panic or a failed
  host call (a missing signature, a failed token transfer, a division by zero), which no code of
  the contract can catch.
\<close>

datatype ('e, 'a) result = Ok 'a | Err 'e | Trap

definition is_ok :: "('e, 'a) result \<Rightarrow> bool" where
  "is_ok r = (case r of Ok _ \<Rightarrow> True | _ \<Rightarrow> False)"

lemma is_ok_simps [simp]: "is_ok (Ok a)" "\<not> is_ok (Err e)" "\<not> is_ok Trap"
  by (simp_all add: is_ok_def)

lemma is_ok_iff: "is_ok r \<longleftrightarrow> (\<exists>a. r = Ok a)"
  by (cases r) simp_all

definition ok_or :: "'a option \<Rightarrow> 'e \<Rightarrow> ('e, 'a) result" where
  "ok_or x e = (case x of Some a \<Rightarrow> Ok a | None \<Rightarrow> Err e)"

lemma ok_or_simps [simp]: "ok_or (Some a) e = Ok a" "ok_or None e = Err e"
  by (simp_all add: ok_or_def)

lemma ok_or_Ok [ok_iff]: "ok_or x e = Ok a \<longleftrightarrow> x = Some a"
  by (cases x) simp_all

lemma ok_or_not_Trap [simp]: "ok_or x e \<noteq> Trap"
  by (cases x) simp_all

definition unwrap_or :: "'a option \<Rightarrow> 'a \<Rightarrow> 'a" where
  "unwrap_or x d = (case x of Some a \<Rightarrow> a | None \<Rightarrow> d)"

lemma unwrap_or_simps [simp]: "unwrap_or (Some a) d = a" "unwrap_or None d = d"
  by (simp_all add: unwrap_or_def)

section \<open>Sequencing: the question mark operator\<close>

text \<open>
  \<open>bind_res\<close> is the \<open>?\<close> operator between functions that touch no storage. \<open>try_res r s k\<close> is
  \<open>r?\<close> inside a function that owns the state \<open>s\<close>, and \<open>try_op\<close> is \<open>?\<close> after a call that returned
  a new state: an early return keeps the writes made so far, because in Rust they are made in
  place. Undoing them is the business of the host at the end of an invocation.
\<close>

primrec bind_res :: "('e, 'a) result \<Rightarrow> ('a \<Rightarrow> ('e, 'b) result) \<Rightarrow> ('e, 'b) result" where
  "bind_res (Ok a) k = k a"
| "bind_res (Err e) k = Err e"
| "bind_res Trap k = Trap"

primrec try_res :: "('e, 'a) result \<Rightarrow> 's \<Rightarrow> ('a \<Rightarrow> ('e, 'b) result \<times> 's) \<Rightarrow> ('e, 'b) result \<times> 's" where
  "try_res (Ok a) s k = k a"
| "try_res (Err e) s k = (Err e, s)"
| "try_res Trap s k = (Trap, s)"

fun try_op :: "('e, 'a) result \<times> 's \<Rightarrow> ('a \<Rightarrow> 's \<Rightarrow> ('e, 'b) result \<times> 's) \<Rightarrow> ('e, 'b) result \<times> 's" where
  "try_op (Ok a, s) k = k a s"
| "try_op (Err e, s) k = (Err e, s)"
| "try_op (Trap, s) k = (Trap, s)"

lemma bind_res_Ok [ok_iff]: "bind_res r k = Ok b \<longleftrightarrow> (\<exists>a. r = Ok a \<and> k a = Ok b)"
  by (cases r) simp_all

lemma try_res_Ok [ok_iff]:
  "try_res r s k = (Ok b, t) \<longleftrightarrow> (\<exists>a. r = Ok a \<and> k a = (Ok b, t))"
  by (cases r) auto

lemma try_op_Ok [ok_iff]:
  "try_op m k = (Ok b, t) \<longleftrightarrow> (\<exists>a u. m = (Ok a, u) \<and> k a u = (Ok b, t))"
  by (cases m; cases "fst m") auto

lemma try_res_cases:
  assumes "try_res r s k = m"
  obtains (Ok) a where "r = Ok a" and "k a = m"
    | (Err) e where "r = Err e" and "m = (Err e, s)"
    | (Trap) "r = Trap" and "m = (Trap, s)"
  using assms by (cases r) auto

lemma if_err_Ok [ok_iff]:
  "(if c then (Err e, s) else m) = (Ok b, t) \<longleftrightarrow> \<not> c \<and> m = (Ok b, t)"
  "(if c then m else (Err e, s)) = (Ok b, t) \<longleftrightarrow> c \<and> m = (Ok b, t)"
  "(if c then Err e else r) = Ok b \<longleftrightarrow> \<not> c \<and> r = Ok b"
  "(if c then r else Err e) = Ok b \<longleftrightarrow> c \<and> r = Ok b"
  by auto

lemma if_trap_Ok [ok_iff]:
  "(if c then (Trap, s) else m) = (Ok b, t) \<longleftrightarrow> \<not> c \<and> m = (Ok b, t)"
  "(if c then m else (Trap, s)) = (Ok b, t) \<longleftrightarrow> c \<and> m = (Ok b, t)"
  "(if c then Trap else r) = Ok b \<longleftrightarrow> \<not> c \<and> r = Ok b"
  "(if c then r else Trap) = Ok b \<longleftrightarrow> c \<and> r = Ok b"
  by auto

text \<open>Postconditions that look at every outcome, for code whose caller catches errors.\<close>

definition ends :: "(('e, 'a) result \<Rightarrow> 's \<Rightarrow> bool) \<Rightarrow> ('e, 'a) result \<times> 's \<Rightarrow> bool" where
  "ends Q m \<longleftrightarrow> Q (fst m) (snd m)"

lemma ends_pair [ends_intro]: "Q r s \<Longrightarrow> ends Q (r, s)"
  by (simp add: ends_def)

lemma ends_try_res [ends_intro]:
  assumes "\<And>a. r = Ok a \<Longrightarrow> ends Q (k a)" and "\<And>e. r = Err e \<Longrightarrow> Q (Err e) s" and "r = Trap \<Longrightarrow> Q Trap s"
  shows "ends Q (try_res r s k)"
  using assms by (cases r) (simp_all add: ends_def)

lemma ends_try_op [ends_intro]:
  assumes "\<And>a t. m = (Ok a, t) \<Longrightarrow> ends Q (k a t)" and "\<And>e t. m = (Err e, t) \<Longrightarrow> Q (Err e) t"
    and "\<And>t. m = (Trap, t) \<Longrightarrow> Q Trap t"
  shows "ends Q (try_op m k)"
  using assms by (cases m; cases "fst m") (auto simp: ends_def)

lemma ends_if [ends_intro]:
  assumes "c \<Longrightarrow> ends Q m" and "\<not> c \<Longrightarrow> ends Q n"
  shows "ends Q (if c then m else n)"
  using assms by simp

lemma ends_case_option [ends_intro]:
  assumes "x = None \<Longrightarrow> ends Q m" and "\<And>a. x = Some a \<Longrightarrow> ends Q (k a)"
  shows "ends Q (case x of None \<Rightarrow> m | Some a \<Rightarrow> k a)"
  using assms by (cases x) simp_all

lemma endsD: "ends Q m \<Longrightarrow> m = (r, s) \<Longrightarrow> Q r s"
  by (simp add: ends_def)

lemma endsI: "(\<And>r s. m = (r, s) \<Longrightarrow> Q r s) \<Longrightarrow> ends Q m"
  by (cases m) (simp add: ends_def)

lemma ends_mono: "ends Q m \<Longrightarrow> (\<And>r s. Q r s \<Longrightarrow> Q' r s) \<Longrightarrow> ends Q' m"
  by (simp add: ends_def)

section \<open>Machine integers\<close>

text \<open>
  \<open>i128\<close> values are integers, \<open>u64\<close> and \<open>u32\<close> values natural numbers; the width shows in the
  operations, which are Rust's: the checked ones return \<open>None\<close> outside the range, the saturating
  ones stop at its ends, and plain operators wrap (the release profile of the crate does not turn
  overflow checks on). Natural number subtraction is \<open>saturating_sub\<close> of unsigned integers.
\<close>

type_synonym i128 = int
type_synonym i32 = int
type_synonym u64 = nat
type_synonym u32 = nat

definition I128_MAX :: i128 where [int_defs]: "I128_MAX = 2 ^ 127 - 1"
definition I128_MIN :: i128 where [int_defs]: "I128_MIN = - (2 ^ 127)"
definition U64_MAX :: u64 where [int_defs]: "U64_MAX = 2 ^ 64 - 1"
definition U32_MAX :: u32 where [int_defs]: "U32_MAX = 2 ^ 32 - 1"

definition in_i128 :: "int \<Rightarrow> bool" where [int_defs]:
  "in_i128 x \<longleftrightarrow> I128_MIN \<le> x \<and> x \<le> I128_MAX"

definition checked_i128 :: "int \<Rightarrow> i128 option" where [int_defs]:
  "checked_i128 x = (if in_i128 x then Some x else None)"

definition checked_add :: "i128 \<Rightarrow> i128 \<Rightarrow> i128 option" where
  "checked_add a b = checked_i128 (a + b)"

definition checked_sub :: "i128 \<Rightarrow> i128 \<Rightarrow> i128 option" where
  "checked_sub a b = checked_i128 (a - b)"

definition checked_mul :: "i128 \<Rightarrow> i128 \<Rightarrow> i128 option" where
  "checked_mul a b = checked_i128 (a * b)"

definition checked_div :: "i128 \<Rightarrow> i128 \<Rightarrow> i128 option" where
  "checked_div a b = (if b = 0 then None else checked_i128 (a sdiv b))"

definition checked_pow :: "i128 \<Rightarrow> u32 \<Rightarrow> i128 option" where
  "checked_pow a n = checked_i128 (a ^ n)"

definition clamp_i128 :: "int \<Rightarrow> i128" where [int_defs]:
  "clamp_i128 x = max I128_MIN (min I128_MAX x)"

definition saturating_add :: "i128 \<Rightarrow> i128 \<Rightarrow> i128" where
  "saturating_add a b = clamp_i128 (a + b)"

definition saturating_sub :: "i128 \<Rightarrow> i128 \<Rightarrow> i128" where
  "saturating_sub a b = clamp_i128 (a - b)"

definition wrap_i128 :: "int \<Rightarrow> i128" where
  "wrap_i128 x = (x + 2 ^ 127) mod 2 ^ 128 - 2 ^ 127"

definition checked_add_u64 :: "u64 \<Rightarrow> u64 \<Rightarrow> u64 option" where
  "checked_add_u64 a b = (if a + b \<le> U64_MAX then Some (a + b) else None)"

definition checked_mul_u64 :: "u64 \<Rightarrow> u64 \<Rightarrow> u64 option" where
  "checked_mul_u64 a b = (if a * b \<le> U64_MAX then Some (a * b) else None)"

definition saturating_add_u64 :: "u64 \<Rightarrow> u64 \<Rightarrow> u64" where
  "saturating_add_u64 a b = min U64_MAX (a + b)"

definition checked_add_u32 :: "u32 \<Rightarrow> u32 \<Rightarrow> u32 option" where
  "checked_add_u32 a b = (if a + b \<le> U32_MAX then Some (a + b) else None)"

definition saturating_add_u32 :: "u32 \<Rightarrow> u32 \<Rightarrow> u32" where
  "saturating_add_u32 a b = min U32_MAX (a + b)"

lemmas checked_defs [int_defs] =
  checked_add_def checked_sub_def checked_mul_def checked_div_def checked_pow_def
  saturating_add_def saturating_sub_def
  checked_add_u64_def checked_mul_u64_def saturating_add_u64_def
  checked_add_u32_def saturating_add_u32_def

lemma checked_i128_Some [ok_iff]: "checked_i128 x = Some y \<longleftrightarrow> in_i128 x \<and> y = x"
  by (auto simp: checked_i128_def)

lemma checked_Some [ok_iff]:
  "checked_add a b = Some c \<longleftrightarrow> in_i128 (a + b) \<and> c = a + b"
  "checked_sub a b = Some c \<longleftrightarrow> in_i128 (a - b) \<and> c = a - b"
  "checked_mul a b = Some c \<longleftrightarrow> in_i128 (a * b) \<and> c = a * b"
  "checked_add_u64 m n = Some k \<longleftrightarrow> m + n \<le> U64_MAX \<and> k = m + n"
  "checked_mul_u64 m n = Some k \<longleftrightarrow> m * n \<le> U64_MAX \<and> k = m * n"
  "checked_add_u32 m n = Some k \<longleftrightarrow> m + n \<le> U32_MAX \<and> k = m + n"
  by (auto simp: checked_defs checked_i128_def)

lemma I128_MIN_eq: "I128_MIN = - I128_MAX - 1"
  by (simp add: I128_MIN_def I128_MAX_def)

lemma I128_MAX_pos: "0 < I128_MAX"
  by (simp add: I128_MAX_def)

text \<open>The range of \<open>i128\<close> for arithmetic, with its upper end kept as an atom.\<close>

lemmas i128_range = in_i128_def I128_MIN_eq

lemma wrap_i128_id: "in_i128 x \<Longrightarrow> wrap_i128 x = x"
  by (simp add: wrap_i128_def in_i128_def I128_MIN_def I128_MAX_def)

lemma wrap_i128_range: "in_i128 (wrap_i128 x)"
proof -
  have "0 \<le> (x + 2 ^ 127) mod (2 ^ 128 :: int)" and "(x + 2 ^ 127) mod (2 ^ 128 :: int) < 2 ^ 128"
    by simp_all
  then show ?thesis by (simp add: wrap_i128_def in_i128_def I128_MIN_def I128_MAX_def)
qed

lemma sdiv_nonneg: "0 \<le> a \<Longrightarrow> 0 < b \<Longrightarrow> a sdiv b = (a div b :: int)"
  by (simp add: signed_divide_int_def sgn_if)

section \<open>Maps and sums over their domain\<close>

text \<open>
  \<open>msum f m\<close> adds \<open>f k v\<close> over the entries of a map with a finite domain. It is how the
  development speaks of \<open>all prepaid balances\<close> or \<open>all merchant balances\<close>.
\<close>

definition msum :: "('k \<Rightarrow> 'v \<Rightarrow> int) \<Rightarrow> ('k \<rightharpoonup> 'v) \<Rightarrow> int" where
  "msum f m = (\<Sum>k \<in> dom m. f k (the (m k)))"

definition weight :: "('k \<Rightarrow> 'v \<Rightarrow> int) \<Rightarrow> ('k \<rightharpoonup> 'v) \<Rightarrow> 'k \<Rightarrow> int" where
  "weight f m k = (case m k of Some v \<Rightarrow> f k v | None \<Rightarrow> 0)"

lemma msum_empty [simp]: "msum f Map.empty = 0"
  by (simp add: msum_def)

lemma msum_upd:
  assumes "finite (dom m)"
  shows "msum f (m(k \<mapsto> v)) = msum f m - weight f m k + f k v"
proof (cases "m k")
  case None
  then have "k \<notin> dom m" by auto
  then have "(\<Sum>j \<in> dom m. f j (the ((m(k \<mapsto> v)) j))) = (\<Sum>j \<in> dom m. f j (the (m j)))"
    by (intro sum.cong) auto
  with assms None \<open>k \<notin> dom m\<close> show ?thesis
    by (simp add: msum_def weight_def)
next
  case (Some w)
  then have k: "k \<in> dom m" by auto
  have "msum f (m(k \<mapsto> v)) = f k v + (\<Sum>j \<in> dom m - {k}. f j (the ((m(k \<mapsto> v)) j)))"
    using assms k by (simp add: msum_def insert_absorb sum.remove)
  also have "(\<Sum>j \<in> dom m - {k}. f j (the ((m(k \<mapsto> v)) j))) = (\<Sum>j \<in> dom m - {k}. f j (the (m j)))"
    by (intro sum.cong) auto
  also have "\<dots> = msum f m - f k w"
    using assms k Some by (simp add: msum_def sum.remove)
  finally show ?thesis using Some by (simp add: weight_def del: fun_upd_apply)
qed

lemma msum_del:
  assumes "finite (dom m)"
  shows "msum f (m(k := None)) = msum f m - weight f m k"
proof (cases "m k")
  case None
  then have "m(k := None) = m" by (simp add: fun_upd_idem)
  with None show ?thesis by (simp add: weight_def)
next
  case (Some w)
  then have "(m(k := None))(k \<mapsto> w) = m" by (simp add: fun_upd_idem)
  moreover have "msum f ((m(k := None))(k \<mapsto> w)) = msum f (m(k := None)) + f k w"
    using msum_upd [of "m(k := None)" f k w] assms by (simp add: weight_def)
  ultimately show ?thesis using Some by (simp add: weight_def)
qed

lemma msum_nonneg:
  assumes "\<And>k v. m k = Some v \<Longrightarrow> 0 \<le> f k v"
  shows "0 \<le> msum f m"
  unfolding msum_def using assms by (intro sum_nonneg) auto

lemma weight_le_msum:
  assumes "finite (dom m)" and "\<And>k v. m k = Some v \<Longrightarrow> 0 \<le> f k v"
  shows "weight f m k \<le> msum f m"
proof -
  have "0 \<le> msum f (m(k := None))"
    by (rule msum_nonneg) (auto simp: assms(2) split: if_splits)
  then show ?thesis using msum_del [OF assms(1)] by simp
qed

lemma msum_cong:
  "(\<And>k v. m k = Some v \<Longrightarrow> f k v = g k v) \<Longrightarrow> msum f m = msum g m"
  unfolding msum_def by (intro sum.cong) auto

end
