(* ===== verification/Vault_Types.thy ===== *)
theory Vault_Types
  imports Vault_Prelude
begin

text \<open>
  The data of \<open>contracts/subscription_vault/src/types.rs\<close> (and the blocklist structs of
  \<open>blocklist.rs\<close>): error codes, statuses, the subscription record, plan templates, merchant and
  billing records, and the payloads of the events the contract publishes. Struct field names are
  the source's; where two structs share a field name the later one carries a prefix.
\<close>

section \<open>Addresses and errors\<close>

text \<open>An address is opaque to the contract, which only compares addresses.\<close>

datatype address = Address (addr_id: nat)

instantiation address :: linorder
begin
definition less_eq_address :: "address \<Rightarrow> address \<Rightarrow> bool" where
  "less_eq_address a b \<longleftrightarrow> addr_id a \<le> addr_id b"
definition less_address :: "address \<Rightarrow> address \<Rightarrow> bool" where
  "less_address a b \<longleftrightarrow> addr_id a < addr_id b"
instance
  by standard (auto simp: less_eq_address_def less_address_def intro: address.expand)
end

type_synonym bytes32 = "8 word list"

text \<open>
  \<open>NonceAlreadyUsed\<close> is used by \<open>nonce.rs\<close> but is missing from the enum of \<open>types.rs\<close>, so it has
  no code in \<open>to_code\<close>.
\<close>

datatype (plugins only: code size) error =
    Unauthorized | Forbidden | SubscriberBlocklisted | SelfRotation
  | NotFound | NotInitialized
  | InvalidAmount | InvalidInput | InvalidRecoveryAmount | InvalidNewAdmin
  | MetadataKeyTooLong | MetadataValueTooLong | OraclePriceInvalid
  | InvalidStatusTransition | NotActive | SubscriptionExpired | IntervalNotElapsed | Replay
  | RecoveryNotAllowed | EmergencyStopActive | AlreadyInitialized | MerchantPaused | Reentrancy
  | InsufficientBalanceErr | InsufficientPrepaidBalance | BelowMinimumTopup | Underflow | Overflow
  | OracleNotConfigured | OraclePriceUnavailable | OraclePriceStale
  | SubscriptionLimitReached | LifetimeCapReached | UsageNotEnabled | InvalidExportLimit
  | MetadataKeyLimitReached | MaxConcurrentSubscriptionsReached | CreditLimitExceeded
  | RateLimitExceeded | UsageCapExceeded | BurstLimitExceeded
  | InvalidFeeBips | InvalidOperations | MustAllowChargeOperation
  | InvalidTokenDecimals | InvalidToken
  | CannotChangeUsageMode
  | NonceAlreadyUsed

fun to_code :: "error \<Rightarrow> u32" where
  "to_code Unauthorized = 1001"
| "to_code Forbidden = 1002"
| "to_code SubscriberBlocklisted = 1003"
| "to_code SelfRotation = 1004"
| "to_code NotFound = 2001"
| "to_code NotInitialized = 2002"
| "to_code InvalidAmount = 3001"
| "to_code InvalidInput = 3002"
| "to_code InvalidRecoveryAmount = 3003"
| "to_code InvalidNewAdmin = 3004"
| "to_code MetadataKeyTooLong = 3005"
| "to_code MetadataValueTooLong = 3006"
| "to_code OraclePriceInvalid = 3007"
| "to_code InvalidStatusTransition = 4001"
| "to_code NotActive = 4002"
| "to_code SubscriptionExpired = 4003"
| "to_code IntervalNotElapsed = 4004"
| "to_code Replay = 4005"
| "to_code RecoveryNotAllowed = 4006"
| "to_code EmergencyStopActive = 4007"
| "to_code AlreadyInitialized = 4008"
| "to_code MerchantPaused = 4009"
| "to_code Reentrancy = 4010"
| "to_code InsufficientBalanceErr = 5001"
| "to_code InsufficientPrepaidBalance = 5002"
| "to_code BelowMinimumTopup = 5003"
| "to_code Underflow = 5004"
| "to_code Overflow = 5005"
| "to_code OracleNotConfigured = 5006"
| "to_code OraclePriceUnavailable = 5007"
| "to_code OraclePriceStale = 5008"
| "to_code SubscriptionLimitReached = 6001"
| "to_code LifetimeCapReached = 6002"
| "to_code UsageNotEnabled = 6003"
| "to_code InvalidExportLimit = 6004"
| "to_code MetadataKeyLimitReached = 6005"
| "to_code MaxConcurrentSubscriptionsReached = 6006"
| "to_code CreditLimitExceeded = 6007"
| "to_code RateLimitExceeded = 6008"
| "to_code UsageCapExceeded = 6009"
| "to_code BurstLimitExceeded = 6010"
| "to_code InvalidFeeBips = 7001"
| "to_code InvalidOperations = 7002"
| "to_code MustAllowChargeOperation = 7003"
| "to_code InvalidTokenDecimals = 8001"
| "to_code InvalidToken = 8002"
| "to_code CannotChangeUsageMode = 9001"

type_synonym 'a res = "(error, 'a) result"

section \<open>Statuses and result codes\<close>

datatype subscription_status =
  Active | Paused | Cancelled | InsufficientBalance | GracePeriod | Expired | Archived

instantiation subscription_status :: enum
begin
definition "enum_subscription_status =
  [Active, Paused, Cancelled, InsufficientBalance, GracePeriod, Expired, Archived]"
definition "enum_all_subscription_status P \<longleftrightarrow>
  P Active \<and> P Paused \<and> P Cancelled \<and> P InsufficientBalance \<and> P GracePeriod \<and> P Expired \<and> P Archived"
definition "enum_ex_subscription_status P \<longleftrightarrow>
  P Active \<or> P Paused \<or> P Cancelled \<or> P InsufficientBalance \<or> P GracePeriod \<or> P Expired \<or> P Archived"
instance
proof
  show "UNIV = set (enum_class.enum :: subscription_status list)"
    using subscription_status.exhaust by (auto simp: enum_subscription_status_def)
  show "distinct (enum_class.enum :: subscription_status list)"
    by (simp add: enum_subscription_status_def)
  fix P :: "subscription_status \<Rightarrow> bool"
  show "enum_class.enum_all P \<longleftrightarrow> Ball UNIV P"
    unfolding enum_all_subscription_status_def by (metis UNIV_I subscription_status.exhaust)
  show "enum_class.enum_ex P \<longleftrightarrow> Bex UNIV P"
    unfolding enum_ex_subscription_status_def by (metis UNIV_I subscription_status.exhaust)
qed
end

datatype usage_charge_result =
  UsageCharged | UsageReplay | UsageBurstLimitExceeded | UsageRateLimitExceeded | UsageUsageCapExceeded

datatype charge_execution_result =
  Charged | ChargeInsufficientBalance | ChargeLifetimeCapReached

datatype billing_charge_kind = Interval | Usage | OneOff

section \<open>Subscriptions and plans\<close>

record subscription =
  subscriber :: address
  merchant :: address
  token :: address
  amount :: i128
  interval_seconds :: u64
  last_payment_timestamp :: u64
  status :: subscription_status
  prepaid_balance :: i128
  usage_enabled :: bool
  lifetime_cap :: "i128 option"
  lifetime_charged :: i128
  start_time :: u64
  expires_at :: "u64 option"
  grace_start_timestamp :: "u64 option"

definition is_expired :: "subscription \<Rightarrow> u64 \<Rightarrow> bool" where
  "is_expired sub current_time = (case expires_at sub of Some e \<Rightarrow> e \<le> current_time | None \<Rightarrow> False)"

record plan_template =
  plan_merchant :: address
  plan_token :: address
  plan_amount :: i128
  plan_interval_seconds :: u64
  plan_usage_enabled :: bool
  plan_lifetime_cap :: "i128 option"
  template_key :: u32
  version :: u32
  is_disabled :: bool

record usage_limits =
  rate_limit_max_calls :: "u32 option"
  rate_window_secs :: u64
  burst_min_interval_secs :: u64
  usage_cap_units :: "i128 option"

record usage_state =
  last_usage_timestamp :: u64
  window_start_timestamp :: u64
  window_call_count :: u32
  current_period_usage_units :: i128
  period_index :: u64

record next_charge_info =
  next_charge_timestamp :: u64
  is_charge_expected :: bool
  info_status :: subscription_status
  reason :: string
  info_amount :: i128
  info_token :: address

record cap_info =
  info_lifetime_cap :: "i128 option"
  info_lifetime_charged :: i128
  remaining_cap :: "i128 option"
  cap_reached :: bool

record batch_charge_result =
  success :: bool
  error_code :: u32

section \<open>Merchants\<close>

record accrued_totals =
  acc_interval :: i128
  acc_usage :: i128
  acc_one_off :: i128

record token_earnings =
  accruals :: accrued_totals
  withdrawals :: i128
  refunds :: i128

record token_reconciliation_snapshot =
  recon_token :: address
  total_accruals :: i128
  total_withdrawals :: i128
  total_refunds :: i128
  computed_balance :: i128

record merchant_config =
  cfg_version :: i32
  payout_address :: address
  fee_bips :: i32
  allowed_operations :: "32 word"
  is_active :: bool
  fee_address :: "address option"
  redirect_url :: string
  is_paused :: bool
  last_updated :: u64

unbundle bit_operations_syntax

definition OP_CHARGE :: "32 word" where "OP_CHARGE = push_bit 0 1"
definition OP_WITHDRAW :: "32 word" where "OP_WITHDRAW = push_bit 1 1"
definition OP_REFUND :: "32 word" where "OP_REFUND = push_bit 2 1"
definition OP_BILLING_PAUSE :: "32 word" where "OP_BILLING_PAUSE = push_bit 3 1"
definition OP_AUTO_RENEWAL :: "32 word" where "OP_AUTO_RENEWAL = push_bit 4 1"

definition DEFAULT_ALLOWED_OPS :: "32 word" where
  "DEFAULT_ALLOWED_OPS = OP_CHARGE OR OP_WITHDRAW OR OP_REFUND OR OP_AUTO_RENEWAL"

definition MAX_FEE_BIPS :: i32 where "MAX_FEE_BIPS = 10000"

definition is_valid_allowed_operations :: "32 word \<Rightarrow> bool" where
  "is_valid_allowed_operations ops =
    (let valid_mask = OP_CHARGE OR OP_WITHDRAW OR OP_REFUND OR OP_BILLING_PAUSE OR OP_AUTO_RENEWAL
     in ops AND NOT valid_mask = 0)"

section \<open>Billing records\<close>

record billing_statement =
  bs_subscription_id :: u32
  sequence :: u32
  charged_at :: u64
  period_start :: u64
  period_end :: u64
  bs_amount :: i128
  bs_merchant :: address
  kind :: billing_charge_kind

record billing_statements_page =
  statements :: "billing_statement list"
  next_cursor :: "u32 option"
  total :: u32

record billing_statement_aggregate =
  pruned_count :: u32
  total_amount :: i128
  totals :: accrued_totals
  oldest_period_start :: "u64 option"
  newest_period_end :: "u64 option"

record billing_compaction_summary =
  cs_subscription_id :: u32
  cs_pruned_count :: u32
  kept_count :: u32
  total_pruned_amount :: i128

definition SNAPSHOT_FLAG_CLOSED :: "32 word" where "SNAPSHOT_FLAG_CLOSED = push_bit 0 1"
definition SNAPSHOT_FLAG_INTERVAL_CHARGED :: "32 word" where "SNAPSHOT_FLAG_INTERVAL_CHARGED = push_bit 1 1"
definition SNAPSHOT_FLAG_USAGE_CHARGED :: "32 word" where "SNAPSHOT_FLAG_USAGE_CHARGED = push_bit 2 1"
definition SNAPSHOT_FLAG_EMPTY :: "32 word" where "SNAPSHOT_FLAG_EMPTY = push_bit 3 1"

record billing_period_snapshot =
  ps_subscription_id :: u32
  ps_period_index :: u64
  ps_period_start :: u64
  ps_period_end :: u64
  total_charged :: i128
  ps_total_usage_units :: i128
  ps_status_flags :: "32 word"
  ps_finalized_at :: u64

datatype billing_statement_finalization = PeriodClosed | Cancellation | FinalSettlement

record billing_statement_ref =
  ref_subscription_id :: u32
  ref_period_index :: u32
  ref_period_end :: u64

record period_billing_statement =
  pbs_subscription_id :: u32
  pbs_period_index :: u32
  snapshot_period_index :: u32
  pbs_merchant :: address
  pbs_subscriber :: address
  pbs_token :: address
  period_start_timestamp :: u64
  period_end_timestamp :: u64
  total_amount_charged :: i128
  total_usage_units :: i128
  protocol_fee_amount :: i128
  net_amount_to_merchant :: i128
  refund_amount :: i128
  status_flags :: "32 word"
  subscription_status :: subscription_status
  finalized_by :: billing_statement_finalization
  finalized_at :: u64

record subscription_summary =
  sum_subscription_id :: u32
  sum_subscriber :: address
  sum_merchant :: address
  sum_token :: address
  sum_amount :: i128
  sum_interval_seconds :: u64
  sum_last_payment_timestamp :: u64
  sum_status :: subscription_status
  sum_prepaid_balance :: i128
  sum_usage_enabled :: bool
  sum_lifetime_cap :: "i128 option"
  sum_lifetime_charged :: i128
  sum_start_time :: u64
  sum_expires_at :: "u64 option"

record oracle_config =
  enabled :: bool
  oracle_address :: "address option"
  max_age_seconds :: u64

record oracle_price =
  price :: i128
  price_timestamp :: u64

record accepted_token =
  acc_token :: address
  decimals :: u32

record blocklist_entry =
  ble_subscriber :: address
  added_by :: address
  added_at :: u64
  ble_reason :: "string option"

record contract_snapshot =
  cs_admin :: address
  cs_token :: address
  cs_min_topup :: i128
  cs_next_id :: u32
  storage_version :: u32
  cs_timestamp :: u64

datatype recovery_reason =
  UserOverpayment | FailedTransfer | ExpiredEscrow | SystemCorrection | AccidentalTransfer

section \<open>Events\<close>

text \<open>
  The payloads, with the fields of each struct in the order of the source. The structs are
  grouped as they stand together in \<open>types.rs\<close> and \<open>blocklist.rs\<close>; \<open>event\<close> joins them.
\<close>

datatype (plugins only: code size) admin_event =
    Initialized address address i128 u64
  | MinTopupUpdated i128
  | MigrationContractSnapshot address u64
  | EmergencyStopEnabledEvent address u64
  | AdminRotatedEvent address address u64
  | EmergencyStopDisabledEvent address u64
  | RecoveryEvent address address address i128 recovery_reason u64

datatype (plugins only: code size) lifecycle_event =
    SubscriptionCreatedEvent u32 address address address i128 u64 "i128 option" "u64 option" u64
  | FundsDepositedEvent u32 address address i128 i128 u64
  | SubscriptionChargedEvent u32 address address address i128 i128 u64 u64 u64
  | SubscriptionChargeFailedEvent u32 address i128 i128 i128 subscription_status u64
  | SubscriptionRecoveryReadyEvent u32 address i128 i128 u64
  | SubscriptionCancelledEvent u32 address address address address i128 u64
  | SubscriptionPausedEvent u32 address address address u64
  | SubscriptionResumedEvent u32 address address address "subscription_status option" u64
  | SubscriptionExpiredEvent u32 u64
  | SubscriptionArchivedEvent u32 u64

datatype (plugins only: code size) funds_event =
    MerchantWithdrawalEvent address address i128 i128 u64
  | SubscriberWithdrawalEvent u32 address address i128 u64
  | OneOffChargedEvent u32 address address address i128 i128 u64
  | LifetimeCapReachedEvent u32 i128 i128 u64
  | MetadataSetEvent u32 string address
  | MetadataDeletedEvent u32 string address
  | PlanTemplateCreatedEvent u32 address address i128 u64 bool "i128 option" u64
  | PlanTemplateUpdatedEvent u32 u32 u32 u32 address u64
  | PlanTemplateDisabledEvent u32 address u64
  | PlanMaxActiveUpdatedEvent u32 address u32 u64
  | SubscriptionMigratedEvent u32 u32 u32 u32 address address u64

datatype (plugins only: code size) config_event =
    MerchantPausedEvent address u64
  | MerchantUnpausedEvent address u64
  | MerchantRefundEvent address address address i128 u64
  | ProtocolFeeConfiguredEvent address address u32 u64
  | ProtocolFeeChargedEvent u32 address i128 i128 u64
  | MerchantConfigInitializedEvent address address i32 "32 word" u64
  | MerchantConfigUpdatedEvent address address i32 "32 word" bool u64
  | GlobalCapDefaultUpdatedEvent address "i128 option" "i128 option" u64
  | MerchantCapDefaultUpdatedEvent address "i128 option" "i128 option" u64
  | LifetimeCapUpdatedEvent u32 "i128 option" "i128 option" u64

datatype (plugins only: code size) nonce_event =
    NonceConsumedEvent address u32 u64 u64

datatype (plugins only: code size) export_event =
    MigrationExportEvent address u32 u32 u32 u64

datatype (plugins only: code size) statement_event =
    BillingCompactedEvent address u32 u32 u32 i128 u64 u32 i128 "u64 option" "u64 option"

datatype (plugins only: code size) bill_event =
    BillingStatementPersistedEvent u32 u32 address billing_statement_finalization

datatype (plugins only: code size) oracle_event =
    OracleChargeResolvedEvent u32 i128 i128 i128 u64 u64

datatype (plugins only: code size) usage_event =
    UsageStatementEvent u32 address i128 address u64 string
  | UsageChargeRejectedEvent u32 address address i128 u64 string usage_charge_result
  | UsageLimitsConfiguredEvent u32 address "u32 option" u64 u64 "i128 option" u64

datatype (plugins only: code size) refund_event =
    PartialRefundEvent u32 address address i128 u64

datatype (plugins only: code size) blocklist_event =
    BlocklistAddedEvent address address u64 "string option"
  | BlocklistRemovedEvent address address u64

datatype (plugins only: code size) event =
    AdminEv admin_event
  | LifecycleEv lifecycle_event
  | FundsEv funds_event
  | ConfigEv config_event
  | NonceEv nonce_event
  | ExportEv export_event
  | StatementEv statement_event
  | BillEv bill_event
  | OracleEv oracle_event
  | UsageEv usage_event
  | RefundEv refund_event
  | BlocklistEv blocklist_event

section \<open>Facts about the codes and masks\<close>

lemma to_code_inj:
  "e \<noteq> NonceAlreadyUsed \<Longrightarrow> e' \<noteq> NonceAlreadyUsed \<Longrightarrow> to_code e = to_code e' \<Longrightarrow> e = e'"
  by (cases e; simp; cases e'; simp)

lemma to_code_pos: "e \<noteq> NonceAlreadyUsed \<Longrightarrow> 0 < to_code e"
  by (cases e) simp_all

end
