(* ===== verification/Safe_Math.thy ===== *)
theory Safe_Math
  imports Vault_Types
begin

text \<open>
  \<open>safe_math.rs\<close>: checked \<open>i128\<close> arithmetic that names the direction of a failure. Besides the
  operations, this theory shows that the error codes tell the truth: on \<open>i128\<close> operands,
  \<open>Overflow\<close> is returned exactly when the exact result is above the range and \<open>Underflow\<close> exactly
  when it is below (or, for the balance operations, negative).
\<close>

definition safe_add :: "i128 \<Rightarrow> i128 \<Rightarrow> i128 res" where
  "safe_add a b = (case checked_add a b of Some c \<Rightarrow> Ok c
     | None \<Rightarrow> if a > 0 then Err Overflow else Err Underflow)"

definition safe_sub :: "i128 \<Rightarrow> i128 \<Rightarrow> i128 res" where
  "safe_sub a b = (case checked_sub a b of Some c \<Rightarrow> Ok c
     | None \<Rightarrow> if a \<ge> 0 then Err Overflow else Err Underflow)"

definition validate_non_negative :: "i128 \<Rightarrow> unit res" where
  "validate_non_negative amt = (if amt < 0 then Err Underflow else Ok ())"

definition safe_add_balance :: "i128 \<Rightarrow> i128 \<Rightarrow> i128 res" where
  "safe_add_balance balance amt =
     bind_res (validate_non_negative amt) (\<lambda>_. safe_add balance amt)"

definition safe_sub_balance :: "i128 \<Rightarrow> i128 \<Rightarrow> i128 res" where
  "safe_sub_balance balance amt =
     bind_res (validate_non_negative amt) (\<lambda>_.
     bind_res (safe_sub balance amt) (\<lambda>r.
     if r < 0 then Err Underflow else Ok r))"

definition safe_mul :: "i128 \<Rightarrow> i128 \<Rightarrow> i128 res" where
  "safe_mul a b = (case checked_mul a b of Some c \<Rightarrow> Ok c
     | None \<Rightarrow> if (a > 0 \<and> b > 0) \<or> (a < 0 \<and> b < 0) then Err Overflow else Err Underflow)"

definition safe_div :: "i128 \<Rightarrow> i128 \<Rightarrow> i128 res" where
  "safe_div a b = (if b = 0 then Err InvalidInput else ok_or (checked_div a b) Overflow)"

definition safe_pow :: "i128 \<Rightarrow> u32 \<Rightarrow> i128 res" where
  "safe_pow base e = (case checked_pow base e of Some c \<Rightarrow> Ok c
     | None \<Rightarrow> if base > 0 \<or> e mod 2 = 0 then Err Overflow else Err Underflow)"

section \<open>When the operations succeed\<close>

lemma safe_add_Ok [ok_iff]: "safe_add a b = Ok c \<longleftrightarrow> in_i128 (a + b) \<and> c = a + b"
  by (auto simp: safe_add_def checked_defs checked_i128_def)

lemma safe_sub_Ok [ok_iff]: "safe_sub a b = Ok c \<longleftrightarrow> in_i128 (a - b) \<and> c = a - b"
  by (auto simp: safe_sub_def checked_defs checked_i128_def)

lemma safe_mul_Ok [ok_iff]: "safe_mul a b = Ok c \<longleftrightarrow> in_i128 (a * b) \<and> c = a * b"
  by (auto simp: safe_mul_def checked_defs checked_i128_def)

lemma safe_div_Ok [ok_iff]: "safe_div a b = Ok c \<longleftrightarrow> b \<noteq> 0 \<and> in_i128 (a sdiv b) \<and> c = a sdiv b"
  by (auto simp: safe_div_def checked_defs checked_i128_def ok_or_def)

lemma safe_pow_Ok [ok_iff]: "safe_pow a n = Ok c \<longleftrightarrow> in_i128 (a ^ n) \<and> c = a ^ n"
  by (auto simp: safe_pow_def checked_defs checked_i128_def)

lemma validate_non_negative_Ok [ok_iff]: "validate_non_negative a = Ok u \<longleftrightarrow> 0 \<le> a"
  by (simp add: validate_non_negative_def)

lemma safe_add_balance_Ok [ok_iff]:
  "safe_add_balance b a = Ok c \<longleftrightarrow> 0 \<le> a \<and> in_i128 (b + a) \<and> c = b + a"
  by (simp add: safe_add_balance_def ok_iff)

lemma safe_sub_balance_Ok [ok_iff]:
  "safe_sub_balance b a = Ok c \<longleftrightarrow> 0 \<le> a \<and> a \<le> b \<and> in_i128 (b - a) \<and> c = b - a"
  by (auto simp: safe_sub_balance_def ok_iff)

lemma safe_not_Trap [simp]:
  "safe_add a b \<noteq> Trap" "safe_sub a b \<noteq> Trap" "safe_mul a b \<noteq> Trap" "safe_div a b \<noteq> Trap"
  "safe_pow a n \<noteq> Trap" "validate_non_negative a \<noteq> Trap"
  by (auto simp: safe_add_def safe_sub_def safe_mul_def safe_div_def safe_pow_def
      validate_non_negative_def split: option.split)

lemma safe_balance_not_Trap [simp]:
  "safe_add_balance b a \<noteq> Trap" "safe_sub_balance b a \<noteq> Trap"
  by (auto simp: safe_add_balance_def safe_sub_balance_def validate_non_negative_def
      safe_add_def safe_sub_def split: option.split)

section \<open>The error names the direction\<close>

text \<open>\<open>exact x\<close> is what a checked operation with exact result \<open>x\<close> should return.\<close>

definition exact :: "int \<Rightarrow> i128 res" where
  "exact x = (if x > I128_MAX then Err Overflow else if x < I128_MIN then Err Underflow else Ok x)"

lemma exact_iff: "in_i128 x \<Longrightarrow> exact x = Ok x"
  by (simp add: exact_def in_i128_def)

text \<open>Safe addition and subtraction of two i128 values return the exact mathematical
  result when it fits, and otherwise an error that names the side on which it left the range.\<close>

theorem safe_add_sub_exact:
  assumes "in_i128 a" and "in_i128 b"
  shows "safe_add a b = exact (a + b) \<and> safe_sub a b = exact (a - b)"
  using assms I128_MAX_pos
  by (auto simp: safe_add_def safe_sub_def exact_def checked_defs checked_i128_def i128_range)

theorem safe_add_sub_exact_witness:
  "safe_add I128_MAX 1 = exact (I128_MAX + 1) \<and> safe_sub I128_MAX 1 = exact (I128_MAX - 1)"
  by (rule safe_add_sub_exact) (simp_all add: int_defs)

lemma product_out_of_range:
  assumes "\<not> in_i128 (a * b)"
  shows "(a * b > I128_MAX) = ((a > 0 \<and> b > 0) \<or> (a < 0 \<and> b < 0))"
proof -
  have "a * b \<noteq> 0" using assms I128_MAX_pos by (auto simp: i128_range)
  then have "(0 < a * b) = ((a > 0 \<and> b > 0) \<or> (a < 0 \<and> b < 0))"
    by (auto simp: zero_less_mult_iff)
  moreover have "(a * b > I128_MAX) = (0 < a * b)"
    using assms I128_MAX_pos by (auto simp: i128_range)
  ultimately show ?thesis by simp
qed

lemma safe_mul_exact: "safe_mul a b = exact (a * b)"
proof (cases "in_i128 (a * b)")
  case True
  then show ?thesis by (simp add: exact_iff safe_mul_Ok)
next
  case False
  then have "checked_mul a b = None" by (simp add: checked_defs checked_i128_def)
  with product_out_of_range [OF False] False show ?thesis
    by (auto simp: safe_mul_def exact_def in_i128_def)
qed

lemma safe_pow_exact: "safe_pow a n = exact (a ^ n)"
proof (cases "in_i128 (a ^ n)")
  case True
  then show ?thesis by (simp add: exact_iff safe_pow_Ok)
next
  case False
  then have none: "checked_pow a n = None" by (simp add: checked_defs checked_i128_def)
  have sign: "0 \<le> a ^ n \<longleftrightarrow> a > 0 \<or> n mod 2 = 0"
  proof (cases "a = 0")
    case True
    then have "in_i128 (a ^ n)" by (cases n) (simp_all add: int_defs)
    with False show ?thesis by simp
  next
    case ne: False
    then show ?thesis by (auto simp: zero_le_power_eq even_iff_mod_2_eq_zero)
  qed
  have "(a ^ n > I128_MAX) = (0 \<le> a ^ n)" and "(a ^ n < I128_MIN) = (\<not> 0 \<le> a ^ n)"
    using False I128_MAX_pos by (auto simp: i128_range)
  with none sign show ?thesis by (auto simp: safe_pow_def exact_def)
qed

lemma safe_div_exact:
  assumes "in_i128 a" and "in_i128 b" and "b \<noteq> 0"
  shows "safe_div a b = exact (a sdiv b)"
proof -
  have "\<bar>a\<bar> div \<bar>b\<bar> \<le> \<bar>a\<bar> div 1"
    using assms(3) by (intro zdiv_mono2) auto
  moreover have "0 \<le> \<bar>a\<bar> div \<bar>b\<bar>"
    using assms(3) by (simp add: pos_imp_zdiv_nonneg_iff)
  moreover have "\<bar>a sdiv b\<bar> \<le> \<bar>\<bar>a\<bar> div \<bar>b\<bar>\<bar>"
    by (simp add: signed_divide_int_def abs_mult abs_sgn_eq)
  ultimately have "\<bar>a sdiv b\<bar> \<le> \<bar>a\<bar>"
    by simp
  then have low: "a sdiv b \<ge> I128_MIN" and high: "a sdiv b \<le> I128_MAX + 1"
    using assms by (auto simp: i128_range)
  show ?thesis
    using low high assms(3)
    by (auto simp: safe_div_def exact_def checked_defs checked_i128_def in_i128_def)
qed

section \<open>Balances\<close>

text \<open>The balance operations never produce a negative balance: a debit succeeds exactly when
  the amount is between zero and the balance, and crediting the same amount back returns the
  original balance.\<close>

theorem safe_sub_balance_roundtrip:
  assumes "in_i128 b" and "0 \<le> b" and "in_i128 a"
  shows "safe_sub_balance b a = (if 0 \<le> a \<and> a \<le> b then Ok (b - a) else Err Underflow)
     \<and> (0 \<le> a \<and> a \<le> b \<longrightarrow> bind_res (safe_sub_balance b a) (\<lambda>r. safe_add_balance r a) = Ok b)"
proof -
  have debit: "safe_sub_balance b a = (if 0 \<le> a \<and> a \<le> b then Ok (b - a) else Err Underflow)"
    using assms I128_MAX_pos
    by (auto simp: safe_sub_balance_def validate_non_negative_def safe_sub_def checked_defs
        checked_i128_def i128_range)
  moreover have "safe_add_balance (b - a) a = Ok b" if "0 \<le> a"
    using that assms(1) by (simp add: safe_add_balance_Ok)
  ultimately show ?thesis by auto
qed

theorem safe_sub_balance_roundtrip_witness:
  "safe_sub_balance 1000 500 = Ok 500 \<and> safe_sub_balance 1000 1500 = Err Underflow
   \<and> bind_res (safe_sub_balance 1000 500) (\<lambda>r. safe_add_balance r 500) = Ok (1000 :: int)"
  using safe_sub_balance_roundtrip [of 1000 500] safe_sub_balance_roundtrip [of 1000 1500]
  by (simp add: in_i128_def I128_MIN_def I128_MAX_def safe_add_balance_Ok)

end
