(* ===== verification/State_Machine.thy ===== *)
theory State_Machine
  imports Vault_Types
begin

text \<open>
  \<open>state_machine.rs\<close>: the transition table of subscription statuses, as the code checks it and as
  it lists it. The abstract view is the reflexive transitive closure \<open>status_path\<close> of the allowed
  transitions, which is what several steps of the contract can do to one subscription.
\<close>

definition validate_status_transition :: "subscription_status \<Rightarrow> subscription_status \<Rightarrow> unit res" where
  "validate_status_transition from to =
    (if from = to then Ok () else
     let valid = (case from of
         Active \<Rightarrow> to \<in> {Paused, Cancelled, InsufficientBalance, GracePeriod, Expired}
       | Paused \<Rightarrow> to \<in> {Active, Cancelled, Expired}
       | Cancelled \<Rightarrow> to \<in> {Archived}
       | InsufficientBalance \<Rightarrow> to \<in> {Active, Cancelled, Expired}
       | GracePeriod \<Rightarrow> to \<in> {Active, Cancelled, InsufficientBalance, Expired}
       | Expired \<Rightarrow> to \<in> {Archived}
       | Archived \<Rightarrow> False)
     in if valid then Ok () else Err InvalidStatusTransition)"

fun get_allowed_transitions :: "subscription_status \<Rightarrow> subscription_status list" where
  "get_allowed_transitions Active = [Paused, Cancelled, InsufficientBalance, GracePeriod, Expired]"
| "get_allowed_transitions Paused = [Active, Cancelled, Expired]"
| "get_allowed_transitions Cancelled = [Archived]"
| "get_allowed_transitions InsufficientBalance = [Active, Cancelled, Expired]"
| "get_allowed_transitions GracePeriod = [Active, Cancelled, InsufficientBalance, Expired]"
| "get_allowed_transitions Expired = [Archived]"
| "get_allowed_transitions Archived = []"

definition can_transition :: "subscription_status \<Rightarrow> subscription_status \<Rightarrow> bool" where
  "can_transition from to = is_ok (validate_status_transition from to)"

lemma validate_Ok [ok_iff]: "validate_status_transition a b = Ok u \<longleftrightarrow> can_transition a b"
  by (simp add: can_transition_def is_ok_iff)

lemma validate_cases:
  "validate_status_transition a b = (if can_transition a b then Ok () else Err InvalidStatusTransition)"
  by (auto simp: can_transition_def validate_status_transition_def Let_def)

lemma validate_not_Trap [simp]: "validate_status_transition a b \<noteq> Trap"
  by (simp add: validate_cases)

lemma can_transition_refl [simp]: "can_transition a a"
  by (simp add: can_transition_def validate_status_transition_def)

text \<open>The two encodings of the transition table agree: a transition validates exactly when
  the target is the current status or is listed among its allowed transitions, and otherwise the
  error is InvalidStatusTransition.\<close>

theorem validate_agrees_with_table:
  "validate_status_transition a b =
     (if b = a \<or> b \<in> set (get_allowed_transitions a) then Ok () else Err InvalidStatusTransition)"
  by (cases a; cases b) (simp_all add: validate_status_transition_def)

lemma can_transition_table:
  "can_transition a b \<longleftrightarrow> b = a \<or> b \<in> set (get_allowed_transitions a)"
  by (cases a; cases b) (simp_all add: can_transition_def validate_status_transition_def)

lemma can_transition_targets [simp]:
  "can_transition a Archived \<longleftrightarrow> a \<in> {Cancelled, Expired, Archived}"
  "can_transition a Cancelled \<longleftrightarrow> a \<in> {Active, Paused, Cancelled, InsufficientBalance, GracePeriod}"
  "can_transition a Expired \<longleftrightarrow> a \<in> {Active, Paused, InsufficientBalance, GracePeriod, Expired}"
  "can_transition a Active \<longleftrightarrow> a \<in> {Active, Paused, InsufficientBalance, GracePeriod}"
  "can_transition a Paused \<longleftrightarrow> a \<in> {Active, Paused}"
  "can_transition a GracePeriod \<longleftrightarrow> a \<in> {Active, GracePeriod}"
  "can_transition a InsufficientBalance \<longleftrightarrow> a \<in> {Active, GracePeriod, InsufficientBalance}"
  by (cases a; simp add: can_transition_table)+

section \<open>Paths\<close>

definition status_path :: "subscription_status \<Rightarrow> subscription_status \<Rightarrow> bool" where
  "status_path = can_transition\<^sup>*\<^sup>*"

lemma status_path_refl [simp, intro]: "status_path a a"
  by (simp add: status_path_def)

lemma status_path_step: "can_transition a b \<Longrightarrow> status_path a b"
  by (simp add: status_path_def r_into_rtranclp)

lemma status_path_trans [trans]: "status_path a b \<Longrightarrow> status_path b c \<Longrightarrow> status_path a c"
  by (simp add: status_path_def rtranclp_trans)

text \<open>\<open>live\<close> statuses can still become any other status; the rest are on the way out.\<close>

definition live :: "subscription_status \<Rightarrow> bool" where
  "live a \<longleftrightarrow> a \<in> {Active, Paused, InsufficientBalance, GracePeriod}"

lemma status_path_out:
  assumes "status_path a b"
  shows "live a \<or> b = a \<or> b = Archived"
  using assms unfolding status_path_def
proof (induction rule: rtranclp_induct)
  case base
  then show ?case by simp
next
  case (step b c)
  then show ?case by (cases b) (auto simp: can_transition_table live_def)
qed

lemma live_reaches:
  assumes "live a"
  shows "status_path a b"
proof -
  have "can_transition a Active" using assms by (auto simp: live_def)
  moreover have "status_path Active b"
  proof (cases "b = Archived")
    case True
    have "status_path Active Cancelled" and "status_path Cancelled Archived"
      by (simp_all add: status_path_step)
    with True show ?thesis by (blast intro: status_path_trans)
  next
    case False
    then have "can_transition Active b" by (cases b) simp_all
    then show ?thesis by (rule status_path_step)
  qed
  ultimately show ?thesis by (blast intro: status_path_trans status_path_step)
qed

lemma out_reaches_Archived: "\<not> live a \<Longrightarrow> status_path a Archived"
  by (cases a) (auto simp: live_def intro: status_path_step)

lemma Archived_reachable [simp]: "status_path a Archived"
  using live_reaches out_reaches_Archived by blast

text \<open>What a subscription's status can become over any number of allowed transitions: a live
  one (active, paused, underfunded, in grace) can become anything, a cancelled or expired one only
  archived, and an archived one nothing else. No path leads back from cancellation.\<close>

theorem status_path_iff:
  "status_path a b \<longleftrightarrow> live a \<or> b = a \<or> b = Archived"
  using status_path_out live_reaches out_reaches_Archived by blast

end
