(* ===== verification/Vault_State.thy ===== *)
theory Vault_State
  imports Vault_Types
begin

text \<open>
  The storage of the contract and the host around it. Every field of the stores below is one
  family of storage keys (a variant of \<open>DataKey\<close> in \<open>types.rs\<close>, or a bare symbol, tuple or
  number used as a key); an absent entry is \<open>None\<close>. Keys of different shape are different
  entries for the host, so each shape has its own field, also where the code mixes shapes up:
  \<open>u32_key\<close>, \<open>plan_symbol_key\<close> and \<open>token_symbol_key\<close> are such fields.
\<close>

section \<open>Stores\<close>

record admin_store =
  token_key :: "address option"
  admin_key :: "address option"
  min_topup_key :: "i128 option"
  schema_version_key :: "u32 option"
  emergency_stop_key :: "bool option"
  grace_period_key :: "u64 option"
  fee_bps_key :: "u32 option"
  treasury_key :: "address option"
  accepted_tokens_key :: "address list option"
  token_decimals_key :: "address \<rightharpoonup> u32"
  oracle_key :: "oracle_config option"
  recovery_key :: "string \<rightharpoonup> bool"
  admin_nonce_key :: "(address \<times> u32) \<rightharpoonup> u64"

record merchant_store =
  merchant_paused_key :: "address \<rightharpoonup> bool"
  merchant_config_key :: "address \<rightharpoonup> merchant_config"
  merchant_earnings_key :: "(address \<times> address) \<rightharpoonup> token_earnings"
  merchant_tokens_key :: "address \<rightharpoonup> address list"
  merchant_balance_key :: "(address \<times> address) \<rightharpoonup> i128"

record sub_store =
  next_id_key :: "u32 option"
  sub_key :: "u32 \<rightharpoonup> subscription"
  merchant_subs_key :: "address \<rightharpoonup> u32 list"
  token_subs_key :: "address \<rightharpoonup> u32 list"
  charged_period_key :: "u32 \<rightharpoonup> u64"
  idem_key :: "u32 \<rightharpoonup> bytes32"
  usage_limits_key :: "u32 \<rightharpoonup> usage_limits"
  usage_state_key :: "u32 \<rightharpoonup> usage_state"
  usage_ref_key :: "(u32 \<times> string) \<rightharpoonup> bool"
  credit_limit_key :: "(address \<times> address) \<rightharpoonup> i128"
  cap_default_key :: "i128 option"
  merch_cap_key :: "address \<rightharpoonup> i128"
  u32_key :: "u32 \<rightharpoonup> subscription"
  persistent_sub_key :: "u32 \<rightharpoonup> subscription"

record plan_store =
  next_plan_id_key :: "u32 option"
  plan_key :: "u32 \<rightharpoonup> plan_template"
  sub_plan_key :: "u32 \<rightharpoonup> u32"
  plan_max_active_key :: "u32 \<rightharpoonup> u32"
  plan_symbol_key :: "u32 \<rightharpoonup> plan_template"

record statement_store =
  snext_key :: "u32 \<rightharpoonup> u32"
  slive_key :: "u32 \<rightharpoonup> u32"
  srow_key :: "(u32 \<times> u32) \<rightharpoonup> billing_statement"
  srtn_key :: "u32 option"
  sagg_key :: "u32 \<rightharpoonup> billing_statement_aggregate"

record snapshot_store =
  period_snapshot_key :: "(u32 \<times> u64) \<rightharpoonup> billing_period_snapshot"
  period_snapshot_index_key :: "u32 \<rightharpoonup> u64 list"

record metadata_store =
  mk_key :: "u32 \<rightharpoonup> string list"
  mv_key :: "(u32 \<times> string) \<rightharpoonup> string"

record billing_store =
  billing_statement_key :: "(u32 \<times> u32) \<rightharpoonup> period_billing_statement"
  statements_by_subscription_key :: "u32 \<rightharpoonup> billing_statement_ref list"
  statements_by_merchant_key :: "address \<rightharpoonup> billing_statement_ref list"
  token_symbol_key :: "address option"

text \<open>
  The whole state of an invocation: the stores, the total per token that \<open>accounting.rs\<close> keeps,
  the blocklist, the reentrancy locks, the published events, and the balances of the token
  contracts (token, then holder), which belong to other contracts.
\<close>

type_synonym ledger = "address \<Rightarrow> address \<Rightarrow> int"

record vault =
  adm :: admin_store
  mer :: merchant_store
  sbs :: sub_store
  pln :: plan_store
  stm :: statement_store
  snp :: snapshot_store
  met :: metadata_store
  bil :: billing_store
  total_accounted_key :: "address \<rightharpoonup> i128"
  blocklist_key :: "address \<rightharpoonup> blocklist_entry"
  lock_key :: "string \<rightharpoonup> bool"
  evlog :: "(string \<times> event) list"
  tokens :: ledger

abbreviation subs :: "vault \<Rightarrow> u32 \<rightharpoonup> subscription" where
  "subs s \<equiv> sub_key (sbs s)"

abbreviation merchant_balances :: "vault \<Rightarrow> (address \<times> address) \<rightharpoonup> i128" where
  "merchant_balances s \<equiv> merchant_balance_key (mer s)"

section \<open>The host\<close>

text \<open>
  What an invocation reads from its surroundings: the ledger time, the contract's own address,
  which addresses signed the call, the price an oracle contract answers with (\<open>None\<close> when the
  call fails), and how a token contract moves balances (\<open>None\<close> when it refuses). The last two are
  other contracts, so they are parameters.
\<close>

record env =
  ledger_timestamp :: u64
  current_contract_address :: address
  authorized :: "address \<Rightarrow> bool"
  latest_price :: "address \<Rightarrow> oracle_price option"
  token_transfer :: "address \<Rightarrow> address \<Rightarrow> address \<Rightarrow> i128 \<Rightarrow> ledger \<Rightarrow> ledger option"

definition require_auth :: "env \<Rightarrow> address \<Rightarrow> unit res" where
  "require_auth env a = (if authorized env a then Ok () else Trap)"

lemma require_auth_Ok [ok_iff]: "require_auth env a = Ok u \<longleftrightarrow> authorized env a"
  by (simp add: require_auth_def)

definition publish :: "string \<Rightarrow> event \<Rightarrow> vault \<Rightarrow> vault" where
  "publish topic ev s = s\<lparr>evlog := evlog s @ [(topic, ev)]\<rparr>"

definition transfer :: "env \<Rightarrow> address \<Rightarrow> address \<Rightarrow> address \<Rightarrow> i128 \<Rightarrow> vault \<Rightarrow> unit res \<times> vault" where
  "transfer env tok src dst amt s =
    (case token_transfer env tok src dst amt (tokens s) of
       Some l \<Rightarrow> (Ok (), s\<lparr>tokens := l\<rparr>)
     | None \<Rightarrow> (Trap, s))"

lemma transfer_Ok [ok_iff]:
  "transfer env tok src dst amt s = (Ok u, t) \<longleftrightarrow>
     (\<exists>l. token_transfer env tok src dst amt (tokens s) = Some l \<and> t = s\<lparr>tokens := l\<rparr>)"
  by (auto simp: transfer_def split: option.splits)

definition put_sub :: "u32 \<Rightarrow> subscription \<Rightarrow> vault \<Rightarrow> vault" where
  "put_sub i x s = s\<lparr>sbs := (sbs s)\<lparr>sub_key := (sub_key (sbs s))(i \<mapsto> x)\<rparr>\<rparr>"

lemma publish_frame [simp]:
  "adm (publish t e s) = adm s" "mer (publish t e s) = mer s" "sbs (publish t e s) = sbs s"
  "pln (publish t e s) = pln s" "stm (publish t e s) = stm s" "snp (publish t e s) = snp s"
  "met (publish t e s) = met s" "bil (publish t e s) = bil s"
  "total_accounted_key (publish t e s) = total_accounted_key s"
  "blocklist_key (publish t e s) = blocklist_key s" "lock_key (publish t e s) = lock_key s"
  "tokens (publish t e s) = tokens s"
  "evlog (publish t e s) = evlog s @ [(t, e)]"
  by (simp_all add: publish_def)

lemma put_sub_frame [simp]:
  "adm (put_sub i x s) = adm s" "mer (put_sub i x s) = mer s"
  "sbs (put_sub i x s) = (sbs s)\<lparr>sub_key := (sub_key (sbs s))(i \<mapsto> x)\<rparr>"
  "pln (put_sub i x s) = pln s" "stm (put_sub i x s) = stm s" "snp (put_sub i x s) = snp s"
  "met (put_sub i x s) = met s" "bil (put_sub i x s) = bil s"
  "total_accounted_key (put_sub i x s) = total_accounted_key s"
  "blocklist_key (put_sub i x s) = blocklist_key s" "lock_key (put_sub i x s) = lock_key s"
  "tokens (put_sub i x s) = tokens s" "evlog (put_sub i x s) = evlog s"
  by (simp_all add: put_sub_def)

text \<open>
  The host keeps the writes of an invocation only when the entry point returns a value; a
  returned error or a trap leaves the ledger as it was.
\<close>

definition invoke :: "'a res \<times> vault \<Rightarrow> vault \<Rightarrow> 'a res \<times> vault" where
  "invoke m s = (case m of (Ok a, t) \<Rightarrow> (Ok a, t) | (r, t) \<Rightarrow> (r, s))"

lemma invoke_Ok [ok_iff]: "invoke m s = (Ok a, t) \<longleftrightarrow> m = (Ok a, t)"
  by (cases m; cases "fst m") (auto simp: invoke_def)

lemma invoke_not_ok: "\<not> is_ok (fst (invoke m s)) \<Longrightarrow> snd (invoke m s) = s"
  by (cases m; cases "fst m") (auto simp: invoke_def)

lemma fst_invoke [simp]: "fst (invoke m s) = fst m"
  by (cases m; cases "fst m") (auto simp: invoke_def)

section \<open>What token contracts promise\<close>

text \<open>
  \<open>moved tok src dst amt l\<close> is the ledger after \<open>amt\<close> units of \<open>tok\<close> went from \<open>src\<close> to \<open>dst\<close>, and
  \<open>sep41 tr\<close> the documented behaviour of the token interface of Stellar (SEP-41): a transfer
  that succeeds has a non-negative amount covered by the sender, and moves exactly that.
\<close>

definition moved :: "address \<Rightarrow> address \<Rightarrow> address \<Rightarrow> i128 \<Rightarrow> ledger \<Rightarrow> ledger" where
  "moved tok src dst amt l =
    (let l1 = l(tok := (l tok)(src := l tok src - amt))
     in l1(tok := (l1 tok)(dst := l1 tok dst + amt)))"

definition sep41 :: "(address \<Rightarrow> address \<Rightarrow> address \<Rightarrow> i128 \<Rightarrow> ledger \<Rightarrow> ledger option) \<Rightarrow> bool" where
  "sep41 tr \<longleftrightarrow> (\<forall>tok src dst amt l l'. tr tok src dst amt l = Some l' \<longrightarrow>
     0 \<le> amt \<and> amt \<le> l tok src \<and> l' = moved tok src dst amt l)"

text \<open>A token contract with this behaviour, for concrete runs.\<close>

definition standard_transfer :: "address \<Rightarrow> address \<Rightarrow> address \<Rightarrow> i128 \<Rightarrow> ledger \<Rightarrow> ledger option" where
  "standard_transfer tok src dst amt l =
    (if 0 \<le> amt \<and> amt \<le> l tok src then Some (moved tok src dst amt l) else None)"

lemma standard_transfer_sep41: "sep41 standard_transfer"
  by (simp add: sep41_def standard_transfer_def)

lemma moved_simps:
  "tok' \<noteq> tok \<Longrightarrow> moved tok src dst amt l tok' h = l tok' h"
  "h \<noteq> src \<Longrightarrow> h \<noteq> dst \<Longrightarrow> moved tok src dst amt l tok h = l tok h"
  "src \<noteq> dst \<Longrightarrow> moved tok src dst amt l tok src = l tok src - amt"
  "src \<noteq> dst \<Longrightarrow> moved tok src dst amt l tok dst = l tok dst + amt"
  "moved tok src src amt l tok src = l tok src"
  by (simp_all add: moved_def Let_def)

lemma sep41D:
  assumes "sep41 tr" and "tr tok src dst amt l = Some l'"
  shows "0 \<le> amt" and "amt \<le> l tok src" and "l' = moved tok src dst amt l"
  using assms by (auto simp: sep41_def)

section \<open>An empty ledger entry\<close>

definition vault_init :: vault where
  "vault_init = \<lparr>
     adm = \<lparr>token_key = None, admin_key = None, min_topup_key = None, schema_version_key = None,
       emergency_stop_key = None, grace_period_key = None, fee_bps_key = None, treasury_key = None,
       accepted_tokens_key = None, token_decimals_key = Map.empty, oracle_key = None,
       recovery_key = Map.empty, admin_nonce_key = Map.empty\<rparr>,
     mer = \<lparr>merchant_paused_key = Map.empty, merchant_config_key = Map.empty,
       merchant_earnings_key = Map.empty, merchant_tokens_key = Map.empty,
       merchant_balance_key = Map.empty\<rparr>,
     sbs = \<lparr>next_id_key = None, sub_key = Map.empty, merchant_subs_key = Map.empty,
       token_subs_key = Map.empty, charged_period_key = Map.empty, idem_key = Map.empty,
       usage_limits_key = Map.empty, usage_state_key = Map.empty, usage_ref_key = Map.empty,
       credit_limit_key = Map.empty, cap_default_key = None, merch_cap_key = Map.empty,
       u32_key = Map.empty, persistent_sub_key = Map.empty\<rparr>,
     pln = \<lparr>next_plan_id_key = None, plan_key = Map.empty, sub_plan_key = Map.empty,
       plan_max_active_key = Map.empty, plan_symbol_key = Map.empty\<rparr>,
     stm = \<lparr>snext_key = Map.empty, slive_key = Map.empty, srow_key = Map.empty, srtn_key = None,
       sagg_key = Map.empty\<rparr>,
     snp = \<lparr>period_snapshot_key = Map.empty, period_snapshot_index_key = Map.empty\<rparr>,
     met = \<lparr>mk_key = Map.empty, mv_key = Map.empty\<rparr>,
     bil = \<lparr>billing_statement_key = Map.empty, statements_by_subscription_key = Map.empty,
       statements_by_merchant_key = Map.empty, token_symbol_key = None\<rparr>,
     total_accounted_key = Map.empty, blocklist_key = Map.empty, lock_key = Map.empty,
     evlog = [], tokens = (\<lambda>_ _. 0)\<rparr>"

end
