(* ===== verification/Accounting.thy ===== *)
theory Accounting
  imports Vault_State
begin

text \<open>
  \<open>accounting.rs\<close>: the running total per token that the vault believes it owes, which bounds what
  the admin may recover as stranded. Both updates ignore amounts that are not positive.
\<close>

definition get_total_accounted :: "vault \<Rightarrow> address \<Rightarrow> i128" where
  "get_total_accounted s tok = unwrap_or (total_accounted_key s tok) 0"

definition add_total_accounted :: "address \<Rightarrow> i128 \<Rightarrow> vault \<Rightarrow> unit res \<times> vault" where
  "add_total_accounted tok amt s =
    (if amt \<le> 0 then (Ok (), s)
     else let current = get_total_accounted s tok
          in try_res (ok_or (checked_add current amt) Overflow) s (\<lambda>new_total.
             (Ok (), s\<lparr>total_accounted_key := (total_accounted_key s)(tok \<mapsto> new_total)\<rparr>)))"

definition sub_total_accounted :: "address \<Rightarrow> i128 \<Rightarrow> vault \<Rightarrow> unit res \<times> vault" where
  "sub_total_accounted tok amt s =
    (if amt \<le> 0 then (Ok (), s)
     else let current = get_total_accounted s tok
          in try_res (ok_or (checked_sub current amt) Underflow) s (\<lambda>new_total.
             (Ok (), s\<lparr>total_accounted_key := (total_accounted_key s)(tok \<mapsto> new_total)\<rparr>)))"

section \<open>A ledger of totals\<close>

text \<open>
  What the money flows rely on: an interface with a reading, an increase and a decrease. Its
  clients only need to know how a successful update moves the reading of each key.
\<close>

locale totals_ledger =
  fixes reading :: "'s \<Rightarrow> 'k \<Rightarrow> int"
    and increase :: "'k \<Rightarrow> int \<Rightarrow> 's \<Rightarrow> (error, unit) result \<times> 's"
    and decrease :: "'k \<Rightarrow> int \<Rightarrow> 's \<Rightarrow> (error, unit) result \<times> 's"
  assumes increase_reading:
      "increase k a s = (Ok u, t) \<Longrightarrow> reading t k' = reading s k' + (if k' = k then max a 0 else 0)"
    and decrease_reading:
      "decrease k a s = (Ok u, t) \<Longrightarrow> reading t k' = reading s k' - (if k' = k then max a 0 else 0)"
begin

lemma other_key:
  "increase k a s = (Ok u, t) \<Longrightarrow> k' \<noteq> k \<Longrightarrow> reading t k' = reading s k'"
  "decrease k a s = (Ok u, t) \<Longrightarrow> k' \<noteq> k \<Longrightarrow> reading t k' = reading s k'"
  by (simp_all add: increase_reading decrease_reading)

lemma increase_decrease:
  assumes "increase k a s = (Ok u, t)" and "decrease k a t = (Ok v, w)"
  shows "reading w k' = reading s k'"
  using increase_reading [OF assms(1), of k'] decrease_reading [OF assms(2), of k'] by auto

lemma increase_mono: "increase k a s = (Ok u, t) \<Longrightarrow> reading s k' \<le> reading t k'"
  using increase_reading by fastforce

end

lemma add_total_accounted_Ok:
  "add_total_accounted tok amt s = (Ok u, t) \<longleftrightarrow>
     (if amt \<le> 0 then t = s else in_i128 (get_total_accounted s tok + amt) \<and>
       t = s\<lparr>total_accounted_key := (total_accounted_key s)(tok \<mapsto> get_total_accounted s tok + amt)\<rparr>)"
  by (auto simp: add_total_accounted_def Let_def ok_iff)

lemma sub_total_accounted_Ok:
  "sub_total_accounted tok amt s = (Ok u, t) \<longleftrightarrow>
     (if amt \<le> 0 then t = s else in_i128 (get_total_accounted s tok - amt) \<and>
       t = s\<lparr>total_accounted_key := (total_accounted_key s)(tok \<mapsto> get_total_accounted s tok - amt)\<rparr>)"
  by (auto simp: sub_total_accounted_def Let_def ok_iff)

interpretation accounted: totals_ledger get_total_accounted add_total_accounted sub_total_accounted
proof
  fix tok amt s u t and k :: address
  show "add_total_accounted tok amt s = (Ok u, t) \<Longrightarrow>
      get_total_accounted t k = get_total_accounted s k + (if k = tok then max amt 0 else 0)"
    by (auto simp: add_total_accounted_Ok get_total_accounted_def split: if_splits)
  show "sub_total_accounted tok amt s = (Ok u, t) \<Longrightarrow>
      get_total_accounted t k = get_total_accounted s k - (if k = tok then max amt 0 else 0)"
    by (auto simp: sub_total_accounted_Ok get_total_accounted_def split: if_splits)
qed

text \<open>Nothing but the total is written.\<close>

lemma add_total_accounted_frame:
  "add_total_accounted tok amt s = (Ok u, t) \<Longrightarrow>
     t = s\<lparr>total_accounted_key := total_accounted_key t\<rparr>"
  by (auto simp: add_total_accounted_Ok split: if_splits)

lemma sub_total_accounted_frame:
  "sub_total_accounted tok amt s = (Ok u, t) \<Longrightarrow>
     t = s\<lparr>total_accounted_key := total_accounted_key t\<rparr>"
  by (auto simp: sub_total_accounted_Ok split: if_splits)

end
