(* ===== verification/Nonce.thy ===== *)
theory Nonce
  imports Vault_State
begin

text \<open>
  \<open>nonce.rs\<close>: replay protection for privileged calls. Every pair of a signer and a domain has its
  own counter, and a call must present exactly the stored value, which then moves on by one.
\<close>

definition DOMAIN_BATCH_CHARGE :: u32 where "DOMAIN_BATCH_CHARGE = 0"
definition DOMAIN_ADMIN_ROTATION :: u32 where "DOMAIN_ADMIN_ROTATION = 1"

definition domain_label :: "u32 \<Rightarrow> string" where
  "domain_label domain =
    (if domain = DOMAIN_BATCH_CHARGE then ''batch''
     else if domain = DOMAIN_ADMIN_ROTATION then ''adm_rot'' else ''unknown'')"

definition get_nonce :: "vault \<Rightarrow> address \<Rightarrow> u32 \<Rightarrow> u64" where
  "get_nonce s signer domain = unwrap_or (admin_nonce_key (adm s) (signer, domain)) 0"

text \<open>The overflow of the counter is an \<open>expect\<close> in the code, so a trap here.\<close>

definition check_and_advance :: "env \<Rightarrow> address \<Rightarrow> u32 \<Rightarrow> u64 \<Rightarrow> vault \<Rightarrow> unit res \<times> vault" where
  "check_and_advance env signer domain provided_nonce s =
    (let stored = get_nonce s signer domain
     in if provided_nonce \<noteq> stored then (Err NonceAlreadyUsed, s)
        else case checked_add_u64 stored 1 of
          None \<Rightarrow> (Trap, s)
        | Some next \<Rightarrow>
            (Ok (), publish (''nonce_consumed/'' @ domain_label domain)
               (NonceEv (NonceConsumedEvent signer domain provided_nonce (ledger_timestamp env)))
               (s\<lparr>adm := (adm s)\<lparr>admin_nonce_key :=
                   (admin_nonce_key (adm s))((signer, domain) \<mapsto> next)\<rparr>\<rparr>)))"

section \<open>Counters that accept every value once\<close>

text \<open>
  The contract of a nonce store with any operations between two uses: consuming a value needs the
  current one and moves it on, and no other step moves a counter back.
\<close>

locale nonce_store =
  fixes nonce_of :: "'s \<Rightarrow> 'k \<Rightarrow> nat"
    and consume :: "'k \<Rightarrow> nat \<Rightarrow> 's \<Rightarrow> (error, unit) result \<times> 's"
  assumes consume_current: "consume k n s = (Ok u, t) \<Longrightarrow> n = nonce_of s k"
    and consume_moves: "consume k n s = (Ok u, t) \<Longrightarrow> nonce_of t k' = (if k' = k then Suc n else nonce_of s k')"
begin

fun consume_all :: "('k \<times> nat) list \<Rightarrow> 's \<Rightarrow> (error, unit) result \<times> 's" where
  "consume_all [] s = (Ok (), s)"
| "consume_all ((k, n) # ks) s = try_op (consume k n s) (\<lambda>_. consume_all ks)"

lemma consume_all_mono: "consume_all ks s = (Ok u, t) \<Longrightarrow> nonce_of s k \<le> nonce_of t k"
proof (induction ks arbitrary: s)
  case Nil
  then show ?case by simp
next
  case (Cons p ks)
  obtain k' n where p: "p = (k', n)" by (cases p)
  with Cons.prems obtain v w where c: "consume k' n s = (Ok v, w)" and rest: "consume_all ks w = (Ok u, t)"
    by (auto simp: ok_iff)
  have "nonce_of s k \<le> nonce_of w k"
    using consume_current [OF c] consume_moves [OF c, of k] by auto
  with Cons.IH [OF rest] show ?case by simp
qed

lemma consume_all_fresh:
  "consume_all ks s = (Ok u, t) \<Longrightarrow> (k, n) \<in> set ks \<Longrightarrow> nonce_of s k \<le> n \<and> n < nonce_of t k"
proof (induction ks arbitrary: s)
  case Nil
  then show ?case by simp
next
  case (Cons p ks)
  obtain k' n' where p: "p = (k', n')" by (cases p)
  with Cons.prems obtain v w where c: "consume k' n' s = (Ok v, w)" and rest: "consume_all ks w = (Ok u, t)"
    by (auto simp: ok_iff)
  note cur = consume_current [OF c] and moves = consume_moves [OF c, of k]
  show ?case
  proof (cases "(k, n) = p")
    case True
    with cur moves consume_all_mono [OF rest, of k] p show ?thesis by simp
  next
    case False
    with Cons.prems(2) have "(k, n) \<in> set ks" by auto
    from Cons.IH [OF rest this] cur moves show ?thesis by (auto split: if_splits)
  qed
qed

lemma consume_all_distinct: "consume_all ks s = (Ok u, t) \<Longrightarrow> distinct ks"
proof (induction ks arbitrary: s)
  case Nil
  then show ?case by simp
next
  case (Cons p ks)
  obtain k n where p: "p = (k, n)" by (cases p)
  with Cons.prems obtain v w where c: "consume k n s = (Ok v, w)" and rest: "consume_all ks w = (Ok u, t)"
    by (auto simp: ok_iff)
  have "(k, n) \<notin> set ks"
    using consume_all_fresh [OF rest, of k n] consume_moves [OF c, of k] by auto
  with Cons.IH [OF rest] p show ?case by simp
qed

end

lemma check_and_advance_Ok:
  "check_and_advance env signer domain n s = (Ok u, t) \<longleftrightarrow>
     n = get_nonce s signer domain \<and> n + 1 \<le> U64_MAX \<and>
     t = publish (''nonce_consumed/'' @ domain_label domain)
           (NonceEv (NonceConsumedEvent signer domain n (ledger_timestamp env)))
           (s\<lparr>adm := (adm s)\<lparr>admin_nonce_key := (admin_nonce_key (adm s))((signer, domain) \<mapsto> n + 1)\<rparr>\<rparr>)"
  by (auto simp: check_and_advance_def Let_def checked_add_u64_def)

interpretation admin_nonce: nonce_store
  "\<lambda>s (signer, domain). get_nonce s signer domain"
  "\<lambda>(signer, domain). check_and_advance env signer domain" for env
  by unfold_locales (auto simp: check_and_advance_Ok get_nonce_def split: prod.splits)

fun check_and_advance_all :: "env \<Rightarrow> ((address \<times> u32) \<times> u64) list \<Rightarrow> vault \<Rightarrow> unit res \<times> vault" where
  "check_and_advance_all env [] s = (Ok (), s)"
| "check_and_advance_all env (((signer, domain), n) # ks) s =
     try_op (check_and_advance env signer domain n s) (\<lambda>_. check_and_advance_all env ks)"

lemma check_and_advance_all_eq:
  "check_and_advance_all env ks s = admin_nonce.consume_all env ks s"
proof (induction ks arbitrary: s)
  case Nil
  then show ?case by simp
next
  case (Cons p ks)
  then have "check_and_advance_all env ks = admin_nonce.consume_all env ks" by (intro ext)
  then show ?case by (cases p; cases "fst p") simp
qed

text \<open>C29. Replay protection of privileged calls: in any sequence of accepted nonces no value is
  accepted twice for the same signer and domain, every accepted value was at or above the counter
  at the start, and the counter ends above it.\<close>

theorem nonces_never_replayed:
  assumes "check_and_advance_all env ks s = (Ok u, t)"
  shows "distinct ks \<and>
    (\<forall>((signer, domain), n) \<in> set ks. get_nonce s signer domain \<le> n \<and> n < get_nonce t signer domain)"
proof -
  from assms have run: "admin_nonce.consume_all env ks s = (Ok u, t)"
    by (simp add: check_and_advance_all_eq)
  show ?thesis
    using admin_nonce.consume_all_distinct [OF run] admin_nonce.consume_all_fresh [OF run] by fastforce
qed

theorem nonces_never_replayed_witness:
  "distinct [((Address 1, DOMAIN_BATCH_CHARGE), 0), ((Address 1, DOMAIN_ADMIN_ROTATION), 0::nat),
      ((Address 1, DOMAIN_BATCH_CHARGE), 1)]"
proof -
  define env where "env = \<lparr>ledger_timestamp = 5, current_contract_address = Address 0,
    authorized = (\<lambda>_. True), latest_price = (\<lambda>_. None), token_transfer = standard_transfer\<rparr>"
  let ?ks = "[((Address 1, DOMAIN_BATCH_CHARGE), 0), ((Address 1, DOMAIN_ADMIN_ROTATION), 0),
      ((Address 1, DOMAIN_BATCH_CHARGE), 1)]"
  have "fst (check_and_advance_all env ?ks vault_init) = Ok ()"
    by (simp add: check_and_advance_def get_nonce_def checked_add_u64_def U64_MAX_def vault_init_def
        DOMAIN_BATCH_CHARGE_def DOMAIN_ADMIN_ROTATION_def)
  then obtain t where "check_and_advance_all env ?ks vault_init = (Ok (), t)"
    by (metis prod.collapse)
  from nonces_never_replayed [OF this] show ?thesis by (rule conjunct1)
qed

end
