(* ===== verification/Admin.thy ===== *)
theory Admin
  imports Accounting Nonce
begin

text \<open>
  \<open>admin.rs\<close> (but for the charging entry points, which need \<open>charge_core.rs\<close>) and the emergency
  stop of \<open>lib.rs\<close>: initialisation, admin authentication and rotation, configuration, the registry
  of accepted tokens, and the recovery of stranded funds.
\<close>

section \<open>Operations\<close>

definition do_init :: "env \<Rightarrow> address \<Rightarrow> u32 \<Rightarrow> address \<Rightarrow> i128 \<Rightarrow> u64 \<Rightarrow> vault \<Rightarrow> unit res \<times> vault" where
  "do_init env tok token_decimals admin min_topup grace_period s =
    (if token_key (adm s) \<noteq> None \<or> admin_key (adm s) \<noteq> None then (Err AlreadyInitialized, s)
     else if min_topup < 0 then (Err InvalidAmount, s)
     else if token_decimals > 19 then (Err InvalidTokenDecimals, s)
     else if tok = current_contract_address env then (Err InvalidToken, s)
     else (Ok (), publish ''initialized'' (AdminEv (Initialized tok admin min_topup grace_period))
       (s\<lparr>adm := (adm s)\<lparr>
           token_key := Some tok,
           token_decimals_key := (token_decimals_key (adm s))(tok \<mapsto> token_decimals),
           accepted_tokens_key := Some [tok],
           admin_key := Some admin,
           min_topup_key := Some min_topup,
           grace_period_key := Some grace_period,
           schema_version_key := Some 2\<rparr>\<rparr>)))"

definition require_admin :: "vault \<Rightarrow> address res" where
  "require_admin s = ok_or (admin_key (adm s)) NotInitialized"

definition require_admin_auth :: "env \<Rightarrow> address \<Rightarrow> vault \<Rightarrow> unit res" where
  "require_admin_auth env admin s =
     bind_res (require_auth env admin) (\<lambda>_.
     bind_res (require_admin s) (\<lambda>stored_admin.
     if admin \<noteq> stored_admin then Err Unauthorized else Ok ()))"

definition require_stored_admin_auth :: "env \<Rightarrow> vault \<Rightarrow> address res" where
  "require_stored_admin_auth env s =
     bind_res (require_admin s) (\<lambda>stored_admin.
     bind_res (require_auth env stored_admin) (\<lambda>_. Ok stored_admin))"

definition do_set_min_topup :: "env \<Rightarrow> address \<Rightarrow> i128 \<Rightarrow> vault \<Rightarrow> unit res \<times> vault" where
  "do_set_min_topup env admin min_topup s =
     try_res (require_admin_auth env admin s) s (\<lambda>_.
     (Ok (), publish ''min_topup_updated'' (AdminEv (MinTopupUpdated min_topup))
        (s\<lparr>adm := (adm s)\<lparr>min_topup_key := Some min_topup\<rparr>\<rparr>)))"

definition get_min_topup :: "vault \<Rightarrow> i128 res" where
  "get_min_topup s = ok_or (min_topup_key (adm s)) NotInitialized"

definition do_set_grace_period :: "env \<Rightarrow> address \<Rightarrow> u64 \<Rightarrow> vault \<Rightarrow> unit res \<times> vault" where
  "do_set_grace_period env admin grace_period s =
     try_res (require_admin_auth env admin s) s (\<lambda>_.
     (Ok (), s\<lparr>adm := (adm s)\<lparr>grace_period_key := Some grace_period\<rparr>\<rparr>))"

definition get_grace_period :: "vault \<Rightarrow> u64 res" where
  "get_grace_period s = Ok (unwrap_or (grace_period_key (adm s)) 0)"

definition get_token :: "vault \<Rightarrow> address res" where
  "get_token s = ok_or (token_key (adm s)) NotFound"

definition get_token_decimals :: "vault \<Rightarrow> address \<Rightarrow> u32 res" where
  "get_token_decimals s tok = ok_or (token_decimals_key (adm s) tok) NotFound"

definition is_token_accepted :: "vault \<Rightarrow> address \<Rightarrow> bool" where
  "is_token_accepted s tok \<longleftrightarrow> token_decimals_key (adm s) tok \<noteq> None"

definition add_accepted_token :: "env \<Rightarrow> address \<Rightarrow> address \<Rightarrow> u32 \<Rightarrow> vault \<Rightarrow> unit res \<times> vault" where
  "add_accepted_token env admin tok dec s =
     try_res (require_admin_auth env admin s) s (\<lambda>_.
     let s1 = (if token_decimals_key (adm s) tok = None
               then s\<lparr>adm := (adm s)\<lparr>accepted_tokens_key :=
                      Some (unwrap_or (accepted_tokens_key (adm s)) [] @ [tok])\<rparr>\<rparr>
               else s)
     in (Ok (), s1\<lparr>adm := (adm s1)\<lparr>token_decimals_key := (token_decimals_key (adm s1))(tok \<mapsto> dec)\<rparr>\<rparr>))"

definition remove_accepted_token :: "env \<Rightarrow> address \<Rightarrow> address \<Rightarrow> vault \<Rightarrow> unit res \<times> vault" where
  "remove_accepted_token env admin tok s =
     try_res (require_admin_auth env admin s) s (\<lambda>_.
     try_res (get_token s) s (\<lambda>default_token.
     if tok = default_token then (Err InvalidInput, s)
     else let s1 = s\<lparr>adm := (adm s)\<lparr>token_decimals_key := (token_decimals_key (adm s))(tok := None)\<rparr>\<rparr>;
              remaining = filter (\<lambda>t. t \<noteq> tok) (unwrap_or (accepted_tokens_key (adm s1)) [])
          in (Ok (), s1\<lparr>adm := (adm s1)\<lparr>accepted_tokens_key := Some remaining\<rparr>\<rparr>)))"

definition list_accepted_tokens :: "vault \<Rightarrow> accepted_token list" where
  "list_accepted_tokens s =
     List.map_filter
       (\<lambda>t. map_option (\<lambda>d. \<lparr>acc_token = t, decimals = d\<rparr>) (token_decimals_key (adm s) t))
       (unwrap_or (accepted_tokens_key (adm s)) [])"

definition do_get_admin :: "vault \<Rightarrow> address res" where
  "do_get_admin s = ok_or (admin_key (adm s)) NotInitialized"

definition do_rotate_admin :: "env \<Rightarrow> address \<Rightarrow> address \<Rightarrow> u64 \<Rightarrow> vault \<Rightarrow> unit res \<times> vault" where
  "do_rotate_admin env current_admin new_admin nonce s =
     try_res (require_admin_auth env current_admin s) s (\<lambda>_.
     try_op (check_and_advance env current_admin DOMAIN_ADMIN_ROTATION nonce s) (\<lambda>_ s1.
     if new_admin = current_admin then (Err SelfRotation, s1)
     else if new_admin = current_contract_address env then (Err InvalidNewAdmin, s1)
     else (Ok (), publish ''admin_rotated''
            (AdminEv (AdminRotatedEvent current_admin new_admin (ledger_timestamp env)))
            (s1\<lparr>adm := (adm s1)\<lparr>admin_key := Some new_admin\<rparr>\<rparr>))))"

definition do_recover_stranded_funds ::
  "env \<Rightarrow> address \<Rightarrow> address \<Rightarrow> address \<Rightarrow> i128 \<Rightarrow> string \<Rightarrow> recovery_reason \<Rightarrow> vault \<Rightarrow> unit res \<times> vault" where
  "do_recover_stranded_funds env admin tok recipient amt recovery_id why s =
     try_res (require_admin_auth env admin s) s (\<lambda>_.
     if amt \<le> 0 then (Err InvalidRecoveryAmount, s)
     else if recovery_key (adm s) recovery_id \<noteq> None then (Err Replay, s)
     else
       let contract_balance = tokens s tok (current_contract_address env);
           accounted_balance = get_total_accounted s tok
       in try_res (ok_or (checked_sub contract_balance accounted_balance) Underflow) s (\<lambda>recoverable.
          if amt > recoverable then (Err InsufficientBalanceErr, s)
          else
            let s1 = s\<lparr>adm := (adm s)\<lparr>recovery_key := (recovery_key (adm s))(recovery_id \<mapsto> True)\<rparr>\<rparr>;
                s2 = publish ''recovery''
                  (AdminEv (RecoveryEvent admin recipient tok amt why (ledger_timestamp env))) s1
            in transfer env tok (current_contract_address env) recipient amt s2))"

definition set_protocol_fee :: "env \<Rightarrow> address \<Rightarrow> address \<Rightarrow> u32 \<Rightarrow> vault \<Rightarrow> unit res \<times> vault" where
  "set_protocol_fee env admin treasury fee_bps s =
     try_res (require_auth env admin) s (\<lambda>_.
     try_res (require_admin s) s (\<lambda>stored.
     if admin \<noteq> stored then (Err Unauthorized, s)
     else if fee_bps > 10000 then (Err InvalidInput, s)
     else (Ok (), publish ''protocol_fee_configured''
            (ConfigEv (ProtocolFeeConfiguredEvent admin treasury fee_bps (ledger_timestamp env)))
            (s\<lparr>adm := (adm s)\<lparr>fee_bps_key := Some fee_bps, treasury_key := Some treasury\<rparr>\<rparr>))))"

definition get_protocol_fee_bps :: "vault \<Rightarrow> u32" where
  "get_protocol_fee_bps s = unwrap_or (fee_bps_key (adm s)) 0"

definition get_treasury :: "vault \<Rightarrow> address option" where
  "get_treasury s = treasury_key (adm s)"

subsection \<open>Emergency stop (lib.rs)\<close>

definition get_emergency_stop :: "vault \<Rightarrow> bool" where
  "get_emergency_stop s = unwrap_or (emergency_stop_key (adm s)) False"

definition require_not_emergency_stop :: "vault \<Rightarrow> unit res" where
  "require_not_emergency_stop s = (if get_emergency_stop s then Err EmergencyStopActive else Ok ())"

definition enable_emergency_stop :: "env \<Rightarrow> address \<Rightarrow> vault \<Rightarrow> unit res \<times> vault" where
  "enable_emergency_stop env admin s =
     try_res (require_admin_auth env admin s) s (\<lambda>_.
     if get_emergency_stop s then (Ok (), s)
     else (Ok (), publish ''emergency_stop_enabled''
            (AdminEv (EmergencyStopEnabledEvent admin (ledger_timestamp env)))
            (s\<lparr>adm := (adm s)\<lparr>emergency_stop_key := Some True\<rparr>\<rparr>)))"

definition disable_emergency_stop :: "env \<Rightarrow> address \<Rightarrow> vault \<Rightarrow> unit res \<times> vault" where
  "disable_emergency_stop env admin s =
     try_res (require_admin_auth env admin s) s (\<lambda>_.
     if \<not> get_emergency_stop s then (Ok (), s)
     else (Ok (), publish ''emergency_stop_disabled''
            (AdminEv (EmergencyStopDisabledEvent admin (ledger_timestamp env)))
            (s\<lparr>adm := (adm s)\<lparr>emergency_stop_key := Some False\<rparr>\<rparr>)))"

section \<open>Who may act\<close>

lemma require_admin_auth_Ok [ok_iff]:
  "require_admin_auth env admin s = Ok u \<longleftrightarrow> authorized env admin \<and> admin_key (adm s) = Some admin"
  by (auto simp: require_admin_auth_def require_admin_def ok_iff)

lemma require_stored_admin_auth_Ok [ok_iff]:
  "require_stored_admin_auth env s = Ok a \<longleftrightarrow> authorized env a \<and> admin_key (adm s) = Some a"
  by (auto simp: require_stored_admin_auth_def require_admin_def ok_iff)

lemma require_not_emergency_stop_Ok [ok_iff]:
  "require_not_emergency_stop s = Ok u \<longleftrightarrow> \<not> get_emergency_stop s"
  by (simp add: require_not_emergency_stop_def)


section \<open>The registry of accepted tokens\<close>

text \<open>
  The list of accepted tokens and the map of their decimals describe the same set, and the default
  token is always in it.
\<close>

definition registry_ok :: "vault \<Rightarrow> bool" where
  "registry_ok s \<longleftrightarrow>
     distinct (unwrap_or (accepted_tokens_key (adm s)) []) \<and>
     set (unwrap_or (accepted_tokens_key (adm s)) []) = dom (token_decimals_key (adm s)) \<and>
     (\<forall>t. token_key (adm s) = Some t \<longrightarrow> is_token_accepted s t)"

lemma registry_ok_cong: "adm t = adm s \<Longrightarrow> registry_ok t = registry_ok s"
  by (simp add: registry_ok_def is_token_accepted_def)

lemma registry_ok_init: "registry_ok vault_init"
  by (simp add: registry_ok_def vault_init_def)

lemma do_init_registry:
  assumes "registry_ok s" and "do_init env tok dec admin m g s = (Ok u, t)" and "token_decimals_key (adm s) = Map.empty"
  shows "registry_ok t"
  using assms by (auto simp: do_init_def registry_ok_def is_token_accepted_def ok_iff split: if_splits)

lemma add_accepted_token_registry:
  assumes "registry_ok s" and "add_accepted_token env admin tok dec s = (Ok u, t)"
  shows "registry_ok t"
  using assms
  by (auto simp: add_accepted_token_def registry_ok_def is_token_accepted_def ok_iff Let_def split: if_splits)

lemma remove_accepted_token_registry:
  assumes "registry_ok s" and "remove_accepted_token env admin tok s = (Ok u, t)"
  shows "registry_ok t"
  using assms
  by (auto simp: remove_accepted_token_def registry_ok_def is_token_accepted_def get_token_def ok_iff Let_def split: if_splits)

lemma list_accepted_tokens_set:
  assumes "registry_ok s"
  shows "set (list_accepted_tokens s) =
    {\<lparr>acc_token = t, decimals = d\<rparr> | t d. token_decimals_key (adm s) t = Some d}"
  using assms
  by (auto simp: list_accepted_tokens_def registry_ok_def List.map_filter_def image_def)

section \<open>Recovery stays off accounted funds\<close>

text \<open>C27. A recovery of stranded funds is signed by the admin, uses a fresh recovery id, and is
  covered by what the vault holds beyond the accounted total, so that after a transfer of a standard
  token to another address the vault still holds at least the accounted total; the id is then
  used up and a second recovery with it is a replay.\<close>

theorem recovery_within_surplus:
  assumes "sep41 (token_transfer env)" and "recipient \<noteq> current_contract_address env"
    and "do_recover_stranded_funds env admin tok recipient amt rid why s = (Ok u, t)"
  shows "admin_key (adm s) = Some admin \<and> authorized env admin \<and> 0 < amt
    \<and> get_total_accounted t tok \<le> tokens t tok (current_contract_address env)
    \<and> tokens t tok recipient = tokens s tok recipient + amt
    \<and> sbs t = sbs s \<and> mer t = mer s
    \<and> fst (do_recover_stranded_funds env admin tok r2 a2 rid w2 t)
        = (if a2 \<le> 0 then Err InvalidRecoveryAmount else Err Replay)"
proof -
  from assms(3) obtain l where adm: "authorized env admin" "admin_key (adm s) = Some admin" "0 < amt"
    and surplus: "amt \<le> tokens s tok (current_contract_address env) - get_total_accounted s tok"
    and tr: "token_transfer env tok (current_contract_address env) recipient amt (tokens s) = Some l"
    and t: "tokens t = l" "total_accounted_key t = total_accounted_key s" "sbs t = sbs s" "mer t = mer s"
      "adm t = (adm s)\<lparr>recovery_key := (recovery_key (adm s))(rid \<mapsto> True)\<rparr>"
    by (auto simp: do_recover_stranded_funds_def ok_iff Let_def)
  have "l = moved tok (current_contract_address env) recipient amt (tokens s)"
    using sep41D [OF assms(1) tr] by simp
  then have "l tok (current_contract_address env) = tokens s tok (current_contract_address env) - amt"
    and "l tok recipient = tokens s tok recipient + amt"
    using assms(2) by (simp_all add: moved_simps)
  moreover have "fst (do_recover_stranded_funds env admin tok r2 a2 rid w2 t)
        = (if a2 \<le> 0 then Err InvalidRecoveryAmount else Err Replay)"
    using adm t by (auto simp: do_recover_stranded_funds_def require_admin_auth_def require_admin_def require_auth_def)
  ultimately show ?thesis
    using adm surplus t by (simp add: get_total_accounted_def)
qed

text \<open>A concrete host and a concrete initialised vault, for the witnesses of the development.\<close>

definition demo_env :: env where
  "demo_env = \<lparr>ledger_timestamp = 1000, current_contract_address = Address 0,
     authorized = (\<lambda>_. True), latest_price = (\<lambda>_. None), token_transfer = standard_transfer\<rparr>"

definition demo_vault :: vault where
  "demo_vault = snd (do_init demo_env (Address 9) 6 (Address 1) 1 0
     (vault_init\<lparr>tokens := (\<lambda>_ h. if h = Address 0 then 0 else 1000)\<rparr>))"

lemma demo_env_simps [simp]:
  "ledger_timestamp demo_env = 1000" "current_contract_address demo_env = Address 0"
  "authorized demo_env a" "latest_price demo_env a = None" "token_transfer demo_env = standard_transfer"
  by (simp_all add: demo_env_def)

lemma demo_vault_adm:
  "adm demo_vault = \<lparr>token_key = Some (Address 9), admin_key = Some (Address 1), min_topup_key = Some 1,
     schema_version_key = Some 2, emergency_stop_key = None, grace_period_key = Some 0,
     fee_bps_key = None, treasury_key = None, accepted_tokens_key = Some [Address 9],
     token_decimals_key = [Address 9 \<mapsto> 6], oracle_key = None, recovery_key = Map.empty,
     admin_nonce_key = Map.empty\<rparr>"
  by (simp add: demo_vault_def do_init_def vault_init_def)

lemma demo_vault_rest:
  "mer demo_vault = mer vault_init" "sbs demo_vault = sbs vault_init" "pln demo_vault = pln vault_init"
  "stm demo_vault = stm vault_init" "snp demo_vault = snp vault_init" "met demo_vault = met vault_init"
  "bil demo_vault = bil vault_init" "total_accounted_key demo_vault = Map.empty"
  "blocklist_key demo_vault = Map.empty" "lock_key demo_vault = Map.empty"
  "tokens demo_vault = (\<lambda>_ h. if h = Address 0 then 0 else 1000)"
  by (simp_all add: demo_vault_def do_init_def vault_init_def)


theorem recovery_within_surplus_witness:
  "let s = demo_vault\<lparr>tokens := (\<lambda>_ _. 70)\<rparr>;
       t = snd (do_recover_stranded_funds demo_env (Address 1) (Address 9) (Address 5) 40 ''r1'' FailedTransfer s)
   in get_total_accounted t (Address 9) \<le> tokens t (Address 9) (Address 0)
      \<and> tokens t (Address 9) (Address 5) = 110"
proof -
  let ?s = "demo_vault\<lparr>tokens := (\<lambda>_ _. 70)\<rparr>"
  let ?m = "do_recover_stranded_funds demo_env (Address 1) (Address 9) (Address 5) 40 ''r1'' FailedTransfer ?s"
  have "fst ?m = Ok ()"
    by (simp add: do_recover_stranded_funds_def require_admin_auth_def require_admin_def require_auth_def
        demo_vault_adm demo_vault_rest get_total_accounted_def Let_def transfer_def standard_transfer_def
        checked_defs checked_i128_def in_i128_def I128_MIN_def I128_MAX_def)
  then have m: "?m = (Ok (), snd ?m)" by (metis prod.collapse)
  have "sep41 (token_transfer demo_env)" by (simp add: standard_transfer_sep41)
  from recovery_within_surplus [OF this _ m] show ?thesis by (simp add: Let_def)
qed

end
