(* ===== verification/Merchant.thy ===== *)
theory Merchant
  imports Admin Safe_Math
begin

text \<open>
  \<open>merchant.rs\<close>: what merchants have earned, per token, and how they get it out: credits by the
  charging code, withdrawals, refunds to subscribers, the merchant-wide pause, and the merchant
  configuration record.
\<close>

section \<open>Pause\<close>

definition get_merchant_config :: "vault \<Rightarrow> address \<Rightarrow> merchant_config option" where
  "get_merchant_config s m = merchant_config_key (mer s) m"

definition get_merchant_paused :: "vault \<Rightarrow> address \<Rightarrow> bool" where
  "get_merchant_paused s m =
    (if (case get_merchant_config s m of Some config \<Rightarrow> is_paused config | None \<Rightarrow> False) then True
     else unwrap_or (merchant_paused_key (mer s) m) False)"

definition set_merchant_paused :: "address \<Rightarrow> bool \<Rightarrow> vault \<Rightarrow> vault" where
  "set_merchant_paused m paused s =
     s\<lparr>mer := (mer s)\<lparr>merchant_paused_key := (merchant_paused_key (mer s))(m \<mapsto> paused)\<rparr>\<rparr>"

definition pause_merchant :: "env \<Rightarrow> address \<Rightarrow> vault \<Rightarrow> unit res \<times> vault" where
  "pause_merchant env m s =
     try_res (require_auth env m) s (\<lambda>_.
     if get_merchant_paused s m then (Ok (), s)
     else (Ok (), publish ''merchant_paused'' (ConfigEv (MerchantPausedEvent m (ledger_timestamp env)))
            (set_merchant_paused m True s)))"

definition unpause_merchant :: "env \<Rightarrow> address \<Rightarrow> vault \<Rightarrow> unit res \<times> vault" where
  "unpause_merchant env m s =
     try_res (require_auth env m) s (\<lambda>_.
     if \<not> get_merchant_paused s m then (Ok (), s)
     else (Ok (), publish ''merchant_unpaused'' (ConfigEv (MerchantUnpausedEvent m (ledger_timestamp env)))
            (set_merchant_paused m False s)))"

section \<open>Configuration\<close>

definition validate_merchant_config_input :: "address \<Rightarrow> i32 \<Rightarrow> 32 word \<Rightarrow> unit res" where
  "validate_merchant_config_input payout bips ops =
    (if bips > MAX_FEE_BIPS then Err InvalidFeeBips
     else if \<not> is_valid_allowed_operations ops then Err InvalidOperations
     else if ops AND OP_CHARGE = 0 then Err MustAllowChargeOperation
     else Ok ())"

definition put_merchant_config :: "address \<Rightarrow> merchant_config \<Rightarrow> vault \<Rightarrow> vault" where
  "put_merchant_config m config s =
     s\<lparr>mer := (mer s)\<lparr>merchant_config_key := (merchant_config_key (mer s))(m \<mapsto> config)\<rparr>\<rparr>"

definition initialize_merchant_config ::
  "env \<Rightarrow> address \<Rightarrow> address \<Rightarrow> i32 \<Rightarrow> 32 word \<Rightarrow> address option \<Rightarrow> string \<Rightarrow> vault \<Rightarrow> merchant_config res \<times> vault" where
  "initialize_merchant_config env m payout bips ops fee_addr url s =
     try_res (require_auth env m) s (\<lambda>_.
     try_res (validate_merchant_config_input payout bips ops) s (\<lambda>_.
     let config = \<lparr>cfg_version = 1, payout_address = payout, fee_bips = bips, allowed_operations = ops,
           is_active = True, fee_address = fee_addr, redirect_url = url, is_paused = False,
           last_updated = ledger_timestamp env\<rparr>
     in (Ok config, publish ''merchant_config_initialized''
           (ConfigEv (MerchantConfigInitializedEvent m payout bips ops (ledger_timestamp env)))
           (put_merchant_config m config s))))"

definition set_merchant_config :: "env \<Rightarrow> address \<Rightarrow> merchant_config \<Rightarrow> vault \<Rightarrow> unit res \<times> vault" where
  "set_merchant_config env m config s =
     try_res (require_auth env m) s (\<lambda>_.
     try_res (validate_merchant_config_input (payout_address config) (fee_bips config)
               (allowed_operations config)) s (\<lambda>_.
     let updated = config\<lparr>last_updated := ledger_timestamp env\<rparr>
     in (Ok (), publish ''merchant_config_set''
           (ConfigEv (MerchantConfigUpdatedEvent m (payout_address updated) (fee_bips updated)
              (allowed_operations updated) (is_active updated) (ledger_timestamp env)))
           (put_merchant_config m updated s))))"

definition update_merchant_config ::
  "env \<Rightarrow> address \<Rightarrow> address option \<Rightarrow> i32 option \<Rightarrow> (32 word) option \<Rightarrow> bool option \<Rightarrow>
   address option option \<Rightarrow> string option \<Rightarrow> bool option \<Rightarrow> vault \<Rightarrow> merchant_config res \<times> vault" where
  "update_merchant_config env m new_payout new_bips new_ops new_active new_fee_addr new_url new_paused s =
     try_res (require_auth env m) s (\<lambda>_.
     try_res (ok_or (merchant_config_key (mer s) m) NotFound) s (\<lambda>config0.
     let config1 = (case new_payout of Some p \<Rightarrow> config0\<lparr>payout_address := p\<rparr> | None \<Rightarrow> config0) in
     if (case new_bips of Some b \<Rightarrow> b > MAX_FEE_BIPS | None \<Rightarrow> False) then (Err InvalidFeeBips, s)
     else let config2 = (case new_bips of Some b \<Rightarrow> config1\<lparr>fee_bips := b\<rparr> | None \<Rightarrow> config1) in
     if (case new_ops of Some ops \<Rightarrow> \<not> is_valid_allowed_operations ops | None \<Rightarrow> False)
     then (Err InvalidOperations, s)
     else if (case new_ops of Some ops \<Rightarrow> ops AND OP_CHARGE = 0 | None \<Rightarrow> False)
     then (Err MustAllowChargeOperation, s)
     else let config3 = (case new_ops of Some ops \<Rightarrow> config2\<lparr>allowed_operations := ops\<rparr> | None \<Rightarrow> config2);
              config4 = (case new_active of Some a \<Rightarrow> config3\<lparr>is_active := a\<rparr> | None \<Rightarrow> config3);
              config5 = (case new_fee_addr of Some f \<Rightarrow> config4\<lparr>fee_address := f\<rparr> | None \<Rightarrow> config4);
              config6 = (case new_url of Some url \<Rightarrow> config5\<lparr>redirect_url := url\<rparr> | None \<Rightarrow> config5);
              config7 = (case new_paused of Some p \<Rightarrow> config6\<lparr>is_paused := p\<rparr> | None \<Rightarrow> config6);
              config = config7\<lparr>last_updated := ledger_timestamp env\<rparr>
          in (Ok config, publish ''merchant_config_updated''
                (ConfigEv (MerchantConfigUpdatedEvent m (payout_address config) (fee_bips config)
                   (allowed_operations config) (is_active config) (last_updated config)))
                (put_merchant_config m config s))))"

section \<open>Earnings and balances\<close>

definition get_merchant_token_earnings :: "vault \<Rightarrow> address \<Rightarrow> address \<Rightarrow> token_earnings" where
  "get_merchant_token_earnings s m tok = unwrap_or (merchant_earnings_key (mer s) (m, tok))
     \<lparr>accruals = \<lparr>acc_interval = 0, acc_usage = 0, acc_one_off = 0\<rparr>, withdrawals = 0, refunds = 0\<rparr>"

definition set_merchant_token_earnings :: "address \<Rightarrow> address \<Rightarrow> token_earnings \<Rightarrow> vault \<Rightarrow> vault" where
  "set_merchant_token_earnings m tok earnings s =
     s\<lparr>mer := (mer s)\<lparr>merchant_earnings_key := (merchant_earnings_key (mer s))((m, tok) \<mapsto> earnings)\<rparr>\<rparr>"

definition add_merchant_token :: "address \<Rightarrow> address \<Rightarrow> vault \<Rightarrow> vault" where
  "add_merchant_token m tok s =
    (let toks = unwrap_or (merchant_tokens_key (mer s) m) []
     in if tok \<in> set toks then s
        else s\<lparr>mer := (mer s)\<lparr>merchant_tokens_key := (merchant_tokens_key (mer s))(m \<mapsto> toks @ [tok])\<rparr>\<rparr>)"

definition get_merchant_total_earnings :: "vault \<Rightarrow> address \<Rightarrow> (address \<times> token_earnings) list" where
  "get_merchant_total_earnings s m =
     map (\<lambda>tok. (tok, get_merchant_token_earnings s m tok)) (unwrap_or (merchant_tokens_key (mer s) m) [])"

definition get_reconciliation_snapshot :: "vault \<Rightarrow> address \<Rightarrow> token_reconciliation_snapshot list" where
  "get_reconciliation_snapshot s m =
     map (\<lambda>tok.
       let earnings = get_merchant_token_earnings s m tok;
           accrued = unwrap_or (checked_add
             (unwrap_or (checked_add (acc_interval (accruals earnings)) (acc_usage (accruals earnings))) 0)
             (acc_one_off (accruals earnings))) 0;
           balance = unwrap_or (checked_sub
             (unwrap_or (checked_sub accrued (withdrawals earnings)) 0) (refunds earnings)) 0
       in \<lparr>recon_token = tok, total_accruals = accrued, total_withdrawals = withdrawals earnings,
           total_refunds = refunds earnings, computed_balance = balance\<rparr>)
     (unwrap_or (merchant_tokens_key (mer s) m) [])"

definition get_merchant_balance_by_token :: "vault \<Rightarrow> address \<Rightarrow> address \<Rightarrow> i128" where
  "get_merchant_balance_by_token s m tok = unwrap_or (merchant_balance_key (mer s) (m, tok)) 0"

definition get_merchant_balance :: "vault \<Rightarrow> address \<Rightarrow> i128" where
  "get_merchant_balance s m =
    (case get_token s of Ok tok \<Rightarrow> get_merchant_balance_by_token s m tok | _ \<Rightarrow> 0)"

definition set_merchant_balance :: "address \<Rightarrow> address \<Rightarrow> i128 \<Rightarrow> vault \<Rightarrow> vault" where
  "set_merchant_balance m tok balance s =
     s\<lparr>mer := (mer s)\<lparr>merchant_balance_key := (merchant_balance_key (mer s))((m, tok) \<mapsto> balance)\<rparr>\<rparr>"

fun accrue :: "token_earnings \<Rightarrow> i128 \<Rightarrow> billing_charge_kind \<Rightarrow> token_earnings res" where
  "accrue e amt Interval = bind_res (ok_or (checked_add (acc_interval (accruals e)) amt) Overflow)
     (\<lambda>x. Ok (e\<lparr>accruals := (accruals e)\<lparr>acc_interval := x\<rparr>\<rparr>))"
| "accrue e amt Usage = bind_res (ok_or (checked_add (acc_usage (accruals e)) amt) Overflow)
     (\<lambda>x. Ok (e\<lparr>accruals := (accruals e)\<lparr>acc_usage := x\<rparr>\<rparr>))"
| "accrue e amt OneOff = bind_res (ok_or (checked_add (acc_one_off (accruals e)) amt) Overflow)
     (\<lambda>x. Ok (e\<lparr>accruals := (accruals e)\<lparr>acc_one_off := x\<rparr>\<rparr>))"

definition credit_merchant_balance_for_token ::
  "address \<Rightarrow> address \<Rightarrow> i128 \<Rightarrow> billing_charge_kind \<Rightarrow> vault \<Rightarrow> unit res \<times> vault" where
  "credit_merchant_balance_for_token m tok amt k s =
     try_res (validate_non_negative amt) s (\<lambda>_.
     let current = get_merchant_balance_by_token s m tok in
     try_res (safe_add current amt) s (\<lambda>new_balance.
     let s1 = set_merchant_balance m tok new_balance s;
         earnings = get_merchant_token_earnings s1 m tok
     in try_res (accrue earnings amt k) s1 (\<lambda>earnings'.
        (Ok (), add_merchant_token m tok (set_merchant_token_earnings m tok earnings' s1)))))"

definition credit_merchant_balance :: "address \<Rightarrow> i128 \<Rightarrow> billing_charge_kind \<Rightarrow> vault \<Rightarrow> unit res \<times> vault" where
  "credit_merchant_balance m amt k s =
     try_res (get_token s) s (\<lambda>tok. credit_merchant_balance_for_token m tok amt k s)"

definition withdraw_merchant_funds_for_token :: "env \<Rightarrow> address \<Rightarrow> address \<Rightarrow> i128 \<Rightarrow> vault \<Rightarrow> unit res \<times> vault" where
  "withdraw_merchant_funds_for_token env m tok amt s =
     try_res (require_auth env m) s (\<lambda>_.
     if amt \<le> 0 then (Err InvalidAmount, s)
     else if \<not> is_token_accepted s tok then (Err InvalidInput, s)
     else
       let current = get_merchant_balance_by_token s m tok in
       if current = 0 then (Err NotFound, s)
       else if amt > current then (Err InsufficientBalanceErr, s)
       else if tokens s tok (current_contract_address env) < amt then (Err InsufficientBalanceErr, s)
       else
         try_res (safe_sub current amt) s (\<lambda>new_balance.
         let s1 = set_merchant_balance m tok new_balance s in
         try_op (sub_total_accounted tok amt s1) (\<lambda>_ s2.
         let s3 = publish ''withdrawn''
               (FundsEv (MerchantWithdrawalEvent m tok amt new_balance (ledger_timestamp env))) s2
         in transfer env tok (current_contract_address env) m amt s3)))"

definition withdraw_merchant_funds :: "env \<Rightarrow> address \<Rightarrow> i128 \<Rightarrow> vault \<Rightarrow> unit res \<times> vault" where
  "withdraw_merchant_funds env m amt s =
     try_res (get_token s) s (\<lambda>tok. withdraw_merchant_funds_for_token env m tok amt s)"

definition merchant_refund :: "env \<Rightarrow> address \<Rightarrow> address \<Rightarrow> address \<Rightarrow> i128 \<Rightarrow> vault \<Rightarrow> unit res \<times> vault" where
  "merchant_refund env m subr tok amt s =
     try_res (require_auth env m) s (\<lambda>_.
     if amt \<le> 0 then (Err InvalidAmount, s)
     else
       let current = get_merchant_balance_by_token s m tok in
       if current = 0 then (Err NotFound, s)
       else if amt > current then (Err InsufficientBalanceErr, s)
       else
         try_res (ok_or (checked_sub current amt) Overflow) s (\<lambda>new_balance.
         let s1 = set_merchant_balance m tok new_balance s;
             earnings = get_merchant_token_earnings s1 m tok
         in try_res (ok_or (checked_add (refunds earnings) amt) Overflow) s1 (\<lambda>r.
            let s2 = set_merchant_token_earnings m tok (earnings\<lparr>refunds := r\<rparr>) s1;
                s3 = publish ''merchant_refund''
                  (ConfigEv (MerchantRefundEvent m subr tok amt (ledger_timestamp env))) s2
            in transfer env tok (current_contract_address env) subr amt s3)))"

lemmas merchant_writes =
  set_merchant_paused_def put_merchant_config_def set_merchant_token_earnings_def
  add_merchant_token_def set_merchant_balance_def


section \<open>Effects\<close>

definition earned :: "token_earnings \<Rightarrow> int" where
  "earned e = acc_interval (accruals e) + acc_usage (accruals e) + acc_one_off (accruals e)"

lemma accrue_Ok:
  "accrue e amt k = Ok e' \<Longrightarrow> earned e' = earned e + amt \<and> refunds e' = refunds e \<and> withdrawals e' = withdrawals e"
  by (cases k) (auto simp: earned_def ok_iff)

lemma accrue_error: "accrue e amt k = Err x \<Longrightarrow> x = Overflow"
  by (cases k) (auto simp: ok_or_def split: option.splits)

lemma accrue_not_Trap [simp]: "accrue e amt k \<noteq> Trap"
  by (cases k) (auto simp: ok_or_def split: option.splits)

lemma credit_Ok:
  assumes "credit_merchant_balance_for_token m tok amt k s = (Ok u, t)"
  shows "0 \<le> amt" and "in_i128 (get_merchant_balance_by_token s m tok + amt)"
    and "merchant_balances t = (merchant_balances s)((m, tok) \<mapsto> get_merchant_balance_by_token s m tok + amt)"
    and "earned (get_merchant_token_earnings t m' tok') =
      earned (get_merchant_token_earnings s m' tok') + (if m' = m \<and> tok' = tok then amt else 0)"
    and "refunds (get_merchant_token_earnings t m' tok') = refunds (get_merchant_token_earnings s m' tok')"
    and "withdrawals (get_merchant_token_earnings t m' tok') = withdrawals (get_merchant_token_earnings s m' tok')"
    and "merchant_paused_key (mer t) = merchant_paused_key (mer s)"
    and "merchant_config_key (mer t) = merchant_config_key (mer s)"
    and "t = s\<lparr>mer := mer t\<rparr>"
proof -
  let ?b = "get_merchant_balance_by_token s m tok + amt"
  from assms obtain e' where amt: "0 \<le> amt" "in_i128 ?b"
    and e': "accrue (get_merchant_token_earnings s m tok) amt k = Ok e'"
    and t: "t = add_merchant_token m tok (set_merchant_token_earnings m tok e' (set_merchant_balance m tok ?b s))"
    by (auto simp: credit_merchant_balance_for_token_def Let_def ok_iff get_merchant_token_earnings_def
        set_merchant_balance_def)
  show "0 \<le> amt" "in_i128 ?b" by (fact amt)+
  show "merchant_balances t = (merchant_balances s)((m, tok) \<mapsto> ?b)"
    and "merchant_paused_key (mer t) = merchant_paused_key (mer s)"
    and "merchant_config_key (mer t) = merchant_config_key (mer s)"
    and "t = s\<lparr>mer := mer t\<rparr>"
    by (simp_all add: t merchant_writes Let_def)
  have get: "get_merchant_token_earnings t m' tok' =
      (if m' = m \<and> tok' = tok then e' else get_merchant_token_earnings s m' tok')" for m' tok'
    by (simp add: t merchant_writes Let_def get_merchant_token_earnings_def)
  show "earned (get_merchant_token_earnings t m' tok') =
      earned (get_merchant_token_earnings s m' tok') + (if m' = m \<and> tok' = tok then amt else 0)"
    and "refunds (get_merchant_token_earnings t m' tok') = refunds (get_merchant_token_earnings s m' tok')"
    and "withdrawals (get_merchant_token_earnings t m' tok') = withdrawals (get_merchant_token_earnings s m' tok')"
    using accrue_Ok [OF e'] by (auto simp: get)
qed

text \<open>A credit that fails leaves the state alone, unless the accrual counter itself overflows.\<close>

lemma credit_ends:
  "ends (\<lambda>r t. t = s\<lparr>mer := mer t\<rparr> \<and> r \<noteq> Trap \<and> (\<not> is_ok r \<longrightarrow> r \<noteq> Err Overflow \<longrightarrow> t = s))
     (credit_merchant_balance_for_token m tok amt k s)"
proof (cases "credit_merchant_balance_for_token m tok amt k s")
  case (Pair r t)
  show ?thesis
  proof (cases r)
    case (Ok u)
    with Pair credit_Ok(9) [of m tok amt k s] show ?thesis by (simp add: ends_def)
  next
    case (Err e)
    then show ?thesis
      using Pair
      by (auto simp: ends_def credit_merchant_balance_for_token_def Let_def merchant_writes
          validate_non_negative_def safe_add_def accrue_error split: option.splits if_splits
          elim!: try_res_cases dest: accrue_error)
  next
    case Trap
    then show ?thesis
      using Pair
      by (auto simp: ends_def credit_merchant_balance_for_token_def Let_def
          validate_non_negative_def safe_add_def split: option.splits if_splits elim!: try_res_cases)
  qed
qed

lemma withdraw_Ok:
  assumes "withdraw_merchant_funds_for_token env m tok amt s = (Ok u, t)"
  obtains l where "authorized env m" and "0 < amt" and "is_token_accepted s tok"
    and "amt \<le> get_merchant_balance_by_token s m tok"
    and "token_transfer env tok (current_contract_address env) m amt (tokens s) = Some l"
    and "t = s\<lparr>mer := (mer s)\<lparr>merchant_balance_key := (merchant_balances s)
               ((m, tok) \<mapsto> get_merchant_balance_by_token s m tok - amt)\<rparr>,
             total_accounted_key := (total_accounted_key s)(tok \<mapsto> get_total_accounted s tok - amt),
             evlog := evlog s @ [(''withdrawn'', FundsEv (MerchantWithdrawalEvent m tok amt
               (get_merchant_balance_by_token s m tok - amt) (ledger_timestamp env)))],
             tokens := l\<rparr>"
  using assms
  by (auto simp: withdraw_merchant_funds_for_token_def Let_def ok_iff sub_total_accounted_Ok
      get_total_accounted_def publish_def set_merchant_balance_def)

lemma refund_Ok:
  assumes "merchant_refund env m subr tok amt s = (Ok u, t)"
  obtains l where "authorized env m" and "0 < amt"
    and "amt \<le> get_merchant_balance_by_token s m tok"
    and "token_transfer env tok (current_contract_address env) subr amt (tokens s) = Some l"
    and "t = s\<lparr>mer := (mer s)\<lparr>merchant_balance_key := (merchant_balances s)
               ((m, tok) \<mapsto> get_merchant_balance_by_token s m tok - amt),
               merchant_earnings_key := (merchant_earnings_key (mer s))((m, tok) \<mapsto>
                 (get_merchant_token_earnings s m tok)\<lparr>refunds := refunds (get_merchant_token_earnings s m tok) + amt\<rparr>)\<rparr>,
             evlog := evlog s @ [(''merchant_refund'', ConfigEv (MerchantRefundEvent m subr tok amt
               (ledger_timestamp env)))],
             tokens := l\<rparr>"
  using assms
  by (auto simp: merchant_refund_def Let_def ok_iff publish_def set_merchant_balance_def
      set_merchant_token_earnings_def get_merchant_token_earnings_def)

section \<open>Merchant balances are a ledger of totals\<close>

interpretation merchant_ledger: totals_ledger
  "\<lambda>s (m, tok). get_merchant_balance_by_token s m tok"
  "\<lambda>(m, tok) amt. credit_merchant_balance_for_token m tok amt k"
  "\<lambda>(m, tok) amt. withdraw_merchant_funds_for_token env m tok amt" for k env
proof
  fix key key' :: "address \<times> address" and amt s u t
  obtain m tok m' tok' where k: "key = (m, tok)" "key' = (m', tok')" by (cases key; cases key')
  show "(case key of (m, tok) \<Rightarrow> \<lambda>amt. credit_merchant_balance_for_token m tok amt k) amt s = (Ok u, t) \<Longrightarrow>
      (case key' of (m, tok) \<Rightarrow> get_merchant_balance_by_token t m tok) =
      (case key' of (m, tok) \<Rightarrow> get_merchant_balance_by_token s m tok) + (if key' = key then max amt 0 else 0)"
    using credit_Ok(1,3) [of m tok amt k s u t] k by (auto simp: get_merchant_balance_by_token_def)
  show "(case key of (m, tok) \<Rightarrow> \<lambda>amt. withdraw_merchant_funds_for_token env m tok amt) amt s = (Ok u, t) \<Longrightarrow>
      (case key' of (m, tok) \<Rightarrow> get_merchant_balance_by_token t m tok) =
      (case key' of (m, tok) \<Rightarrow> get_merchant_balance_by_token s m tok) - (if key' = key then max amt 0 else 0)"
    using k by (auto simp: get_merchant_balance_by_token_def elim!: withdraw_Ok)
qed

end
