(* ===== verification/Oracle.thy ===== *)
theory Oracle
  imports Admin Safe_Math
begin

text \<open>
  \<open>oracle.rs\<close> with the crate's default feature \<open>oracle-pricing\<close>: the optional conversion of a
  subscription's amount, then read as quote units, into base units of its token. The price is the
  answer of another contract, a field of the environment.
\<close>

definition set_oracle_config :: "bool \<Rightarrow> address option \<Rightarrow> u64 \<Rightarrow> vault \<Rightarrow> unit res \<times> vault" where
  "set_oracle_config en oracle max_age s =
    (if en \<and> oracle = None then (Err OracleNotConfigured, s)
     else if en \<and> max_age = 0 then (Err InvalidInput, s)
     else (Ok (), s\<lparr>adm := (adm s)\<lparr>oracle_key :=
        Some \<lparr>enabled = en, oracle_address = oracle, max_age_seconds = max_age\<rparr>\<rparr>\<rparr>))"

definition get_oracle_config :: "vault \<Rightarrow> oracle_config" where
  "get_oracle_config s =
     unwrap_or (oracle_key (adm s)) \<lparr>enabled = False, oracle_address = None, max_age_seconds = 0\<rparr>"

definition resolve_charge_amount :: "env \<Rightarrow> u32 \<Rightarrow> subscription \<Rightarrow> vault \<Rightarrow> i128 res \<times> vault" where
  "resolve_charge_amount env i sub s =
    (let cfg = get_oracle_config s in
     if \<not> enabled cfg then (Ok (amount sub), s)
     else
       try_res (ok_or (oracle_address cfg) OracleNotConfigured) s (\<lambda>oracle.
       case latest_price env oracle of
         None \<Rightarrow> (Trap, s)
       | Some q \<Rightarrow>
         if price q \<le> 0 then (Err OraclePriceInvalid, s)
         else if price_timestamp q = 0 then (Err OraclePriceUnavailable, s)
         else if max_age_seconds cfg > 0 \<and> ledger_timestamp env - price_timestamp q > max_age_seconds cfg
         then (Err OraclePriceStale, s)
         else
           let token_decimals = (case get_token_decimals s (token sub) of Ok d \<Rightarrow> d | _ \<Rightarrow> 6) in
           try_res (safe_pow 10 token_decimals) s (\<lambda>scale.
           try_res (safe_mul (amount sub) scale) s (\<lambda>numerator.
           try_res (safe_sub (price q) 1) s (\<lambda>ceil_adjust.
           try_res (safe_add numerator ceil_adjust) s (\<lambda>x.
           try_res (safe_div x (price q)) s (\<lambda>token_amount.
           if token_amount \<le> 0 then (Err OraclePriceInvalid, s)
           else (Ok token_amount, publish ''oracle_charge_resolved''
                  (OracleEv (OracleChargeResolvedEvent i (amount sub) token_amount (price q)
                     (price_timestamp q) (ledger_timestamp env))) s))))))))"

lemma resolve_disabled [simp]:
  "\<not> enabled (get_oracle_config s) \<Longrightarrow> resolve_charge_amount env i sub s = (Ok (amount sub), s)"
  by (simp add: resolve_charge_amount_def)

text \<open>Pricing writes nothing but its event.\<close>

lemma resolve_frame:
  "ends (\<lambda>r t. t = s\<lparr>evlog := evlog t\<rparr> \<and> (\<not> is_ok r \<longrightarrow> t = s)) (resolve_charge_amount env i sub s)"
  unfolding resolve_charge_amount_def Let_def
  by (intro ends_intro) (auto simp: publish_def)

lemma resolve_Ok_frame:
  "resolve_charge_amount env i sub s = (Ok a, t) \<Longrightarrow> t = s\<lparr>evlog := evlog t\<rparr>"
  using endsD [OF resolve_frame] by blast

lemma resolve_not_ok:
  "resolve_charge_amount env i sub s = (r, t) \<Longrightarrow> \<not> is_ok r \<Longrightarrow> t = s"
  using endsD [OF resolve_frame] by blast

text \<open>The division of the code, on what passed its checks, is a division rounded up.\<close>

lemma ceil_division:
  assumes "0 < p" and "0 < (n + (p - 1)) sdiv p"
  shows "((n + (p - 1)) sdiv p - 1) * p < n" and "n \<le> (n + (p - 1)) sdiv (p::int) * p"
proof -
  let ?x = "n + (p - 1)"
  have "0 \<le> ?x"
  proof (rule ccontr)
    assume "\<not> 0 \<le> ?x"
    then have "?x sdiv p = - (- ?x div p)"
      using assms(1) by (simp add: signed_divide_int_def sgn_if)
    moreover have "0 \<le> - ?x div p"
      using \<open>\<not> 0 \<le> ?x\<close> assms(1) by (intro pos_imp_zdiv_nonneg_iff [THEN iffD2]) auto
    ultimately show False using assms(2) by simp
  qed
  then have q: "?x sdiv p = ?x div p" using assms(1) by (simp add: sdiv_nonneg)
  have "?x div p * p = ?x - ?x mod p" by (rule minus_mod_eq_div_mult [symmetric])
  moreover have "0 \<le> ?x mod p" "?x mod p < p" using assms(1) by simp_all
  ultimately show "(?x sdiv p - 1) * p < n" "n \<le> ?x sdiv p * p"
    unfolding q left_diff_distrib by linarith+
qed

text \<open>C36. With oracle pricing enabled, a resolved amount comes from a positive, dated and fresh
  price, and is the least number of token base units whose value at that price covers the quoted
  amount: one unit less would not pay it. It is always positive.\<close>

theorem resolve_rounds_up:
  assumes "enabled (get_oracle_config s)" and "resolve_charge_amount env i sub s = (Ok a, t)"
  shows "\<exists>oracle q. oracle_address (get_oracle_config s) = Some oracle \<and> latest_price env oracle = Some q
    \<and> 0 < price q \<and> 0 < price_timestamp q
    \<and> (max_age_seconds (get_oracle_config s) = 0
        \<or> ledger_timestamp env \<le> price_timestamp q + max_age_seconds (get_oracle_config s))
    \<and> (let d = unwrap_or (token_decimals_key (adm s) (token sub)) 6 in
        0 < a \<and> (a - 1) * price q < amount sub * 10 ^ d \<and> amount sub * 10 ^ d \<le> a * price q)"
proof -
  let ?cfg = "get_oracle_config s"
  let ?d = "unwrap_or (token_decimals_key (adm s) (token sub)) 6"
  have d: "(case get_token_decimals s (token sub) of Ok d \<Rightarrow> d | _ \<Rightarrow> 6) = ?d"
    by (cases "token_decimals_key (adm s) (token sub)") (simp_all add: get_token_decimals_def)
  from assms obtain a0 where orc: "oracle_address ?cfg = Some a0"
    by (auto simp: resolve_charge_amount_def Let_def ok_iff)
  with assms obtain q where q: "latest_price env a0 = Some q"
    by (cases "latest_price env a0") (auto simp: resolve_charge_amount_def Let_def ok_iff)
  have checks: "0 < price q" "price_timestamp q \<noteq> 0"
      "max_age_seconds ?cfg > 0 \<longrightarrow> ledger_timestamp env - price_timestamp q \<le> max_age_seconds ?cfg"
      "0 < a" "a = (amount sub * 10 ^ ?d + (price q - 1)) sdiv price q"
    using assms unfolding resolve_charge_amount_def Let_def d by (auto simp: orc q ok_iff)
  with ceil_division [of "price q" "amount sub * 10 ^ ?d"] show ?thesis
    by (auto simp: orc q Let_def)
qed

theorem resolve_rounds_up_witness:
  "let env = demo_env\<lparr>latest_price := (\<lambda>_. Some \<lparr>price = 3000000, price_timestamp = 990\<rparr>)\<rparr>;
       s = demo_vault\<lparr>adm := (adm demo_vault)\<lparr>oracle_key :=
             Some \<lparr>enabled = True, oracle_address = Some (Address 7), max_age_seconds = 60\<rparr>\<rparr>\<rparr>;
       sub = \<lparr>subscriber = Address 3, merchant = Address 4, token = Address 9, amount = 10,
         interval_seconds = 100, last_payment_timestamp = 0, status = Active, prepaid_balance = 0,
         usage_enabled = False, lifetime_cap = None, lifetime_charged = 0, start_time = 0,
         expires_at = None, grace_start_timestamp = None\<rparr>
   in fst (resolve_charge_amount env 0 sub s) = Ok 4 \<and> (3::int) * 3000000 < 10 * 10 ^ 6"
proof -
  let ?env = "demo_env\<lparr>latest_price := (\<lambda>_. Some \<lparr>price = 3000000, price_timestamp = 990\<rparr>)\<rparr>"
  let ?s = "demo_vault\<lparr>adm := (adm demo_vault)\<lparr>oracle_key :=
             Some \<lparr>enabled = True, oracle_address = Some (Address 7), max_age_seconds = 60\<rparr>\<rparr>\<rparr>"
  let ?sub = "\<lparr>subscriber = Address 3, merchant = Address 4, token = Address 9, amount = 10,
         interval_seconds = 100, last_payment_timestamp = 0, status = Active, prepaid_balance = 0,
         usage_enabled = False, lifetime_cap = None, lifetime_charged = 0, start_time = 0,
         expires_at = None, grace_start_timestamp = None\<rparr>"
  have en: "enabled (get_oracle_config ?s)" by (simp add: get_oracle_config_def)
  have r: "fst (resolve_charge_amount ?env 0 ?sub ?s) = Ok 4"
    by (simp add: resolve_charge_amount_def get_oracle_config_def get_token_decimals_def demo_vault_adm
        safe_pow_def safe_mul_def safe_sub_def safe_add_def safe_div_def checked_defs checked_i128_def
        in_i128_def I128_MIN_def I128_MAX_def sdiv_nonneg)
  then obtain t where t: "resolve_charge_amount ?env 0 ?sub ?s = (Ok 4, t)"
    by (metis prod.collapse)
  from resolve_rounds_up [OF en t] r show ?thesis
    by (auto simp: Let_def get_oracle_config_def demo_vault_adm)
qed

end
