(* ===== verification/Queries.thy ===== *)
theory Queries
  imports Admin Safe_Math
begin

text \<open>
  \<open>queries.rs\<close> and the helper \<open>next_charge_time\<close> of \<open>subscription.rs\<close>: reading subscriptions, the
  derived information (top-up estimate, next charge, cap), pages over the merchant and token
  indices, and the bounded scan for the subscriptions of a subscriber.
\<close>

definition MAX_SUBSCRIPTION_LIST_PAGE :: u32 where "MAX_SUBSCRIPTION_LIST_PAGE = 100"
definition MAX_SCAN_DEPTH :: u32 where "MAX_SCAN_DEPTH = 1000"

definition next_charge_time :: "u64 \<Rightarrow> u64 \<Rightarrow> u64 res" where
  "next_charge_time last_payment interval = ok_or (checked_add_u64 last_payment interval) Overflow"

definition get_subscription :: "vault \<Rightarrow> u32 \<Rightarrow> subscription res" where
  "get_subscription s i = ok_or (subs s i) NotFound"

lemma get_subscription_Ok [ok_iff]: "get_subscription s i = Ok x \<longleftrightarrow> subs s i = Some x"
  by (simp add: get_subscription_def ok_iff)

lemma get_subscription_not_Trap [simp]: "get_subscription s i \<noteq> Trap"
  by (simp add: get_subscription_def)

definition estimate_topup_for_intervals :: "vault \<Rightarrow> u32 \<Rightarrow> u32 \<Rightarrow> i128 res" where
  "estimate_topup_for_intervals s i num_intervals =
     bind_res (get_subscription s i) (\<lambda>sub.
     if num_intervals = 0 then Ok 0
     else bind_res (safe_mul (amount sub) (int num_intervals)) (\<lambda>required.
       if required \<le> prepaid_balance sub then Ok 0 else safe_sub required (prepaid_balance sub)))"

definition compute_next_charge_info :: "subscription \<Rightarrow> next_charge_info" where
  "compute_next_charge_info sub =
     \<lparr>next_charge_timestamp = saturating_add_u64 (last_payment_timestamp sub) (interval_seconds sub),
      is_charge_expected = (case status sub of
          Active \<Rightarrow> True | GracePeriod \<Rightarrow> True | InsufficientBalance \<Rightarrow> False | Paused \<Rightarrow> False
        | Cancelled \<Rightarrow> False | Expired \<Rightarrow> False | Archived \<Rightarrow> False),
      info_status = status sub,
      reason = (case status sub of
          Active \<Rightarrow> ''active'' | GracePeriod \<Rightarrow> ''grace'' | InsufficientBalance \<Rightarrow> ''insuf_bal''
        | Paused \<Rightarrow> ''paused'' | Cancelled \<Rightarrow> ''cancelled'' | Expired \<Rightarrow> ''expired'' | Archived \<Rightarrow> ''archived''),
      info_amount = amount sub,
      info_token = token sub\<rparr>"

definition get_next_charge_info :: "vault \<Rightarrow> u32 \<Rightarrow> next_charge_info res" where
  "get_next_charge_info s i = bind_res (get_subscription s i) (\<lambda>sub. Ok (compute_next_charge_info sub))"

definition get_cap_info :: "vault \<Rightarrow> u32 \<Rightarrow> cap_info res" where
  "get_cap_info s i =
     bind_res (get_subscription s i) (\<lambda>sub.
     let p = (case lifetime_cap sub of
           Some cap \<Rightarrow> (Some (max (saturating_sub cap (lifetime_charged sub)) 0), lifetime_charged sub \<ge> cap)
         | None \<Rightarrow> (None, False))
     in Ok \<lparr>info_lifetime_cap = lifetime_cap sub, info_lifetime_charged = lifetime_charged sub,
            remaining_cap = fst p, cap_reached = snd p\<rparr>)"

definition get_plan_max_active_subs :: "vault \<Rightarrow> u32 \<Rightarrow> u32" where
  "get_plan_max_active_subs s p = unwrap_or (plan_max_active_key (pln s) p) 0"

section \<open>Pages over an index\<close>

text \<open>The loop shared by the two paged queries; records that are gone are skipped.\<close>

function page_loop :: "(u32 \<rightharpoonup> subscription) \<Rightarrow> u32 list \<Rightarrow> nat \<Rightarrow> nat \<Rightarrow> subscription list \<Rightarrow> subscription list" where
  "page_loop m ids i stop out =
    (if i < stop then
       page_loop m ids (i + 1) stop (case m (ids ! i) of Some sub \<Rightarrow> out @ [sub] | None \<Rightarrow> out)
     else out)"
  by pat_completeness auto
termination by (relation "measure (\<lambda>(m, ids, i, stop, out). stop - i)") auto

declare page_loop.simps [simp del]

definition index_page :: "vault \<Rightarrow> u32 list \<Rightarrow> u32 \<Rightarrow> u32 \<Rightarrow> subscription list res" where
  "index_page s ids start limit =
    (let len = length ids in
     if start \<ge> len then Ok []
     else let e = (start + limit) mod 2 ^ 32;
              stop = (if e > len then len else e)
          in Ok (page_loop (subs s) ids start stop []))"

definition merchant_index :: "vault \<Rightarrow> address \<Rightarrow> u32 list" where
  "merchant_index s m = unwrap_or (merchant_subs_key (sbs s) m) []"

definition token_index :: "vault \<Rightarrow> address \<Rightarrow> u32 list" where
  "token_index s tok = unwrap_or (token_subs_key (sbs s) tok) []"

definition get_subscriptions_by_merchant :: "vault \<Rightarrow> address \<Rightarrow> u32 \<Rightarrow> u32 \<Rightarrow> subscription list res" where
  "get_subscriptions_by_merchant s m start limit =
    (if limit = 0 \<or> limit > MAX_SUBSCRIPTION_LIST_PAGE then Err InvalidInput
     else index_page s (merchant_index s m) start limit)"

definition get_merchant_subscription_count :: "vault \<Rightarrow> address \<Rightarrow> u32" where
  "get_merchant_subscription_count s m = length (merchant_index s m)"

definition get_token_subscription_count :: "vault \<Rightarrow> address \<Rightarrow> u32" where
  "get_token_subscription_count s tok = length (token_index s tok)"

definition get_subscriptions_by_token :: "vault \<Rightarrow> address \<Rightarrow> u32 \<Rightarrow> u32 \<Rightarrow> subscription list res" where
  "get_subscriptions_by_token s tok start limit =
    (if limit = 0 \<or> limit > MAX_SUBSCRIPTION_LIST_PAGE then Err InvalidInput
     else index_page s (token_index s tok) start limit)"

text \<open>The records an index stands for.\<close>

definition lookup_all :: "(u32 \<rightharpoonup> subscription) \<Rightarrow> u32 list \<Rightarrow> subscription list" where
  "lookup_all m ids = List.map_filter m ids"

lemma lookup_all_simps [simp]:
  "lookup_all m [] = []"
  "lookup_all m (i # ids) = (case m i of Some x \<Rightarrow> x # lookup_all m ids | None \<Rightarrow> lookup_all m ids)"
  by (simp_all add: lookup_all_def List.map_filter_simps split: option.split)

lemma lookup_all_append [simp]: "lookup_all m (xs @ ys) = lookup_all m xs @ lookup_all m ys"
  by (induction xs) (auto split: option.split)

lemma page_loop_slice:
  "stop \<le> length ids \<Longrightarrow> page_loop m ids i stop out = out @ lookup_all m (drop i (take stop ids))"
proof (induction m ids i stop out rule: page_loop.induct)
  case (1 m ids i stop out)
  show ?case
  proof (cases "i < stop")
    case False
    then show ?thesis by (subst page_loop.simps) simp
  next
    case True
    have cons: "drop i (take stop ids) = ids ! i # drop (Suc i) (take stop ids)"
      using True "1.prems" by (subst Cons_nth_drop_Suc [symmetric]) auto
    have IH: "page_loop m ids (i + 1) stop out' = out' @ lookup_all m (drop (i + 1) (take stop ids))"
      if "out' = (case m (ids ! i) of Some sub \<Rightarrow> out @ [sub] | None \<Rightarrow> out)" for out'
      unfolding that using True "1.prems" by (rule "1.IH")
    show ?thesis
      by (subst page_loop.simps) (use True IH in \<open>simp add: cons split: option.split\<close>)
  qed
qed

text \<open>
  What a client of a paged query relies on: below a bound on the index, a page is the part of the
  index between two offsets, with gone records skipped. Reading page after page then yields every
  record of the index.
\<close>

locale paged_index =
  fixes page :: "'s \<Rightarrow> 'k \<Rightarrow> nat \<Rightarrow> nat \<Rightarrow> 'v list res"
    and count :: "'s \<Rightarrow> 'k \<Rightarrow> nat"
    and index :: "'s \<Rightarrow> 'k \<Rightarrow> 'i list"
    and records :: "'s \<Rightarrow> 'i list \<Rightarrow> 'v list"
    and max_page bound :: nat
  assumes page_slice: "0 < limit \<Longrightarrow> limit \<le> max_page \<Longrightarrow> count s k \<le> bound \<Longrightarrow>
      page s k start limit = Ok (records s (take limit (drop start (index s k))))"
    and count_index: "count s k = length (index s k)"
    and records_nil: "records s [] = []"
    and records_append: "records s (xs @ ys) = records s xs @ records s ys"
begin

fun pages :: "'s \<Rightarrow> 'k \<Rightarrow> nat \<Rightarrow> nat \<Rightarrow> nat \<Rightarrow> 'v list" where
  "pages s k start limit 0 = []"
| "pages s k start limit (Suc n) =
     (case page s k start limit of Ok xs \<Rightarrow> xs | _ \<Rightarrow> []) @ pages s k (start + limit) limit n"

lemma pages_slice:
  assumes "0 < limit" and "limit \<le> max_page" and "count s k \<le> bound"
  shows "pages s k start limit n = records s (take (n * limit) (drop start (index s k)))"
proof (induction n arbitrary: start)
  case 0
  then show ?case by (simp add: records_nil)
next
  case (Suc n)
  have "take (Suc n * limit) xs = take limit xs @ take (n * limit) (drop limit xs)" for xs :: "'i list"
    by (simp add: take_add)
  then show ?case
    using Suc page_slice [OF assms] by (simp add: records_append add.commute)
qed

lemma pages_complete:
  assumes "0 < limit" and "limit \<le> max_page" and "count s k \<le> bound" and "count s k \<le> n * limit"
  shows "pages s k 0 limit n = records s (index s k)"
  using assms(4) by (simp add: pages_slice [OF assms(1-3)] count_index)

end

definition INDEX_BOUND :: nat where "INDEX_BOUND = 2 ^ 32 - 200"

lemma index_page_slice:
  assumes "limit \<le> MAX_SUBSCRIPTION_LIST_PAGE" and "length ids \<le> INDEX_BOUND"
  shows "index_page s ids start limit = Ok (lookup_all (subs s) (take limit (drop start ids)))"
proof (cases "start < length ids")
  case False
  then show ?thesis by (simp add: index_page_def)
next
  case True
  with assms have "start + limit < 2 ^ 32"
    by (simp add: MAX_SUBSCRIPTION_LIST_PAGE_def INDEX_BOUND_def)
  then have e: "(start + limit) mod 2 ^ 32 = start + limit" by simp
  have stop_eq: "(if start + limit > length ids then length ids else start + limit) = min (length ids) (start + limit)"
    by simp
  have "drop start (take (min (length ids) (start + limit)) ids) = take limit (drop start ids)"
    by (cases "length ids \<le> start + limit") (simp_all add: min_def drop_take)
  with True show ?thesis
    unfolding index_page_def Let_def e stop_eq by (simp add: page_loop_slice)
qed

interpretation by_merchant: paged_index
  get_subscriptions_by_merchant get_merchant_subscription_count merchant_index
  "\<lambda>s. lookup_all (subs s)" MAX_SUBSCRIPTION_LIST_PAGE INDEX_BOUND
  by unfold_locales
    (simp_all add: get_subscriptions_by_merchant_def get_merchant_subscription_count_def index_page_slice)

interpretation by_token: paged_index
  get_subscriptions_by_token get_token_subscription_count token_index
  "\<lambda>s. lookup_all (subs s)" MAX_SUBSCRIPTION_LIST_PAGE INDEX_BOUND
  by unfold_locales
    (simp_all add: get_subscriptions_by_token_def get_token_subscription_count_def index_page_slice)

text \<open>C33. Paging through a merchant's or a token's index loses nothing: reading pages of any allowed
  size one after the other returns the subscriptions of the whole index, in index order, for every
  index short enough for the offset arithmetic not to wrap.\<close>

theorem paged_queries_complete:
  assumes "0 < limit" and "limit \<le> MAX_SUBSCRIPTION_LIST_PAGE"
    and "get_merchant_subscription_count s m \<le> min (n * limit) INDEX_BOUND"
    and "get_token_subscription_count s tok \<le> min (n * limit) INDEX_BOUND"
  shows "by_merchant.pages s m 0 limit n = lookup_all (subs s) (merchant_index s m)
    \<and> by_token.pages s tok 0 limit n = lookup_all (subs s) (token_index s tok)"
  using assms by_merchant.pages_complete [of limit s m n] by_token.pages_complete [of limit s tok n]
  by simp

section \<open>The scan for a subscriber\<close>

record subscriptions_page =
  subscription_ids :: "u32 list"
  next_start_id :: "u32 option"

text \<open>The loop: \<open>Some id\<close> in the second component is the early return of a full page.\<close>

function scan_loop ::
  "(u32 \<rightharpoonup> subscription) \<Rightarrow> address \<Rightarrow> u32 \<Rightarrow> u32 \<Rightarrow> u32 \<Rightarrow> u32 list \<Rightarrow> u32 list \<times> u32 option" where
  "scan_loop m who limit scan_end i ids =
    (if i < scan_end then
       case m i of
         Some sub \<Rightarrow>
           if subscriber sub = who then
             if length ids < limit then scan_loop m who limit scan_end (i + 1) (ids @ [i])
             else (ids, Some i)
           else scan_loop m who limit scan_end (i + 1) ids
       | None \<Rightarrow> scan_loop m who limit scan_end (i + 1) ids
     else (ids, None))"
  by pat_completeness auto
termination by (relation "measure (\<lambda>(m, who, limit, scan_end, i, ids). scan_end - i)") auto

declare scan_loop.simps [simp del]

definition next_id_of :: "vault \<Rightarrow> u32" where
  "next_id_of s = unwrap_or (next_id_key (sbs s)) 0"

definition list_subscriptions_by_subscriber ::
  "vault \<Rightarrow> address \<Rightarrow> u32 \<Rightarrow> u32 \<Rightarrow> subscriptions_page res" where
  "list_subscriptions_by_subscriber s who start_from_id limit =
    (if limit = 0 \<or> limit > MAX_SUBSCRIPTION_LIST_PAGE then Err InvalidInput
     else
       let next_id = next_id_of s;
           scan_end = min (saturating_add_u32 start_from_id MAX_SCAN_DEPTH) next_id
       in case scan_loop (subs s) who limit scan_end start_from_id [] of
            (ids, Some i) \<Rightarrow> Ok \<lparr>subscription_ids = ids, next_start_id = Some i\<rparr>
          | (ids, None) \<Rightarrow> Ok \<lparr>subscription_ids = ids,
              next_start_id = (if scan_end < next_id then Some scan_end else None)\<rparr>)"

definition owned :: "(u32 \<rightharpoonup> subscription) \<Rightarrow> address \<Rightarrow> u32 \<Rightarrow> u32 \<Rightarrow> u32 list" where
  "owned m who a b = filter (\<lambda>i. case m i of Some sub \<Rightarrow> subscriber sub = who | None \<Rightarrow> False) [a..<b]"

lemma owned_empty [simp]: "b \<le> a \<Longrightarrow> owned m who a b = []"
  by (simp add: owned_def)

lemma owned_Cons:
  "a < b \<Longrightarrow> owned m who a b =
     (case m a of Some sub \<Rightarrow> if subscriber sub = who then [a] else [] | None \<Rightarrow> []) @ owned m who (Suc a) b"
  by (simp add: owned_def upt_conv_Cons split: option.split)

lemma owned_split: "a \<le> b \<Longrightarrow> b \<le> c \<Longrightarrow> owned m who a c = owned m who a b @ owned m who b c"
  unfolding owned_def by (metis filter_append le_iff_add upt_add_eq_append)

lemma scan_loop_result:
  assumes "scan_loop m who limit scan_end i ids = (out, early)"
  shows "case early of
      None \<Rightarrow> out = ids @ owned m who i scan_end
    | Some j \<Rightarrow> i \<le> j \<and> j < scan_end \<and> out = ids @ owned m who i j \<and> (length ids < limit \<longrightarrow> i < j)"
  using assms
proof (induction m who limit scan_end i ids rule: scan_loop.induct)
  case (1 m who limit scan_end i ids)
  show ?case
  proof (cases "i < scan_end")
    case False
    then have "out = ids" "early = None" using "1.prems" by (subst (asm) scan_loop.simps; simp)+
    with False show ?thesis by simp
  next
    case True
    have extend: "owned m who i j = (case m i of Some sub \<Rightarrow> if subscriber sub = who then [i] else [] | None \<Rightarrow> [])
        @ owned m who (Suc i) j" if "Suc i \<le> j" for j
      using owned_Cons [of i j m who] that by simp
    show ?thesis
    proof (cases "m i")
      case None
      then have step: "scan_loop m who limit scan_end (i + 1) ids = (out, early)"
        using True "1.prems" by (subst (asm) scan_loop.simps) simp
      from "1.IH"(1) [OF True None step] show ?thesis
        using True None by (auto simp: extend Suc_le_eq split: option.splits)
    next
      case (Some sub)
      show ?thesis
      proof (cases "subscriber sub = who")
        case False
        then have step: "scan_loop m who limit scan_end (i + 1) ids = (out, early)"
          using True Some "1.prems" by (subst (asm) scan_loop.simps) simp
        from "1.IH"(3) [OF True Some False step] show ?thesis
          using True Some False by (auto simp: extend Suc_le_eq split: option.splits)
      next
        case own: True
        show ?thesis
        proof (cases "length ids < limit")
          case False
          then have "out = ids" "early = Some i"
            using True Some own "1.prems" by (subst (asm) scan_loop.simps; simp)+
          with False True show ?thesis by simp
        next
          case room: True
          then have step: "scan_loop m who limit scan_end (i + 1) (ids @ [i]) = (out, early)"
            using True Some own "1.prems" by (subst (asm) scan_loop.simps) simp
          from "1.IH"(2) [OF True Some own room step] show ?thesis
            using True Some own by (auto simp: extend Suc_le_eq split: option.splits)
        qed
      qed
    qed
  qed
qed

text \<open>A client that resumes at the returned id until there is none, for \<open>fuel\<close> calls at most.\<close>

fun scan_all :: "vault \<Rightarrow> address \<Rightarrow> u32 \<Rightarrow> u32 \<Rightarrow> nat \<Rightarrow> u32 list" where
  "scan_all s who start limit 0 = []"
| "scan_all s who start limit (Suc fuel) =
    (case list_subscriptions_by_subscriber s who start limit of
       Ok p \<Rightarrow> subscription_ids p @
         (case next_start_id p of Some j \<Rightarrow> scan_all s who j limit fuel | None \<Rightarrow> [])
     | _ \<Rightarrow> [])"

lemma scan_page:
  assumes "0 < limit" and "limit \<le> MAX_SUBSCRIPTION_LIST_PAGE" and "next_id_of s \<le> U32_MAX"
    and "start \<le> next_id_of s"
  obtains p where "list_subscriptions_by_subscriber s who start limit = Ok p"
    and "case next_start_id p of
        None \<Rightarrow> subscription_ids p = owned (subs s) who start (next_id_of s)
      | Some j \<Rightarrow> start < j \<and> j \<le> next_id_of s \<and> subscription_ids p = owned (subs s) who start j"
proof -
  let ?upto = "min (saturating_add_u32 start MAX_SCAN_DEPTH) (next_id_of s)"
  have progress: "?upto < next_id_of s \<Longrightarrow> start < ?upto"
    using assms(3,4) by (auto simp: saturating_add_u32_def MAX_SCAN_DEPTH_def min_def U32_MAX_def)
  obtain ids early where loop: "scan_loop (subs s) who limit ?upto start [] = (ids, early)"
    by fastforce
  note r = scan_loop_result [OF loop]
  show thesis
  proof (cases early)
    case None
    with r loop progress assms(1,2) show thesis
      by (intro that [of "\<lparr>subscription_ids = ids, next_start_id = (if ?upto < next_id_of s then Some ?upto else None)\<rparr>"])
        (auto simp: list_subscriptions_by_subscriber_def Let_def)
  next
    case (Some j)
    with r loop assms(1,2) show thesis
      by (intro that [of "\<lparr>subscription_ids = ids, next_start_id = Some j\<rparr>"])
        (auto simp: list_subscriptions_by_subscriber_def Let_def)
  qed
qed

text \<open>C34. The bounded scan is complete: resuming at the returned id, with any allowed page size,
  a client receives every id below the next free one whose subscription belongs to the subscriber,
  each once and in ascending order, after finitely many calls; every call that asks to be resumed
  has moved forward.\<close>

theorem subscriber_scan_complete:
  assumes "0 < limit" and "limit \<le> MAX_SUBSCRIPTION_LIST_PAGE" and "next_id_of s \<le> U32_MAX"
    and "next_id_of s < fuel"
  shows "scan_all s who 0 limit fuel = owned (subs s) who 0 (next_id_of s)"
proof -
  have "scan_all s who start limit fuel = owned (subs s) who start (next_id_of s)"
    if "start \<le> next_id_of s" and "next_id_of s < start + fuel" for start fuel
    using that
  proof (induction fuel arbitrary: start)
    case 0
    then show ?case by simp
  next
    case (Suc fuel)
    obtain p where p: "list_subscriptions_by_subscriber s who start limit = Ok p"
      and next_page: "case next_start_id p of
          None \<Rightarrow> subscription_ids p = owned (subs s) who start (next_id_of s)
        | Some j \<Rightarrow> start < j \<and> j \<le> next_id_of s \<and> subscription_ids p = owned (subs s) who start j"
      by (rule scan_page [OF assms(1-3) Suc.prems(1)])
    show ?case
    proof (cases "next_start_id p")
      case None
      with p next_page show ?thesis by simp
    next
      case (Some j)
      with next_page have j: "start < j" "j \<le> next_id_of s" "subscription_ids p = owned (subs s) who start j"
        by simp_all
      with Suc.IH [of j] Suc.prems(2) owned_split [of start j "next_id_of s"] p Some show ?thesis
        by simp
    qed
  qed
  with assms(4) show ?thesis by simp
qed

section \<open>Derived information\<close>

text \<open>C35. The top-up estimate for a stored subscription is exact: zero for zero intervals, otherwise the least
  deposit, none of it negative, with which the balance covers the requested number of intervals; the only
  error is an amount that is asked for, or missing, outside the range of \<open>i128\<close>, \<open>Overflow\<close> unless the amount
  of the subscription is negative.\<close>

theorem topup_covers_intervals:
  assumes "subs s i = Some sub" and "in_i128 (prepaid_balance sub)"
  shows "case estimate_topup_for_intervals s i n of
      Ok topup \<Rightarrow> 0 \<le> topup \<and> (n = 0 \<longrightarrow> topup = 0)
        \<and> (n \<noteq> 0 \<longrightarrow> amount sub * int n \<le> prepaid_balance sub + topup)
        \<and> (\<forall>d. 0 \<le> d \<and> amount sub * int n \<le> prepaid_balance sub + d \<longrightarrow> topup \<le> d)
    | Err e \<Rightarrow> n \<noteq> 0 \<and> (0 \<le> amount sub \<longrightarrow> e = Overflow)
        \<and> (\<not> in_i128 (amount sub * int n) \<or> \<not> in_i128 (amount sub * int n - prepaid_balance sub))
    | Trap \<Rightarrow> False"
proof (cases "n = 0")
  case True
  with assms show ?thesis by (simp add: estimate_topup_for_intervals_def get_subscription_def)
next
  case False
  then have "0 < int n" by simp
  have "amount sub = 0 \<Longrightarrow> in_i128 (amount sub * int n)" by (simp add: i128_range I128_MAX_def)
  with assms False \<open>0 < int n\<close> show ?thesis
    by (auto simp: estimate_topup_for_intervals_def get_subscription_def safe_mul_def safe_sub_def checked_defs
        checked_i128_def zero_le_mult_iff)
qed

section \<open>Concrete subscriptions\<close>

definition demo_sub :: subscription where
  "demo_sub = \<lparr>subscriber = Address 3, merchant = Address 4, token = Address 9, amount = 10,
     interval_seconds = 100, last_payment_timestamp = 0, status = Active, prepaid_balance = 25,
     usage_enabled = True, lifetime_cap = Some 40, lifetime_charged = 0, start_time = 0,
     expires_at = None, grace_start_timestamp = None\<rparr>"

text \<open>Two subscriptions of different subscribers with the same merchant, and money for both.\<close>

definition demo_subs :: vault where
  "demo_subs = demo_vault\<lparr>
     sbs := (sbs demo_vault)\<lparr>next_id_key := Some 2,
       sub_key := [0 \<mapsto> demo_sub, 1 \<mapsto> demo_sub\<lparr>subscriber := Address 5, prepaid_balance := 0\<rparr>],
       merchant_subs_key := [Address 4 \<mapsto> [0, 1]], token_subs_key := [Address 9 \<mapsto> [0, 1]]\<rparr>,
     total_accounted_key := [Address 9 \<mapsto> 25],
     tokens := (\<lambda>_ h. if h = Address 0 then 25 else 1000)\<rparr>"

lemma demo_subs_fields [simp]:
  "adm demo_subs = adm demo_vault" "mer demo_subs = mer vault_init" "pln demo_subs = pln vault_init"
  "stm demo_subs = stm vault_init" "snp demo_subs = snp vault_init" "met demo_subs = met vault_init"
  "bil demo_subs = bil vault_init" "blocklist_key demo_subs = Map.empty" "lock_key demo_subs = Map.empty"
  "sbs demo_subs = (sbs vault_init)\<lparr>next_id_key := Some 2,
       sub_key := [0 \<mapsto> demo_sub, 1 \<mapsto> demo_sub\<lparr>subscriber := Address 5, prepaid_balance := 0\<rparr>],
       merchant_subs_key := [Address 4 \<mapsto> [0, 1]], token_subs_key := [Address 9 \<mapsto> [0, 1]]\<rparr>"
  "total_accounted_key demo_subs = [Address 9 \<mapsto> 25]"
  "tokens demo_subs = (\<lambda>_ h. if h = Address 0 then 25 else 1000)"
  by (simp_all add: demo_subs_def demo_vault_rest)

theorem paged_queries_complete_witness:
  "map subscriber (by_merchant.pages demo_subs (Address 4) 0 1 2) = [Address 3, Address 5]"
proof -
  have "by_merchant.pages demo_subs (Address 4) 0 1 2 = lookup_all (subs demo_subs) (merchant_index demo_subs (Address 4))"
    using paged_queries_complete [of 1 demo_subs "Address 4" 2 "Address 9"]
    by (simp add: MAX_SUBSCRIPTION_LIST_PAGE_def INDEX_BOUND_def get_merchant_subscription_count_def
        get_token_subscription_count_def merchant_index_def token_index_def vault_init_def)
  then show ?thesis by (simp add: merchant_index_def vault_init_def demo_sub_def)
qed

theorem subscriber_scan_complete_witness:
  "scan_all demo_subs (Address 5) 0 1 3 = [1]"
  using subscriber_scan_complete [of 1 demo_subs 3 "Address 5"]
  by (simp add: MAX_SUBSCRIPTION_LIST_PAGE_def next_id_of_def U32_MAX_def owned_def demo_sub_def vault_init_def
      upt_rec)

theorem topup_covers_intervals_witness:
  "estimate_topup_for_intervals demo_subs 0 4 = Ok 15 \<and> (10::int) * 4 \<le> 25 + 15"
proof -
  have sub: "subs demo_subs 0 = Some demo_sub" and r: "in_i128 (prepaid_balance demo_sub)"
    by (simp_all add: demo_sub_def in_i128_def I128_MIN_def I128_MAX_def)
  have e: "estimate_topup_for_intervals demo_subs 0 4 = Ok 15"
    by (simp add: estimate_topup_for_intervals_def get_subscription_def demo_sub_def safe_mul_def safe_sub_def
        checked_defs checked_i128_def in_i128_def I128_MIN_def I128_MAX_def)
  with topup_covers_intervals [OF sub r, of 4] show ?thesis by (simp add: demo_sub_def)
qed

end
