(* ===== verification/Blocklist.thy ===== *)
theory Blocklist
  imports Queries
begin

text \<open>
  \<open>blocklist.rs\<close>: subscribers barred from creating and funding subscriptions. The admin may bar
  anyone, a merchant only a subscriber it has a subscription with; only the admin lifts the bar.
\<close>

definition is_blocklisted :: "vault \<Rightarrow> address \<Rightarrow> bool" where
  "is_blocklisted s who \<longleftrightarrow> blocklist_key s who \<noteq> None"

definition require_not_blocklisted :: "vault \<Rightarrow> address \<Rightarrow> unit res" where
  "require_not_blocklisted s who = (if is_blocklisted s who then Err SubscriberBlocklisted else Ok ())"

fun some_live_subscription :: "vault \<Rightarrow> address \<Rightarrow> u32 list \<Rightarrow> bool" where
  "some_live_subscription s who [] = False"
| "some_live_subscription s who (i # ids) =
    (case get_subscription s i of
       Ok sub \<Rightarrow> if subscriber sub = who \<and> status sub \<noteq> Cancelled then True
                 else some_live_subscription s who ids
     | _ \<Rightarrow> some_live_subscription s who ids)"

definition has_merchant_subscription_with_subscriber :: "vault \<Rightarrow> address \<Rightarrow> address \<Rightarrow> bool" where
  "has_merchant_subscription_with_subscriber s m who = some_live_subscription s who (merchant_index s m)"

definition do_add_to_blocklist :: "env \<Rightarrow> address \<Rightarrow> address \<Rightarrow> string option \<Rightarrow> vault \<Rightarrow> unit res \<times> vault" where
  "do_add_to_blocklist env authorizer who why s =
     try_res (require_auth env authorizer) s (\<lambda>_.
     let is_admin = (case require_admin s of Ok admin \<Rightarrow> admin = authorizer | _ \<Rightarrow> False) in
     if \<not> is_admin \<and> \<not> has_merchant_subscription_with_subscriber s authorizer who then (Err Forbidden, s)
     else if blocklist_key s who \<noteq> None then (Err InvalidInput, s)
     else
       let entry = \<lparr>ble_subscriber = who, added_by = authorizer, added_at = ledger_timestamp env, ble_reason = why\<rparr>
       in (Ok (), publish ''blocklist_added''
             (BlocklistEv (BlocklistAddedEvent who authorizer (ledger_timestamp env) why))
             (s\<lparr>blocklist_key := (blocklist_key s)(who \<mapsto> entry)\<rparr>)))"

definition do_remove_from_blocklist :: "env \<Rightarrow> address \<Rightarrow> address \<Rightarrow> vault \<Rightarrow> unit res \<times> vault" where
  "do_remove_from_blocklist env admin who s =
     try_res (require_admin_auth env admin s) s (\<lambda>_.
     if blocklist_key s who = None then (Err NotFound, s)
     else (Ok (), publish ''blocklist_removed''
            (BlocklistEv (BlocklistRemovedEvent who admin (ledger_timestamp env)))
            (s\<lparr>blocklist_key := (blocklist_key s)(who := None)\<rparr>)))"

definition get_blocklist_entry :: "vault \<Rightarrow> address \<Rightarrow> blocklist_entry res" where
  "get_blocklist_entry s who = ok_or (blocklist_key s who) NotFound"

lemma require_not_blocklisted_Ok [ok_iff]:
  "require_not_blocklisted s who = Ok u \<longleftrightarrow> \<not> is_blocklisted s who"
  by (simp add: require_not_blocklisted_def)

lemma some_live_subscription_iff:
  "some_live_subscription s who ids \<longleftrightarrow>
     (\<exists>i \<in> set ids. \<exists>sub. subs s i = Some sub \<and> subscriber sub = who \<and> status sub \<noteq> Cancelled)"
  by (induction ids) (auto simp: get_subscription_def ok_or_def split: option.splits if_splits)

text \<open>Only the admin, or a merchant one of whose indexed subscriptions belongs to that
  subscriber and is not cancelled, can put a subscriber on the blocklist, each time with its own
  signature; only the admin can take one off. Adding records who did it and when, both change the
  status of that subscriber only, and neither touches balances, merchants or subscriptions.\<close>

theorem blocklist_authority:
  "(\<forall>t. do_add_to_blocklist env authorizer who why s = (Ok (), t) \<longrightarrow>
      authorized env authorizer
      \<and> (admin_key (adm s) = Some authorizer
         \<or> (\<exists>i \<in> set (merchant_index s authorizer). \<exists>sub. subs s i = Some sub \<and> subscriber sub = who \<and> status sub \<noteq> Cancelled))
      \<and> \<not> is_blocklisted s who
      \<and> get_blocklist_entry t who = Ok \<lparr>ble_subscriber = who, added_by = authorizer,
           added_at = ledger_timestamp env, ble_reason = why\<rparr>
      \<and> (\<forall>x. x \<noteq> who \<longrightarrow> is_blocklisted t x = is_blocklisted s x)
      \<and> sbs t = sbs s \<and> mer t = mer s \<and> tokens t = tokens s)
   \<and> (\<forall>t. do_remove_from_blocklist env admin who s = (Ok (), t) \<longrightarrow>
      authorized env admin \<and> admin_key (adm s) = Some admin
      \<and> is_blocklisted s who \<and> \<not> is_blocklisted t who
      \<and> (\<forall>x. x \<noteq> who \<longrightarrow> is_blocklisted t x = is_blocklisted s x)
      \<and> sbs t = sbs s \<and> mer t = mer s \<and> tokens t = tokens s)"
proof -
  have admin: "(case require_admin s of Ok a \<Rightarrow> a = authorizer | _ \<Rightarrow> False) \<longleftrightarrow> admin_key (adm s) = Some authorizer"
    by (cases "admin_key (adm s)") (simp_all add: require_admin_def)
  show ?thesis
    by (auto simp: do_add_to_blocklist_def do_remove_from_blocklist_def admin Let_def ok_iff is_blocklisted_def
        get_blocklist_entry_def has_merchant_subscription_with_subscriber_def some_live_subscription_iff)
qed

theorem blocklist_authority_witness:
  "let t = snd (do_add_to_blocklist demo_env (Address 4) (Address 3) None demo_subs)
   in is_blocklisted t (Address 3) \<and> \<not> is_blocklisted t (Address 5)"
proof -
  have "some_live_subscription demo_subs (Address 3) (merchant_index demo_subs (Address 4))"
    by (auto simp: some_live_subscription_iff merchant_index_def vault_init_def demo_sub_def)
  then have "fst (do_add_to_blocklist demo_env (Address 4) (Address 3) None demo_subs) = Ok ()"
    by (simp add: do_add_to_blocklist_def require_auth_def has_merchant_subscription_with_subscriber_def Let_def)
  then obtain t where t: "do_add_to_blocklist demo_env (Address 4) (Address 3) None demo_subs = (Ok (), t)"
    by (metis prod.collapse)
  with blocklist_authority [of demo_env "Address 4" "Address 3" None demo_subs] show ?thesis
    by (auto simp: is_blocklisted_def get_blocklist_entry_def ok_iff)
qed

end
