(* ===== verification/Statements.thy ===== *)
theory Statements
  imports Admin Safe_Math
begin

text \<open>
  \<open>statements.rs\<close>: the billing statements of a subscription. Rows are appended under consecutive
  sequence numbers, the oldest are folded into an aggregate by compaction, and the live ones are
  read in pages, by offset or by cursor, in either direction. The loops of the source are
  recursive functions over the sequence number.
\<close>

section \<open>Operations\<close>

definition set_retention_config :: "u32 \<Rightarrow> vault \<Rightarrow> vault" where
  "set_retention_config keep_recent s = s\<lparr>stm := (stm s)\<lparr>srtn_key := Some keep_recent\<rparr>\<rparr>"

definition get_retention_config :: "vault \<Rightarrow> u32" where
  "get_retention_config s = unwrap_or (srtn_key (stm s)) U32_MAX"

definition empty_aggregate :: billing_statement_aggregate where
  "empty_aggregate = \<lparr>pruned_count = 0, total_amount = 0,
     totals = \<lparr>acc_interval = 0, acc_usage = 0, acc_one_off = 0\<rparr>,
     oldest_period_start = None, newest_period_end = None\<rparr>"

definition get_compacted_aggregate :: "vault \<Rightarrow> u32 \<Rightarrow> billing_statement_aggregate" where
  "get_compacted_aggregate s i = unwrap_or (sagg_key (stm s) i) empty_aggregate"

abbreviation next_sequence :: "vault \<Rightarrow> u32 \<Rightarrow> u32" where
  "next_sequence s i \<equiv> unwrap_or (snext_key (stm s) i) 0"

definition get_total_statements :: "vault \<Rightarrow> u32 \<Rightarrow> u32" where
  "get_total_statements s i = unwrap_or (slive_key (stm s) i) 0"

definition append_statement ::
  "env \<Rightarrow> u32 \<Rightarrow> i128 \<Rightarrow> address \<Rightarrow> billing_charge_kind \<Rightarrow> u64 \<Rightarrow> u64 \<Rightarrow> vault \<Rightarrow> unit res \<times> vault" where
  "append_statement env i amt m k p_start p_end s =
    (if p_start > p_end then (Err InvalidInput, s)
     else if amt \<le> 0 then (Err InvalidAmount, s)
     else if k = Interval \<and> p_start = p_end then (Err InvalidInput, s)
     else
       let next = next_sequence s i;
           live = get_total_statements s i;
           statement = \<lparr>bs_subscription_id = i, sequence = next, charged_at = ledger_timestamp env,
             period_start = p_start, period_end = p_end, bs_amount = amt, bs_merchant = m, kind = k\<rparr>;
           s1 = s\<lparr>stm := (stm s)\<lparr>srow_key := (srow_key (stm s))((i, next) \<mapsto> statement)\<rparr>\<rparr>
       in try_res (ok_or (checked_add_u32 next 1) Overflow) s1 (\<lambda>next'.
          try_res (ok_or (checked_add_u32 live 1) Overflow) s1 (\<lambda>live'.
          (Ok (), s1\<lparr>stm := (stm s1)\<lparr>snext_key := (snext_key (stm s1))(i \<mapsto> next'),
                                     slive_key := (slive_key (stm s1))(i \<mapsto> live')\<rparr>\<rparr>))))"

subsection \<open>Compaction\<close>

text \<open>
  The accumulators of the loop (\<open>removed\<close>, \<open>amount\<close>, the three amounts by kind, \<open>oldest\<close>, \<open>newest\<close>)
  are the fields of an aggregate.
\<close>

fun add_to_kind :: "billing_charge_kind \<Rightarrow> i128 \<Rightarrow> accrued_totals \<Rightarrow> accrued_totals res" where
  "add_to_kind Interval x a = bind_res (safe_add (acc_interval a) x) (\<lambda>v. Ok (a\<lparr>acc_interval := v\<rparr>))"
| "add_to_kind Usage x a = bind_res (safe_add (acc_usage a) x) (\<lambda>v. Ok (a\<lparr>acc_usage := v\<rparr>))"
| "add_to_kind OneOff x a = bind_res (safe_add (acc_one_off a) x) (\<lambda>v. Ok (a\<lparr>acc_one_off := v\<rparr>))"

definition accumulate_row :: "billing_statement_aggregate \<Rightarrow> billing_statement \<Rightarrow> billing_statement_aggregate res" where
  "accumulate_row acc row =
     bind_res (safe_add (total_amount acc) (bs_amount row)) (\<lambda>amount.
     bind_res (add_to_kind (kind row) (bs_amount row) (totals acc)) (\<lambda>kinds.
     Ok (acc\<lparr>
       pruned_count := pruned_count acc + 1,
       total_amount := amount,
       totals := kinds,
       oldest_period_start := Some (case oldest_period_start acc of
         Some v \<Rightarrow> min v (period_start row) | None \<Rightarrow> period_start row),
       newest_period_end := Some (case newest_period_end acc of
         Some v \<Rightarrow> max v (period_end row) | None \<Rightarrow> period_end row)\<rparr>)))"

definition remove_row :: "u32 \<Rightarrow> u32 \<Rightarrow> vault \<Rightarrow> vault" where
  "remove_row i seq s = s\<lparr>stm := (stm s)\<lparr>srow_key := (srow_key (stm s))((i, seq) := None)\<rparr>\<rparr>"

function compact_loop ::
  "u32 \<Rightarrow> u32 \<Rightarrow> u32 \<Rightarrow> u32 \<Rightarrow> billing_statement_aggregate \<Rightarrow> vault \<Rightarrow> billing_statement_aggregate res \<times> vault" where
  "compact_loop i next target seq acc s =
    (if seq < next \<and> pruned_count acc < target then
       case srow_key (stm s) (i, seq) of
         Some row \<Rightarrow> try_res (accumulate_row acc row) s (\<lambda>acc'.
           compact_loop i next target (seq + 1) acc' (remove_row i seq s))
       | None \<Rightarrow> compact_loop i next target (seq + 1) acc s
     else (Ok acc, s))"
  by pat_completeness auto
termination by (relation "measure (\<lambda>(i, next, target, seq, acc, s). next - seq)") auto

declare compact_loop.simps [simp del]

definition merge_opt :: "(u64 \<Rightarrow> u64 \<Rightarrow> u64) \<Rightarrow> u64 option \<Rightarrow> u64 option \<Rightarrow> u64 option" where
  "merge_opt f x y = (case (x, y) of (Some a, Some b) \<Rightarrow> Some (f a b) | (None, Some b) \<Rightarrow> Some b | (a, None) \<Rightarrow> a)"

definition merge_aggregate ::
  "billing_statement_aggregate \<Rightarrow> billing_statement_aggregate \<Rightarrow> billing_statement_aggregate res" where
  "merge_aggregate agg acc =
     bind_res (ok_or (checked_add_u32 (pruned_count agg) (pruned_count acc)) Overflow) (\<lambda>n.
     bind_res (safe_add (total_amount agg) (total_amount acc)) (\<lambda>tot.
     bind_res (safe_add (acc_interval (totals agg)) (acc_interval (totals acc))) (\<lambda>a.
     bind_res (safe_add (acc_usage (totals agg)) (acc_usage (totals acc))) (\<lambda>b.
     bind_res (safe_add (acc_one_off (totals agg)) (acc_one_off (totals acc))) (\<lambda>c.
     Ok \<lparr>pruned_count = n, total_amount = tot,
         totals = \<lparr>acc_interval = a, acc_usage = b, acc_one_off = c\<rparr>,
         oldest_period_start = merge_opt min (oldest_period_start agg) (oldest_period_start acc),
         newest_period_end = merge_opt max (newest_period_end agg) (newest_period_end acc)\<rparr>)))))"

definition compact_subscription_statements ::
  "u32 \<Rightarrow> u32 option \<Rightarrow> vault \<Rightarrow> billing_compaction_summary res \<times> vault" where
  "compact_subscription_statements i keep_override s =
    (let keep_recent = unwrap_or keep_override (get_retention_config s);
         next = next_sequence s i;
         live = get_total_statements s i
     in if live \<le> keep_recent \<or> live = 0
        then (Ok \<lparr>cs_subscription_id = i, cs_pruned_count = 0, kept_count = live, total_pruned_amount = 0\<rparr>, s)
        else
          let target = nat ((case safe_sub (int live) (int keep_recent) of Ok d \<Rightarrow> d | _ \<Rightarrow> 0) mod 2 ^ 32) in
          try_op (compact_loop i next target (next - live) empty_aggregate s) (\<lambda>acc s1.
          try_res (bind_res (safe_add (acc_interval (totals acc)) (acc_usage (totals acc)))
                     (\<lambda>x. safe_add x (acc_one_off (totals acc)))) s1 (\<lambda>by_kind.
          if total_amount acc \<noteq> by_kind then (Err Underflow, s1)
          else
            try_res (merge_aggregate (get_compacted_aggregate s1 i) acc) s1 (\<lambda>aggregate.
            let kept = live - pruned_count acc;
                s2 = s1\<lparr>stm := (stm s1)\<lparr>sagg_key := (sagg_key (stm s1))(i \<mapsto> aggregate),
                                        slive_key := (slive_key (stm s1))(i \<mapsto> kept)\<rparr>\<rparr>
            in (Ok \<lparr>cs_subscription_id = i, cs_pruned_count = pruned_count acc, kept_count = kept,
                   total_pruned_amount = total_amount acc\<rparr>, s2)))))"

subsection \<open>Pages\<close>

text \<open>The four loops: by offset and by cursor, downwards and upwards.\<close>

fun offset_desc ::
  "(u32 \<Rightarrow> billing_statement option) \<Rightarrow> u32 \<Rightarrow> u32 \<Rightarrow> u32 \<Rightarrow> u32 \<Rightarrow> u32 \<Rightarrow> billing_statement list \<Rightarrow>
   billing_statement list \<times> u32 option" where
  "offset_desc rows offset limit 0 skipped taken out = (out, None)"
| "offset_desc rows offset limit (Suc seq) skipped taken out =
    (case rows seq of
       None \<Rightarrow> offset_desc rows offset limit seq skipped taken out
     | Some row \<Rightarrow>
         if skipped < offset then offset_desc rows offset limit seq (skipped + 1) taken out
         else if taken + 1 \<ge> limit then (out @ [row], if seq > 0 then Some (seq - 1) else None)
         else offset_desc rows offset limit seq skipped (taken + 1) (out @ [row]))"

function offset_asc ::
  "(u32 \<Rightarrow> billing_statement option) \<Rightarrow> u32 \<Rightarrow> u32 \<Rightarrow> u32 \<Rightarrow> u32 \<Rightarrow> u32 \<Rightarrow> u32 \<Rightarrow> billing_statement list \<Rightarrow>
   billing_statement list \<times> u32 option" where
  "offset_asc rows offset limit next seq skipped taken out =
    (if seq < next then
       case rows seq of
         None \<Rightarrow> offset_asc rows offset limit next (seq + 1) skipped taken out
       | Some row \<Rightarrow>
           if skipped < offset then offset_asc rows offset limit next (seq + 1) (skipped + 1) taken out
           else if taken + 1 \<ge> limit then (out @ [row], if seq + 1 < next then Some (seq + 1) else None)
           else offset_asc rows offset limit next (seq + 1) skipped (taken + 1) (out @ [row])
     else (out, None))"
  by pat_completeness auto
termination by (relation "measure (\<lambda>(rows, offset, limit, next, seq, skipped, taken, out). next - seq)") auto

declare offset_asc.simps [simp del]

function cursor_desc ::
  "(u32 \<Rightarrow> billing_statement option) \<Rightarrow> u32 \<Rightarrow> u32 \<Rightarrow> u32 \<Rightarrow> u32 \<Rightarrow> billing_statement list \<Rightarrow>
   billing_statement list \<times> u32 option" where
  "cursor_desc rows limit min_seq seq taken out =
    (let continue = (\<lambda>taken out. if seq \<le> min_seq then (out, None) else cursor_desc rows limit min_seq (seq - 1) taken out)
     in case rows seq of
       None \<Rightarrow> continue taken out
     | Some row \<Rightarrow>
         if taken + 1 \<ge> limit then (out @ [row], if seq > min_seq then Some (seq - 1) else None)
         else continue (taken + 1) (out @ [row]))"
  by pat_completeness auto
termination by (relation "measure (\<lambda>(rows, limit, min_seq, seq, taken, out). seq)") auto

declare cursor_desc.simps [simp del]

function cursor_asc ::
  "(u32 \<Rightarrow> billing_statement option) \<Rightarrow> u32 \<Rightarrow> u32 \<Rightarrow> u32 \<Rightarrow> u32 \<Rightarrow> billing_statement list \<Rightarrow>
   billing_statement list \<times> u32 option" where
  "cursor_asc rows limit max_seq seq taken out =
    (if seq \<le> max_seq then
       let continue = (\<lambda>taken out. if seq = max_seq then (out, None) else cursor_asc rows limit max_seq (seq + 1) taken out)
       in case rows seq of
         None \<Rightarrow> continue taken out
       | Some row \<Rightarrow>
           if taken + 1 \<ge> limit then (out @ [row], if seq < max_seq then Some (seq + 1) else None)
           else continue (taken + 1) (out @ [row])
     else (out, None))"
  by pat_completeness auto
termination by (relation "measure (\<lambda>(rows, limit, max_seq, seq, taken, out). Suc max_seq - seq)") auto

declare cursor_asc.simps [simp del]

abbreviation rows_of :: "vault \<Rightarrow> u32 \<Rightarrow> u32 \<Rightarrow> billing_statement option" where
  "rows_of s i \<equiv> \<lambda>seq. srow_key (stm s) (i, seq)"

definition get_statements_by_subscription_offset ::
  "vault \<Rightarrow> u32 \<Rightarrow> u32 \<Rightarrow> u32 \<Rightarrow> bool \<Rightarrow> billing_statements_page res" where
  "get_statements_by_subscription_offset s i offset limit newest_first =
    (if limit = 0 then Err InvalidInput
     else
       let n = get_total_statements s i in
       if n = 0 \<or> offset \<ge> n then Ok \<lparr>statements = [], next_cursor = None, total = n\<rparr>
       else
         let next = next_sequence s i;
             p = (if newest_first then offset_desc (rows_of s i) offset limit next 0 0 []
                  else offset_asc (rows_of s i) offset limit next (next - get_total_statements s i) 0 0 [])
         in Ok \<lparr>statements = fst p, next_cursor = snd p, total = n\<rparr>)"

definition get_statements_by_subscription_cursor ::
  "vault \<Rightarrow> u32 \<Rightarrow> u32 option \<Rightarrow> u32 \<Rightarrow> bool \<Rightarrow> billing_statements_page res" where
  "get_statements_by_subscription_cursor s i cursor limit newest_first =
    (if limit = 0 then Err InvalidInput
     else
       let n = get_total_statements s i;
           empty = \<lparr>statements = [], next_cursor = None, total = n\<rparr>;
           next = next_sequence s i
       in if n = 0 then Ok empty
          else if next = 0 then Ok empty
          else
            let max_seq = next - 1;
                min_seq = next - get_total_statements s i;
                start = unwrap_or cursor (if newest_first then max_seq else min_seq)
            in if start > max_seq \<or> start < min_seq then Ok empty
               else
                 let p = (if newest_first then cursor_desc (rows_of s i) limit min_seq start 0 []
                          else cursor_asc (rows_of s i) limit max_seq start 0 [])
                 in Ok \<lparr>statements = fst p, next_cursor = snd p, total = n\<rparr>)"

section \<open>The rows of a subscription\<close>

text \<open>
  The abstract view of one subscription's statements: the list of its live rows, oldest first. The
  concrete storage represents it when the rows stored are exactly those from \<open>next - live\<close> up to
  \<open>next\<close>, and every row carries its own key.
\<close>

definition live_rows :: "vault \<Rightarrow> u32 \<Rightarrow> billing_statement list" where
  "live_rows s i = map (\<lambda>q. the (rows_of s i q)) [next_sequence s i - get_total_statements s i ..< next_sequence s i]"

definition statements_ok :: "vault \<Rightarrow> u32 \<Rightarrow> bool" where
  "statements_ok s i \<longleftrightarrow>
     get_total_statements s i \<le> next_sequence s i \<and> next_sequence s i \<le> U32_MAX \<and>
     (\<forall>q. rows_of s i q \<noteq> None \<longleftrightarrow> next_sequence s i - get_total_statements s i \<le> q \<and> q < next_sequence s i) \<and>
     (\<forall>q row. rows_of s i q = Some row \<longrightarrow> sequence row = q \<and> bs_subscription_id row = i \<and> 0 < bs_amount row)"

lemma statements_ok_cong: "stm t = stm s \<Longrightarrow> statements_ok t i = statements_ok s i"
  by (simp add: statements_ok_def get_total_statements_def)

lemma live_rows_cong: "stm t = stm s \<Longrightarrow> live_rows t i = live_rows s i"
  by (simp add: live_rows_def get_total_statements_def)

lemma statements_ok_init: "statements_ok vault_init i"
  by (simp add: statements_ok_def vault_init_def get_total_statements_def)

lemma length_live_rows: "statements_ok s i \<Longrightarrow> length (live_rows s i) = get_total_statements s i"
  by (simp add: live_rows_def statements_ok_def)

lemma nth_live_rows:
  assumes "statements_ok s i" and "n < get_total_statements s i"
  shows "rows_of s i (next_sequence s i - get_total_statements s i + n) = Some (live_rows s i ! n)"
    and "sequence (live_rows s i ! n) = next_sequence s i - get_total_statements s i + n"
proof -
  let ?q = "next_sequence s i - get_total_statements s i + n"
  have le: "get_total_statements s i \<le> next_sequence s i" using assms(1) by (simp add: statements_ok_def)
  have "rows_of s i ?q \<noteq> None" using assms by (auto simp: statements_ok_def)
  moreover have "live_rows s i ! n = the (rows_of s i ?q)"
    using assms(2) le by (simp add: live_rows_def)
  ultimately show "rows_of s i ?q = Some (live_rows s i ! n)" by auto
  with assms(1) show "sequence (live_rows s i ! n) = ?q" by (auto simp: statements_ok_def)
qed

section \<open>Appending\<close>

lemma append_Ok:
  assumes "append_statement env i amt m k a b s = (Ok u, t)"
  shows "0 < amt" and "a \<le> b" and "k = Interval \<Longrightarrow> a < b" and "next_sequence s i < U32_MAX"
    and "t = s\<lparr>stm := (stm s)\<lparr>
        srow_key := (srow_key (stm s))((i, next_sequence s i) \<mapsto>
          \<lparr>bs_subscription_id = i, sequence = next_sequence s i, charged_at = ledger_timestamp env,
           period_start = a, period_end = b, bs_amount = amt, bs_merchant = m, kind = k\<rparr>),
        snext_key := (snext_key (stm s))(i \<mapsto> next_sequence s i + 1),
        slive_key := (slive_key (stm s))(i \<mapsto> get_total_statements s i + 1)\<rparr>\<rparr>"
  using assms by (auto simp: append_statement_def Let_def ok_iff)

text \<open>A failed append writes at most a row past the end, and only statement storage.\<close>

lemma append_frame:
  "ends (\<lambda>r t. t = s\<lparr>stm := stm t\<rparr> \<and> r \<noteq> Trap \<and> snext_key (stm t) = (if is_ok r then (snext_key (stm s))(i \<mapsto> next_sequence s i + 1) else snext_key (stm s)))
     (append_statement env i amt m k a b s)"
  unfolding append_statement_def Let_def
  by (intro ends_intro) (auto simp: ok_iff)

lemma append_other:
  assumes "append_statement env i amt m k a b s = (Ok u, t)" and "j \<noteq> i"
  shows "statements_ok t j = statements_ok s j" and "live_rows t j = live_rows s j"
  using append_Ok(5) [OF assms(1)] assms(2)
  by (simp_all add: statements_ok_def live_rows_def get_total_statements_def)

lemma append_represents:
  assumes ok: "statements_ok s i" and app: "append_statement env i amt m k a b s = (Ok u, t)"
  shows "statements_ok t i"
    and "live_rows t i = live_rows s i @ [\<lparr>bs_subscription_id = i, sequence = next_sequence s i,
           charged_at = ledger_timestamp env, period_start = a, period_end = b, bs_amount = amt,
           bs_merchant = m, kind = k\<rparr>]"
proof -
  note t = append_Ok [OF app]
  have le: "get_total_statements s i \<le> next_sequence s i"
    using ok by (simp add: statements_ok_def)
  have nxt: "next_sequence t i = Suc (next_sequence s i)" "get_total_statements t i = Suc (get_total_statements s i)"
    by (simp_all add: t(5) get_total_statements_def)
  show "statements_ok t i"
    using ok le t(1,4) unfolding statements_ok_def nxt
    by (auto simp: t(5) split: if_splits)
  have "[next_sequence s i - get_total_statements s i ..< Suc (next_sequence s i)]
      = [next_sequence s i - get_total_statements s i ..< next_sequence s i] @ [next_sequence s i]"
    by simp
  then show "live_rows t i = live_rows s i @ [\<lparr>bs_subscription_id = i, sequence = next_sequence s i,
           charged_at = ledger_timestamp env, period_start = a, period_end = b, bs_amount = amt,
           bs_merchant = m, kind = k\<rparr>]"
    unfolding live_rows_def nxt by (auto simp: t(5))
qed

section \<open>Pages are slices\<close>

lemma offset_asc_slice:
  assumes "\<forall>q. seq \<le> q \<and> q < next \<longrightarrow> rows q \<noteq> None"
    and "skipped \<le> offset" and "taken < limit" and "taken = 0 \<or> skipped = offset"
  shows "fst (offset_asc rows offset limit next seq skipped taken out) =
    out @ take (limit - taken) (drop (offset - skipped) (map (\<lambda>q. the (rows q)) [seq..<next]))"
  using assms
proof (induction rows offset limit "next" seq skipped taken out rule: offset_asc.induct)
  case (1 rows offset limit "next" seq skipped taken out)
  show ?case
  proof (cases "seq < next")
    case False
    then show ?thesis by (subst offset_asc.simps) simp
  next
    case True
    then obtain row where row: "rows seq = Some row" using "1.prems"(1) by blast
    have cons: "[seq..<next] = seq # [Suc seq..<next]" using True by (rule upt_conv_Cons)
    show ?thesis
      using "1.prems" "1.IH"(2,3) [OF True row] True row
      by (subst offset_asc.simps)
        (auto simp: cons Suc_diff_Suc Suc_diff_le drop_Cons' take_Cons' diff_Suc split: nat.split)
  qed
qed

lemma offset_desc_slice:
  assumes "\<forall>q. lo \<le> q \<and> q < seq \<longrightarrow> rows q \<noteq> None" and "\<forall>q. q < lo \<longrightarrow> rows q = None"
    and "skipped \<le> offset" and "taken < limit" and "taken = 0 \<or> skipped = offset"
  shows "fst (offset_desc rows offset limit seq skipped taken out) =
    out @ take (limit - taken) (drop (offset - skipped) (rev (map (\<lambda>q. the (rows q)) [lo..<seq])))"
  using assms
proof (induction seq arbitrary: skipped taken out)
  case 0
  then show ?case by simp
next
  case (Suc seq)
  show ?case
  proof (cases "lo \<le> seq")
    case False
    then show ?thesis using Suc by auto
  next
    case True
    then obtain row where row: "rows seq = Some row" using Suc.prems(1) by blast
    show ?thesis
      using Suc.prems Suc.IH [of "skipped + 1"] Suc.IH [of skipped "taken + 1"] row True
      by (auto simp: Suc_diff_Suc Suc_diff_le drop_Cons' take_Cons' split: nat.split)
  qed
qed

lemma cursor_asc_slice:
  assumes "\<forall>q. seq \<le> q \<and> q \<le> max_seq \<longrightarrow> rows q \<noteq> None" and "seq \<le> max_seq" and "taken < limit"
  shows "cursor_asc rows limit max_seq seq taken out =
    (out @ take (limit - taken) (map (\<lambda>q. the (rows q)) [seq..<Suc max_seq]),
     if seq + (limit - taken) \<le> max_seq then Some (seq + (limit - taken)) else None)"
  using assms
proof (induction "max_seq - seq" arbitrary: seq taken out)
  case 0
  then obtain row where row: "rows max_seq = Some row" by auto
  from 0 have "seq = max_seq" by simp
  with 0 row show ?case by (subst cursor_asc.simps) (auto simp: Let_def take_Cons')
next
  case (Suc d)
  then have seq: "seq < max_seq" by simp
  then obtain row where row: "rows seq = Some row" using Suc.prems(1) by force
  have cons: "[seq..<Suc max_seq] = seq # [Suc seq..<Suc max_seq]" using seq by (simp add: upt_conv_Cons)
  have IH: "taken' < limit \<Longrightarrow> cursor_asc rows limit max_seq (Suc seq) taken' out' =
    (out' @ take (limit - taken') (map (\<lambda>q. the (rows q)) [Suc seq..<Suc max_seq]),
     if Suc seq + (limit - taken') \<le> max_seq then Some (Suc seq + (limit - taken')) else None)" for taken' out'
    using Suc.prems Suc.hyps(2) seq by (intro Suc.hyps(1)) auto
  show ?case
    using Suc.prems(3) seq row
    by (subst cursor_asc.simps)
      (auto simp: Let_def cons IH take_Cons' Suc_diff_Suc simp del: upt_Suc)
qed

lemma cursor_desc_slice:
  assumes "\<forall>q. min_seq \<le> q \<and> q \<le> seq \<longrightarrow> rows q \<noteq> None" and "min_seq \<le> seq" and "taken < limit"
  shows "cursor_desc rows limit min_seq seq taken out =
    (out @ take (limit - taken) (rev (map (\<lambda>q. the (rows q)) [min_seq..<Suc seq])),
     if min_seq + (limit - taken) \<le> seq then Some (seq - (limit - taken)) else None)"
  using assms
proof (induction "seq - min_seq" arbitrary: seq taken out)
  case 0
  then obtain row where row: "rows min_seq = Some row" by auto
  from 0 have "seq = min_seq" by simp
  with 0 row show ?case by (subst cursor_desc.simps) (auto simp: Let_def take_Cons')
next
  case (Suc d)
  then obtain p where seq: "seq = Suc p" "min_seq \<le> p" by (cases seq) auto
  then obtain row where row: "rows seq = Some row" using Suc.prems(1) by force
  have IH: "taken' < limit \<Longrightarrow> cursor_desc rows limit min_seq p taken' out' =
    (out' @ take (limit - taken') (rev (map (\<lambda>q. the (rows q)) [min_seq..<Suc p])),
     if min_seq + (limit - taken') \<le> p then Some (p - (limit - taken')) else None)" for taken' out'
    using Suc.prems Suc.hyps(2) seq by (intro Suc.hyps(1)) auto
  show ?case
    using Suc.prems(3) seq row
    by (subst cursor_desc.simps)
      (auto simp: Let_def IH take_Cons' simp del: upt_Suc simp: upt_Suc [of _ "Suc p"])
qed

lemma rows_present:
  assumes "statements_ok s i"
  shows "\<forall>q. next_sequence s i - get_total_statements s i \<le> q \<and> q < next_sequence s i \<longrightarrow> rows_of s i q \<noteq> None"
    and "\<forall>q. q < next_sequence s i - get_total_statements s i \<longrightarrow> rows_of s i q = None"
  using assms unfolding statements_ok_def by (blast, meson not_le)

text \<open>C32. Offset pages are exact slices: for every subscription whose rows are well formed, a page
  holds the \<open>limit\<close> live statements after the first \<open>offset\<close> ones, in the chosen direction, and reports
  the true total; only a limit of zero is refused.\<close>

theorem offset_page_is_slice:
  assumes "statements_ok s i"
  shows "if limit = 0
     then get_statements_by_subscription_offset s i offset limit newest_first = Err InvalidInput
     else \<exists>c. get_statements_by_subscription_offset s i offset limit newest_first = Ok
       \<lparr>statements = take limit (drop offset (if newest_first then rev (live_rows s i) else live_rows s i)),
        next_cursor = c, total = length (live_rows s i)\<rparr>"
proof -
  let ?lo = "next_sequence s i - get_total_statements s i"
  note rows = rows_present [OF assms]
  have up: "fst (offset_asc (rows_of s i) offset limit (next_sequence s i) ?lo 0 0 [])
      = take limit (drop offset (live_rows s i))" if "0 < limit"
    using offset_asc_slice [of ?lo "next_sequence s i" "rows_of s i" 0 offset 0 limit "[]"] rows(1) that
    by (simp add: live_rows_def)
  have down: "fst (offset_desc (rows_of s i) offset limit (next_sequence s i) 0 0 [])
      = take limit (drop offset (rev (live_rows s i)))" if "0 < limit"
    using offset_desc_slice [of ?lo "next_sequence s i" "rows_of s i" 0 offset 0 limit "[]"] rows that
    by (simp add: live_rows_def)
  show ?thesis
    using up down length_live_rows [OF assms]
    by (auto simp: get_statements_by_subscription_offset_def Let_def)
qed

lemma drop_rev_upt: "n \<le> b - a \<Longrightarrow> drop n (rev [a..<b]) = rev [a..<b - n]"
  by (cases "a \<le> b") (simp_all add: drop_rev take_upt)

text \<open>A page read from a position \<open>n\<close> of the live rows, counted in the direction of reading.\<close>

definition cursor_at :: "vault \<Rightarrow> u32 \<Rightarrow> bool \<Rightarrow> nat \<Rightarrow> u32" where
  "cursor_at s i newest_first n =
    (if newest_first then next_sequence s i - 1 - n
     else next_sequence s i - get_total_statements s i + n)"

definition reading :: "vault \<Rightarrow> u32 \<Rightarrow> bool \<Rightarrow> billing_statement list" where
  "reading s i newest_first = (if newest_first then rev (live_rows s i) else live_rows s i)"

lemma cursor_page:
  assumes ok: "statements_ok s i" and "0 < limit" and n: "n < length (reading s i newest_first)"
    and c: "c = Some (cursor_at s i newest_first n) \<or> c = None \<and> n = 0"
  shows "get_statements_by_subscription_cursor s i c limit newest_first = Ok
    \<lparr>statements = take limit (drop n (reading s i newest_first)),
     next_cursor = (if n + limit < length (reading s i newest_first)
       then Some (cursor_at s i newest_first (n + limit)) else None),
     total = length (reading s i newest_first)\<rparr>"
proof -
  let ?next = "next_sequence s i" and ?live = "get_total_statements s i"
  let ?start = "cursor_at s i newest_first n"
  note rows = rows_present(1) [OF ok]
  have len: "length (reading s i newest_first) = ?live"
    using length_live_rows [OF ok] by (simp add: reading_def)
  have le: "?live \<le> ?next" "n < ?live" "0 < ?next" using ok n len by (auto simp: statements_ok_def)
  have start: "unwrap_or c (if newest_first then ?next - 1 else ?next - ?live) = ?start"
    using c by (auto simp: cursor_at_def)
  have range: "?next - ?live \<le> ?start" "?start \<le> ?next - 1" using le by (auto simp: cursor_at_def)
  have up: "cursor_asc (rows_of s i) limit (?next - 1) (?next - ?live + n) 0 [] =
      (take limit (drop n (live_rows s i)),
       if ?next - ?live + n + limit \<le> ?next - 1 then Some (?next - ?live + n + limit) else None)"
  proof -
    have "?next - ?live + n \<le> ?next - 1" and "Suc (?next - 1) = ?next" using le by simp_all
    moreover have "rows_of s i q \<noteq> None" if "?next - ?live + n \<le> q \<and> q \<le> ?next - 1" for q
      using rows that le by (meson add_leD1 le_less_trans diff_less zero_less_one)
    ultimately show ?thesis
      using cursor_asc_slice [of "?next - ?live + n" "?next - 1" "rows_of s i" 0 limit "[]"] assms(2)
      by (simp add: live_rows_def drop_map del: upt_Suc One_nat_def)
  qed
  have down: "cursor_desc (rows_of s i) limit (?next - ?live) (?next - 1 - n) 0 [] =
      (take limit (drop n (rev (live_rows s i))),
       if ?next - ?live + limit \<le> ?next - 1 - n then Some (?next - 1 - n - limit) else None)"
  proof -
    have "drop n (rev (live_rows s i)) = rev (map (\<lambda>q. the (rows_of s i q)) [?next - ?live..<?next - n])"
      using le by (simp add: live_rows_def rev_map drop_map drop_rev_upt)
    moreover have "Suc (?next - 1 - n) = ?next - n" using le by simp
    moreover have "?next - ?live \<le> ?next - 1 - n" using le by simp
    moreover have "rows_of s i q \<noteq> None" if "?next - ?live \<le> q \<and> q \<le> ?next - 1 - n" for q
      using rows that le by (meson le_less_trans diff_less diff_le_self zero_less_one)
    ultimately show ?thesis
      using cursor_desc_slice [of "?next - ?live" "?next - 1 - n" "rows_of s i" 0 limit "[]"] assms(2)
      by (simp del: upt_Suc One_nat_def)
  qed
  show ?thesis
    unfolding get_statements_by_subscription_cursor_def Let_def start len
    using range le assms(2) up down
    by (auto simp: reading_def cursor_at_def ac_simps split: if_splits)
qed

text \<open>A client that follows the cursors, with \<open>fuel\<close> pages at most.\<close>

fun cursor_walk :: "vault \<Rightarrow> u32 \<Rightarrow> u32 option \<Rightarrow> u32 \<Rightarrow> bool \<Rightarrow> nat \<Rightarrow> billing_statement list" where
  "cursor_walk s i c limit newest_first 0 = []"
| "cursor_walk s i c limit newest_first (Suc fuel) =
    (case get_statements_by_subscription_cursor s i c limit newest_first of
       Ok page \<Rightarrow> statements page @
         (case next_cursor page of None \<Rightarrow> [] | Some c' \<Rightarrow> cursor_walk s i (Some c') limit newest_first fuel)
     | _ \<Rightarrow> [])"

lemma cursor_walk_from:
  assumes "statements_ok s i" and "0 < limit" and "n < length (reading s i newest_first)"
    and "c = Some (cursor_at s i newest_first n) \<or> c = None \<and> n = 0"
    and "length (reading s i newest_first) \<le> n + fuel"
  shows "cursor_walk s i c limit newest_first fuel = drop n (reading s i newest_first)"
  using assms(3-5)
proof (induction fuel arbitrary: n c)
  case 0
  then show ?case by simp
next
  case (Suc fuel)
  have "take limit (drop n xs) @ drop (n + limit) xs = drop n xs" for xs :: "billing_statement list"
    by (metis append_take_drop_id drop_drop add.commute)
  then show ?case
    using cursor_page [OF assms(1,2) Suc.prems(1,2)] Suc.IH [of "n + limit"] Suc.prems assms(2)
    by auto
qed

text \<open>C31. Cursor pagination visits everything once: starting without a cursor and following the
  returned cursors, with any positive page size and in either direction, a reader receives exactly
  the live statements of the subscription, each once and in order, within as many pages as there
  are statements.\<close>

theorem cursor_walk_complete:
  assumes "statements_ok s i" and "0 < limit" and "length (live_rows s i) \<le> fuel"
  shows "cursor_walk s i None limit newest_first fuel =
    (if newest_first then rev (live_rows s i) else live_rows s i)"
proof (cases "live_rows s i = []")
  case True
  then have "get_total_statements s i = 0" using length_live_rows [OF assms(1)] by simp
  with True assms(2) show ?thesis
    by (cases fuel) (simp_all add: get_statements_by_subscription_cursor_def Let_def)
next
  case False
  then show ?thesis
    using cursor_walk_from [OF assms(1,2), of 0 newest_first None fuel] assms(3)
    by (simp add: reading_def)
qed

section \<open>Compaction conserves the books\<close>

fun of_kind :: "billing_charge_kind \<Rightarrow> accrued_totals \<Rightarrow> i128" where
  "of_kind Interval a = acc_interval a"
| "of_kind Usage a = acc_usage a"
| "of_kind OneOff a = acc_one_off a"

definition amounts :: "billing_statement list \<Rightarrow> int" where
  "amounts rows = sum_list (map bs_amount rows)"

definition amounts_of :: "billing_charge_kind \<Rightarrow> billing_statement list \<Rightarrow> int" where
  "amounts_of k rows = amounts (filter (\<lambda>row. kind row = k) rows)"

text \<open>What is on the books of a subscription: the aggregate of pruned rows plus the live rows.\<close>

definition booked :: "vault \<Rightarrow> u32 \<Rightarrow> int" where
  "booked s i = total_amount (get_compacted_aggregate s i) + amounts (live_rows s i)"

definition booked_of :: "billing_charge_kind \<Rightarrow> vault \<Rightarrow> u32 \<Rightarrow> int" where
  "booked_of k s i = of_kind k (totals (get_compacted_aggregate s i)) + amounts_of k (live_rows s i)"

lemma amounts_simps [simp]:
  "amounts [] = 0" "amounts (row # rows) = bs_amount row + amounts rows"
  "amounts (xs @ ys) = amounts xs + amounts ys"
  "amounts_of k [] = 0" "amounts_of k (xs @ ys) = amounts_of k xs + amounts_of k ys"
  "amounts_of k (row # rows) = (if kind row = k then bs_amount row else 0) + amounts_of k rows"
  by (simp_all add: amounts_def amounts_of_def)

lemma accumulate_row_Ok:
  assumes "accumulate_row acc row = Ok acc'"
  shows "pruned_count acc' = pruned_count acc + 1" and "total_amount acc' = total_amount acc + bs_amount row"
    and "of_kind k (totals acc') = of_kind k (totals acc) + (if kind row = k then bs_amount row else 0)"
proof -
  from assms obtain ks where ks: "add_to_kind (kind row) (bs_amount row) (totals acc) = Ok ks"
    and acc': "pruned_count acc' = pruned_count acc + 1" "total_amount acc' = total_amount acc + bs_amount row"
      "totals acc' = ks"
    unfolding accumulate_row_def by (auto simp: ok_iff)
  show "pruned_count acc' = pruned_count acc + 1" and "total_amount acc' = total_amount acc + bs_amount row"
    by (fact acc')+
  show "of_kind k (totals acc') = of_kind k (totals acc) + (if kind row = k then bs_amount row else 0)"
    unfolding acc'(3) using ks by (cases "kind row"; cases k) (auto simp: ok_iff)
qed

definition erase_range :: "u32 \<Rightarrow> u32 \<Rightarrow> u32 \<Rightarrow> (u32 \<times> u32 \<rightharpoonup> 'v) \<Rightarrow> u32 \<times> u32 \<rightharpoonup> 'v" where
  "erase_range i a b m = (\<lambda>key. if fst key = i \<and> a \<le> snd key \<and> snd key < b then None else m key)"

definition erase_rows :: "u32 \<Rightarrow> u32 \<Rightarrow> u32 \<Rightarrow> vault \<Rightarrow> vault" where
  "erase_rows i a b s = s\<lparr>stm := (stm s)\<lparr>srow_key := erase_range i a b (srow_key (stm s))\<rparr>\<rparr>"

lemma erase_rows_none [simp]: "erase_rows i a a s = s"
proof -
  have "erase_range i a a (srow_key (stm s)) = srow_key (stm s)"
    by (rule ext) (auto simp: erase_range_def)
  then show ?thesis by (simp add: erase_rows_def)
qed

lemma erase_rows_step:
  assumes "a < b"
  shows "erase_rows i (Suc a) b (remove_row i a s) = erase_rows i a b s"
proof -
  have "erase_range i (Suc a) b ((srow_key (stm s))((i, a) := None)) = erase_range i a b (srow_key (stm s))"
    using assms by (intro ext) (auto simp: erase_range_def Suc_le_eq order_le_less)
  then show ?thesis by (simp add: erase_rows_def remove_row_def)
qed

lemma compact_loop_step:
  "seq < next \<Longrightarrow> pruned_count acc < target \<Longrightarrow> srow_key (stm s) (i, seq) = Some row \<Longrightarrow>
   accumulate_row acc row = Ok acc' \<Longrightarrow>
   compact_loop i next target seq acc s = compact_loop i next target (Suc seq) acc' (remove_row i seq s)"
  "\<not> (seq < next \<and> pruned_count acc < target) \<Longrightarrow> compact_loop i next target seq acc s = (Ok acc, s)"
  by (simp_all add: compact_loop.simps [of i "next" target seq acc s] del: de_Morgan_conj not_less)

lemma compact_loop_Ok:
  assumes "\<forall>q. seq \<le> q \<and> q < seq + n \<longrightarrow> rows_of s i q \<noteq> None" and "seq + n \<le> next"
    and "target = pruned_count acc + n"
    and "compact_loop i next target seq acc s = (Ok acc', t)"
  shows "t = erase_rows i seq (seq + n) s \<and> pruned_count acc' = target
    \<and> total_amount acc' = total_amount acc + amounts (map (\<lambda>q. the (rows_of s i q)) [seq..<seq + n])
    \<and> (\<forall>k. of_kind k (totals acc') = of_kind k (totals acc)
         + amounts_of k (map (\<lambda>q. the (rows_of s i q)) [seq..<seq + n]))"
  using assms
proof (induction n arbitrary: seq acc s)
  case 0
  then have "compact_loop i next target seq acc s = (Ok acc, s)" by (subst compact_loop.simps) simp
  with 0 show ?case by auto
next
  case (Suc n)
  then obtain row where row: "rows_of s i seq = Some row" by force
  have "compact_loop i next target seq acc s = try_res (accumulate_row acc row) s (\<lambda>acc1.
      compact_loop i next target (Suc seq) acc1 (remove_row i seq s))"
    using Suc.prems(2,3) row by (subst compact_loop.simps) simp
  with Suc.prems(4) obtain acc1 where a: "accumulate_row acc row = Ok acc1"
    and rest: "compact_loop i next target (Suc seq) acc1 (remove_row i seq s) = (Ok acc', t)"
    by (auto simp: ok_iff)
  have same: "rows_of (remove_row i seq s) i q = rows_of s i q" if "Suc seq \<le> q" for q
    using that by (simp add: remove_row_def)
  have rows: "map (\<lambda>q. the (rows_of (remove_row i seq s) i q)) [Suc seq..<Suc seq + n]
      = map (\<lambda>q. the (rows_of s i q)) [Suc seq..<Suc seq + n]"
    by (auto simp: same)
  have cons: "[seq..<seq + Suc n] = seq # [Suc seq..<Suc seq + n]" by (simp add: upt_conv_Cons)
  have "t = erase_rows i (Suc seq) (Suc seq + n) (remove_row i seq s) \<and> pruned_count acc' = target
    \<and> total_amount acc' = total_amount acc1 + amounts (map (\<lambda>q. the (rows_of s i q)) [Suc seq..<Suc seq + n])
    \<and> (\<forall>k. of_kind k (totals acc') = of_kind k (totals acc1)
         + amounts_of k (map (\<lambda>q. the (rows_of s i q)) [Suc seq..<Suc seq + n]))"
    unfolding rows [symmetric]
    using Suc.prems accumulate_row_Ok(1) [OF a] by (intro Suc.IH [OF _ _ _ rest]) (auto simp: same)
  then show ?case
    unfolding cons using accumulate_row_Ok [OF a] row erase_rows_step [of seq "Suc seq + n" i s]
    by auto
qed

lemma merge_aggregate_Ok:
  assumes "merge_aggregate agg acc = Ok agg'"
  shows "pruned_count agg' = pruned_count agg + pruned_count acc"
    and "total_amount agg' = total_amount agg + total_amount acc"
    and "of_kind k (totals agg') = of_kind k (totals agg) + of_kind k (totals acc)"
  using assms by (cases k; auto simp: merge_aggregate_def ok_iff)+

lemma u32_mod: "n \<le> U32_MAX \<Longrightarrow> nat (int n mod 2 ^ 32) = n"
  by (simp add: U32_MAX_def nat_mod_distrib)

lemma live_minus_keep:
  assumes "live \<le> U32_MAX" and "keep \<le> live"
  shows "nat ((case safe_sub (int live) (int keep) of Ok d \<Rightarrow> d | _ \<Rightarrow> 0) mod 2 ^ 32) = live - keep"
proof -
  have "in_i128 (int live - int keep)"
    using assms by (simp add: in_i128_def I128_MIN_def I128_MAX_def U32_MAX_def)
  then have "safe_sub (int live) (int keep) = Ok (int (live - keep))"
    using assms(2) by (simp add: safe_sub_def checked_defs checked_i128_def)
  with u32_mod [of "live - keep"] assms show ?thesis by simp
qed

lemma compact_Ok:
  assumes ok: "statements_ok s i" and c: "compact_subscription_statements i keep s = (Ok sm, t)"
    and n: "n = get_total_statements s i - unwrap_or keep (get_retention_config s)"
    and "0 < n"
  obtains agg where
    "t = (erase_rows i (next_sequence s i - get_total_statements s i)
           (next_sequence s i - get_total_statements s i + n) s)\<lparr>stm :=
         (stm (erase_rows i (next_sequence s i - get_total_statements s i)
           (next_sequence s i - get_total_statements s i + n) s))\<lparr>
           sagg_key := (sagg_key (stm s))(i \<mapsto> agg),
           slive_key := (slive_key (stm s))(i \<mapsto> get_total_statements s i - n)\<rparr>\<rparr>"
    and "sm = \<lparr>cs_subscription_id = i, cs_pruned_count = n, kept_count = get_total_statements s i - n,
           total_pruned_amount = amounts (take n (live_rows s i))\<rparr>"
    and "pruned_count agg = pruned_count (get_compacted_aggregate s i) + n"
    and "total_amount agg = total_amount (get_compacted_aggregate s i) + amounts (take n (live_rows s i))"
    and "\<And>k. of_kind k (totals agg) =
       of_kind k (totals (get_compacted_aggregate s i)) + amounts_of k (take n (live_rows s i))"
proof -
  let ?live = "get_total_statements s i" and ?next = "next_sequence s i"
  let ?keep = "unwrap_or keep (get_retention_config s)" and ?lo = "next_sequence s i - get_total_statements s i"
  have le: "?live \<le> ?next" "?next \<le> U32_MAX" using ok by (auto simp: statements_ok_def)
  then have target: "nat ((case safe_sub (int ?live) (int ?keep) of Ok d \<Rightarrow> d | _ \<Rightarrow> 0) mod 2 ^ 32) = n"
    using live_minus_keep [of ?live ?keep] n assms(4) by simp
  have live: "\<not> (?live \<le> ?keep \<or> ?live = 0)" using n assms(4) by auto
  from c obtain acc s1 agg where loop: "compact_loop i ?next n ?lo empty_aggregate s = (Ok acc, s1)"
    and agg: "merge_aggregate (get_compacted_aggregate s1 i) acc = Ok agg"
    and t: "t = s1\<lparr>stm := (stm s1)\<lparr>sagg_key := (sagg_key (stm s1))(i \<mapsto> agg),
        slive_key := (slive_key (stm s1))(i \<mapsto> ?live - pruned_count acc)\<rparr>\<rparr>"
    and sm: "sm = \<lparr>cs_subscription_id = i, cs_pruned_count = pruned_count acc,
        kept_count = ?live - pruned_count acc, total_pruned_amount = total_amount acc\<rparr>"
    unfolding compact_subscription_statements_def Let_def if_not_P [OF live] target
    by (auto simp: ok_iff)
  have taken: "map (\<lambda>q. the (rows_of s i q)) [?lo..<?lo + n] = take n (live_rows s i)"
    using le n by (simp add: live_rows_def take_map take_upt)
  have present: "\<forall>q. ?lo \<le> q \<and> q < ?lo + n \<longrightarrow> rows_of s i q \<noteq> None"
    using rows_present(1) [OF ok] le n by auto
  have bounds: "?lo + n \<le> ?next" "n = pruned_count empty_aggregate + n"
    using n le by (auto simp: empty_aggregate_def)
  have zero: "total_amount empty_aggregate = 0" "of_kind k (totals empty_aggregate) = 0" for k
    by (cases k; simp add: empty_aggregate_def)+
  have l: "s1 = erase_rows i ?lo (?lo + n) s" "pruned_count acc = n"
    "total_amount acc = amounts (take n (live_rows s i))"
    "\<And>k. of_kind k (totals acc) = amounts_of k (take n (live_rows s i))"
    using compact_loop_Ok [OF present bounds loop] unfolding taken zero by simp_all
  have same: "get_compacted_aggregate s1 i = get_compacted_aggregate s i"
    "sagg_key (stm s1) = sagg_key (stm s)" "slive_key (stm s1) = slive_key (stm s)"
    by (simp_all add: l(1) erase_rows_def get_compacted_aggregate_def)
  note m = merge_aggregate_Ok [OF agg, unfolded same(1)]
  show thesis
    by (rule that [of agg]) (simp_all only: t sm m same l(2-), simp_all only: l(1))
qed

text \<open>Without its oldest \<open>n\<close> live statements a subscription keeps the others.\<close>

lemma pruned_state:
  assumes ok: "statements_ok s i" and n: "n \<le> get_total_statements s i"
    and lo: "lo = next_sequence s i - get_total_statements s i"
    and t: "t = (erase_rows i lo (lo + n) s)\<lparr>stm := (stm (erase_rows i lo (lo + n) s))\<lparr>
           sagg_key := (sagg_key (stm s))(i \<mapsto> agg),
           slive_key := (slive_key (stm s))(i \<mapsto> get_total_statements s i - n)\<rparr>\<rparr>"
  shows "statements_ok t i" and "live_rows t i = drop n (live_rows s i)" and "get_compacted_aggregate t i = agg"
proof -
  have le: "get_total_statements s i \<le> next_sequence s i" using ok by (simp add: statements_ok_def)
  have fields: "next_sequence t i = next_sequence s i"
    "get_total_statements t i = get_total_statements s i - n"
    "rows_of t i q = (if lo \<le> q \<and> q < lo + n then None else rows_of s i q)" for q
    by (simp_all add: t erase_rows_def erase_range_def get_total_statements_def)
  show "get_compacted_aggregate t i = agg" by (simp add: t get_compacted_aggregate_def)
  have first: "next_sequence s i - (get_total_statements s i - n) = lo + n" using le n lo by simp
  show "statements_ok t i"
    using ok le n lo unfolding statements_ok_def fields first by (auto split: if_splits)
  have "live_rows t i = map (\<lambda>q. the (rows_of s i q)) [lo + n..<next_sequence s i]"
    unfolding live_rows_def fields first by simp
  then show "live_rows t i = drop n (live_rows s i)" by (simp add: live_rows_def drop_map lo)
qed

lemma amounts_split:
  "amounts xs = amounts (take n xs) + amounts (drop n xs)"
  "amounts_of k xs = amounts_of k (take n xs) + amounts_of k (drop n xs)"
  by (subst append_take_drop_id [symmetric, of xs n], simp only: amounts_simps)+

text \<open>What compaction does to the subscription it is called for.\<close>

lemma compaction_books:
  assumes ok: "statements_ok s i" and c: "compact_subscription_statements i keep s = (Ok sm, t)"
  shows "let n = get_total_statements s i - unwrap_or keep (get_retention_config s) in
      statements_ok t i \<and> live_rows t i = drop n (live_rows s i)
      \<and> booked t i = booked s i \<and> (\<forall>k. booked_of k t i = booked_of k s i)
      \<and> pruned_count (get_compacted_aggregate t i) = pruned_count (get_compacted_aggregate s i) + n
      \<and> sm = \<lparr>cs_subscription_id = i, cs_pruned_count = n, kept_count = length (live_rows t i),
             total_pruned_amount = amounts (take n (live_rows s i))\<rparr>"
proof -
  define n where "n = get_total_statements s i - unwrap_or keep (get_retention_config s)"
  let ?lo = "next_sequence s i - get_total_statements s i"
  show ?thesis
  proof (cases "n = 0")
    case True
    then have "get_total_statements s i \<le> unwrap_or keep (get_retention_config s)"
      by (simp add: n_def)
    with c True have "t = s" "sm = \<lparr>cs_subscription_id = i, cs_pruned_count = 0,
        kept_count = get_total_statements s i, total_pruned_amount = 0\<rparr>"
      by (auto simp: compact_subscription_statements_def Let_def)
    with True ok show ?thesis by (simp add: n_def [symmetric] length_live_rows)
  next
    case False
    from compact_Ok [OF ok c n_def] False obtain agg where
      t: "t = (erase_rows i ?lo (?lo + n) s)\<lparr>stm := (stm (erase_rows i ?lo (?lo + n) s))\<lparr>
           sagg_key := (sagg_key (stm s))(i \<mapsto> agg),
           slive_key := (slive_key (stm s))(i \<mapsto> get_total_statements s i - n)\<rparr>\<rparr>"
      and sm: "sm = \<lparr>cs_subscription_id = i, cs_pruned_count = n, kept_count = get_total_statements s i - n,
           total_pruned_amount = amounts (take n (live_rows s i))\<rparr>"
      and agg: "pruned_count agg = pruned_count (get_compacted_aggregate s i) + n"
        "total_amount agg = total_amount (get_compacted_aggregate s i) + amounts (take n (live_rows s i))"
        "\<And>k. of_kind k (totals agg) =
           of_kind k (totals (get_compacted_aggregate s i)) + amounts_of k (take n (live_rows s i))"
      by blast
    have "n \<le> get_total_statements s i" by (simp add: n_def)
    note pruned = pruned_state [OF ok this refl t]
    show ?thesis
      using agg pruned sm length_live_rows [OF pruned(1)] length_live_rows [OF ok] amounts_split(1) [where xs = "live_rows s i" and n = n]
        amounts_split(2) [where xs = "live_rows s i" and n = n]
      by (simp add: Let_def n_def [symmetric] booked_def booked_of_def)
  qed
qed

text \<open>C30. Compaction conserves the books: it removes exactly the oldest live statements beyond the
  retained number, keeps the others untouched and in order, and moves what it removed into the
  aggregate, so that the booked total and the booked total of each kind of charge are what they were;
  its summary reports the numbers it moved.\<close>

theorem compaction_conserves:
  assumes ok: "statements_ok s i" and c: "compact_subscription_statements i keep s = (Ok sm, t)"
  shows "let n = get_total_statements s i - unwrap_or keep (get_retention_config s) in
      statements_ok t i \<and> live_rows t i = drop n (live_rows s i)
      \<and> booked t i = booked s i \<and> (\<forall>k. booked_of k t i = booked_of k s i)
      \<and> pruned_count (get_compacted_aggregate t i) = pruned_count (get_compacted_aggregate s i) + n
      \<and> sm = \<lparr>cs_subscription_id = i, cs_pruned_count = n, kept_count = length (live_rows t i),
             total_pruned_amount = amounts (take n (live_rows s i))\<rparr>"
  using assms by (rule compaction_books)

section \<open>A concrete run\<close>

text \<open>Three charges of subscription 0 appended to the initialised vault.\<close>

definition demo_statements :: vault where
  "demo_statements =
    snd (append_statement demo_env 0 5 (Address 4) OneOff 300 300
      (snd (append_statement demo_env 0 20 (Address 4) Usage 150 150
        (snd (append_statement demo_env 0 10 (Address 4) Interval 0 100 demo_vault)))))"

definition demo_row :: "u32 \<Rightarrow> i128 \<Rightarrow> billing_charge_kind \<Rightarrow> u64 \<Rightarrow> u64 \<Rightarrow> billing_statement" where
  "demo_row q amt k a b = \<lparr>bs_subscription_id = 0, sequence = q, charged_at = 1000, period_start = a,
     period_end = b, bs_amount = amt, bs_merchant = Address 4, kind = k\<rparr>"

lemma append_demo:
  assumes "statements_ok s 0" and "next_sequence s 0 < 9" and "a < b \<or> a = b \<and> k \<noteq> Interval" and "0 < amt"
  defines "t \<equiv> snd (append_statement demo_env 0 amt (Address 4) k a b s)"
  shows "statements_ok t 0" and "next_sequence t 0 = next_sequence s 0 + 1"
    and "live_rows t 0 = live_rows s 0 @ [demo_row (next_sequence s 0) amt k a b]"
proof -
  have "get_total_statements s 0 < 9" using assms(1,2) by (simp add: statements_ok_def)
  then have app: "append_statement demo_env 0 amt (Address 4) k a b s = (Ok (), t)"
    using assms(2-4) unfolding t_def
    by (auto simp: append_statement_def Let_def checked_defs U32_MAX_def)
  from append_represents [OF assms(1) app] append_Ok(5) [OF app]
  show "statements_ok t 0" and "next_sequence t 0 = next_sequence s 0 + 1"
    and "live_rows t 0 = live_rows s 0 @ [demo_row (next_sequence s 0) amt k a b]"
    by (simp_all add: demo_row_def)
qed

lemma demo_statements_rows:
  "statements_ok demo_statements 0"
  "live_rows demo_statements 0 = [demo_row 0 10 Interval 0 100, demo_row 1 20 Usage 150 150, demo_row 2 5 OneOff 300 300]"
proof -
  have 0: "statements_ok demo_vault 0" "next_sequence demo_vault 0 = 0" "live_rows demo_vault 0 = []"
    by (simp_all add: statements_ok_def live_rows_def get_total_statements_def demo_vault_rest vault_init_def)
  have "next_sequence demo_vault 0 < 9" by (simp add: 0)
  note 1 = append_demo [OF 0(1) this, of 0 100 Interval 10, unfolded 0, simplified]
  note 2 = append_demo [OF 1(1), of 150 150 Usage 20, unfolded 1, simplified]
  note 3 = append_demo [OF 2(1), of 300 300 OneOff 5, unfolded 2, simplified]
  show "statements_ok demo_statements 0"
    and "live_rows demo_statements 0 = [demo_row 0 10 Interval 0 100, demo_row 1 20 Usage 150 150, demo_row 2 5 OneOff 300 300]"
    using 3 by (simp_all add: demo_statements_def numeral_2_eq_2)
qed

lemma demo_statements_store:
  "next_sequence demo_statements 0 = 3" "get_total_statements demo_statements 0 = 3"
  "sagg_key (stm demo_statements) = Map.empty"
  by (simp_all add: demo_statements_def append_statement_def get_total_statements_def demo_vault_rest
      vault_init_def checked_defs U32_MAX_def)

lemma demo_statements_row:
  "rows_of demo_statements 0 0 = Some (demo_row 0 10 Interval 0 100)"
  "rows_of demo_statements 0 (Suc 0) = Some (demo_row 1 20 Usage 150 150)"
  using nth_live_rows(1) [OF demo_statements_rows(1), of 0] nth_live_rows(1) [OF demo_statements_rows(1), of 1]
  by (simp_all add: demo_statements_store demo_statements_rows)

theorem offset_page_is_slice_witness:
  "\<exists>c. get_statements_by_subscription_offset demo_statements 0 1 1 True =
     Ok \<lparr>statements = [demo_row 1 20 Usage 150 150], next_cursor = c, total = 3\<rparr>"
  using offset_page_is_slice [OF demo_statements_rows(1), of 1 1 True]
  by (simp add: demo_statements_rows numeral_3_eq_3)

theorem cursor_walk_complete_witness:
  "map sequence (cursor_walk demo_statements 0 None 2 True 3) = [2, 1, 0]"
  using cursor_walk_complete [OF demo_statements_rows(1), of 2 3 True]
  by (simp add: demo_statements_rows demo_row_def)

lemma compact_demo:
  "fst (compact_subscription_statements 0 (Some 1) demo_statements) = Ok
     \<lparr>cs_subscription_id = 0, cs_pruned_count = 2, kept_count = 1, total_pruned_amount = 30\<rparr>"
  by (simp add: compact_subscription_statements_def demo_statements_store compact_loop_step
      demo_statements_row accumulate_row_def demo_row_def merge_aggregate_def get_compacted_aggregate_def
      empty_aggregate_def remove_row_def safe_add_def safe_sub_def checked_defs checked_i128_def
      in_i128_def I128_MIN_def I128_MAX_def U32_MAX_def)

theorem compaction_conserves_witness:
  "let t = snd (compact_subscription_statements 0 (Some 1) demo_statements)
   in map sequence (live_rows t 0) = [2] \<and> booked t 0 = booked demo_statements 0"
proof -
  obtain t where t: "compact_subscription_statements 0 (Some 1) demo_statements =
      (Ok \<lparr>cs_subscription_id = 0, cs_pruned_count = 2, kept_count = 1, total_pruned_amount = 30\<rparr>, t)"
    using compact_demo by (metis prod.collapse)
  have "(3::nat) - 1 = 2" by simp
  then have "live_rows t 0 = drop 2 (live_rows demo_statements 0)" and "booked t 0 = booked demo_statements 0"
    using compaction_conserves [OF demo_statements_rows(1) t]
    unfolding Let_def demo_statements_store unwrap_or_simps by argo+
  then show ?thesis unfolding t by (simp add: demo_statements_rows demo_row_def)
qed

end
