(* ===== verification/Period_Snapshots.thy ===== *)
theory Period_Snapshots
  imports Admin
begin

text \<open>
  \<open>period_snapshots.rs\<close>: one summary per subscription and billing period, closed summaries being
  immutable, with an index of the periods in the order of their first write.
\<close>

definition get_period_snapshot :: "vault \<Rightarrow> u32 \<Rightarrow> u64 \<Rightarrow> billing_period_snapshot option" where
  "get_period_snapshot s i p = period_snapshot_key (snp s) (i, p)"

definition period_indices :: "vault \<Rightarrow> u32 \<Rightarrow> u64 list" where
  "period_indices s i = unwrap_or (period_snapshot_index_key (snp s) i) []"

definition write_period_snapshot :: "billing_period_snapshot \<Rightarrow> vault \<Rightarrow> unit res \<times> vault" where
  "write_period_snapshot x s =
    (let i = ps_subscription_id x;
         p = ps_period_index x;
         store = (\<lambda>s. s\<lparr>snp := (snp s)\<lparr>period_snapshot_key := (period_snapshot_key (snp s))((i, p) \<mapsto> x)\<rparr>\<rparr>)
     in case period_snapshot_key (snp s) (i, p) of
          Some existing \<Rightarrow>
            if ps_status_flags existing AND SNAPSHOT_FLAG_CLOSED \<noteq> 0 then (Err InvalidInput, s)
            else (Ok (), store s)
        | None \<Rightarrow>
            (Ok (), store (s\<lparr>snp := (snp s)\<lparr>period_snapshot_index_key :=
               (period_snapshot_index_key (snp s))(i \<mapsto> period_indices s i @ [p])\<rparr>\<rparr>)))"

definition list_period_snapshots :: "vault \<Rightarrow> u32 \<Rightarrow> u32 \<Rightarrow> billing_period_snapshot list" where
  "list_period_snapshots s i limit =
    (let indices = period_indices s i;
         total = length indices;
         count = min total limit;
         start = total - count
     in if count = 0 then []
        else List.map_filter (get_period_snapshot s i) (rev (drop start indices)))"

abbreviation closed :: "billing_period_snapshot \<Rightarrow> bool" where
  "closed x \<equiv> ps_status_flags x AND SNAPSHOT_FLAG_CLOSED \<noteq> 0"

lemma write_frame:
  "ends (\<lambda>r t. t = s\<lparr>snp := snp t\<rparr> \<and> r \<noteq> Trap \<and> (\<not> is_ok r \<longrightarrow> t = s)) (write_period_snapshot x s)"
  unfolding write_period_snapshot_def Let_def
  by (intro ends_intro) auto

lemma write_other:
  "write_period_snapshot x s = (r, t) \<Longrightarrow> (i, p) \<noteq> (ps_subscription_id x, ps_period_index x) \<Longrightarrow>
   get_period_snapshot t i p = get_period_snapshot s i p"
  by (auto simp: write_period_snapshot_def get_period_snapshot_def Let_def split: option.splits if_splits)

lemma write_same:
  "write_period_snapshot x s = (r, t) \<Longrightarrow>
   get_period_snapshot t (ps_subscription_id x) (ps_period_index x) =
     (case get_period_snapshot s (ps_subscription_id x) (ps_period_index x) of
        Some old \<Rightarrow> if closed old then Some old else Some x
      | None \<Rightarrow> Some x)"
  by (auto simp: write_period_snapshot_def get_period_snapshot_def Let_def split: option.splits if_splits)

section \<open>Closed periods are final\<close>

fun write_all :: "billing_period_snapshot list \<Rightarrow> vault \<Rightarrow> vault" where
  "write_all [] s = s"
| "write_all (x # xs) s = write_all xs (snd (write_period_snapshot x s))"

text \<open>C37. A closed period snapshot is final: whatever is written afterwards, by any number of
  attempts on any period of any subscription, reading it returns the same record, and an attempt to
  overwrite it is an error that changes nothing.\<close>

theorem closed_snapshot_final:
  assumes "get_period_snapshot s i p = Some y" and "closed y"
  shows "get_period_snapshot (write_all xs s) i p = Some y
    \<and> (\<forall>x. ps_subscription_id x = i \<longrightarrow> ps_period_index x = p \<longrightarrow>
        write_period_snapshot x (write_all xs s) = (Err InvalidInput, write_all xs s))"
  using assms(1)
proof (induction xs arbitrary: s)
  case Nil
  with assms(2) show ?case
    by (auto simp: write_period_snapshot_def get_period_snapshot_def)
next
  case (Cons x xs)
  obtain r t where w: "write_period_snapshot x s = (r, t)" by fastforce
  have "get_period_snapshot t i p = Some y"
    using write_other [OF w, of i p] write_same [OF w] Cons.prems assms(2)
    by (cases "(i, p) = (ps_subscription_id x, ps_period_index x)") auto
  with Cons.IH w show ?case by simp
qed

section \<open>Listing\<close>

text \<open>The index lists each stored period once.\<close>

definition snapshots_ok :: "vault \<Rightarrow> u32 \<Rightarrow> bool" where
  "snapshots_ok s i \<longleftrightarrow> distinct (period_indices s i) \<and>
     (\<forall>p. p \<in> set (period_indices s i) \<longleftrightarrow> get_period_snapshot s i p \<noteq> None)"

definition snapshots :: "vault \<Rightarrow> u32 \<Rightarrow> billing_period_snapshot list" where
  "snapshots s i = map (\<lambda>p. the (get_period_snapshot s i p)) (period_indices s i)"

lemma snapshots_ok_init: "snapshots_ok vault_init i"
  by (simp add: snapshots_ok_def vault_init_def period_indices_def get_period_snapshot_def)

lemma list_is_take:
  assumes "snapshots_ok s i"
  shows "list_period_snapshots s i limit = take limit (rev (snapshots s i))"
proof -
  have filtered: "List.map_filter f xs = map (\<lambda>p. the (f p)) xs" if "\<And>p. p \<in> set xs \<Longrightarrow> f p \<noteq> None"
    for f :: "u64 \<Rightarrow> billing_period_snapshot option" and xs
    using that
  proof (induction xs)
    case Nil
    then show ?case by (simp add: List.map_filter_simps)
  next
    case (Cons a xs)
    then obtain y where "f a = Some y" by auto
    with Cons show ?case by (simp add: List.map_filter_simps)
  qed
  let ?xs = "period_indices s i"
  let ?start = "length ?xs - min (length ?xs) limit"
  have "List.map_filter (get_period_snapshot s i) (rev (drop ?start ?xs)) =
      map (\<lambda>p. the (get_period_snapshot s i p)) (rev (drop ?start ?xs))"
    using assms by (intro filtered) (auto simp: snapshots_ok_def dest!: in_set_dropD)
  also have "\<dots> = take limit (rev (snapshots s i))"
    by (cases "limit \<le> length ?xs") (simp_all add: snapshots_def rev_map take_map take_rev min_def)
  finally show ?thesis
    by (auto simp: list_period_snapshots_def Let_def snapshots_def)
qed

lemma write_Ok:
  assumes "write_period_snapshot x s = (Ok u, t)" and "snapshots_ok s i"
  shows "snapshots_ok t i"
    and "get_period_snapshot s (ps_subscription_id x) (ps_period_index x) = None \<Longrightarrow>
      snapshots t i = snapshots s i @ (if i = ps_subscription_id x then [x] else [])"
proof -
  let ?j = "ps_subscription_id x" and ?p = "ps_period_index x"
  let ?new = "get_period_snapshot s ?j ?p = None"
  have idx: "period_indices t i = period_indices s i @ (if i = ?j \<and> ?new then [?p] else [])"
    using assms(1)
    by (auto simp: write_period_snapshot_def Let_def period_indices_def get_period_snapshot_def
        split: option.splits if_splits)
  have get: "get_period_snapshot t i p = (if i = ?j \<and> p = ?p then Some x else get_period_snapshot s i p)" for p
    using assms(1)
    by (auto simp: write_period_snapshot_def Let_def get_period_snapshot_def split: option.splits if_splits)
  show "snapshots_ok t i" using assms(2) by (auto simp: snapshots_ok_def idx get)
  show "?new \<Longrightarrow> snapshots t i = snapshots s i @ (if i = ?j then [x] else [])"
    using assms(2) by (auto simp: snapshots_def idx get snapshots_ok_def)
qed

text \<open>A successful write keeps the index exact, a first write of a period adds the snapshot at
  the end of the subscription's history, and the listing returns the most recent ones first, at most
  \<open>limit\<close> of them.\<close>

theorem snapshot_listing:
  assumes "snapshots_ok s i" and "write_period_snapshot x s = (Ok u, t)"
    and "get_period_snapshot s (ps_subscription_id x) (ps_period_index x) = None"
  shows "snapshots_ok t i \<and> list_period_snapshots t i limit =
    take limit ((if ps_subscription_id x = i then [x] else []) @ rev (snapshots s i))"
  using write_Ok [OF assms(2,1)] list_is_take [of t i limit] assms(3) by simp

definition demo_snapshot :: "u64 \<Rightarrow> i128 \<Rightarrow> billing_period_snapshot" where
  "demo_snapshot p amt = \<lparr>ps_subscription_id = 0, ps_period_index = p, ps_period_start = 0, ps_period_end = 100,
     total_charged = amt, ps_total_usage_units = 0, ps_status_flags = 3, ps_finalized_at = 100\<rparr>"

theorem closed_snapshot_final_witness:
  "let s = snd (write_period_snapshot (demo_snapshot 1 10) demo_vault)
   in get_period_snapshot (write_all [demo_snapshot 1 99, demo_snapshot 2 5] s) 0 1 = Some (demo_snapshot 1 10)"
proof -
  let ?s = "snd (write_period_snapshot (demo_snapshot 1 10) demo_vault)"
  have "get_period_snapshot ?s 0 1 = Some (demo_snapshot 1 10)"
    by (simp add: write_period_snapshot_def get_period_snapshot_def demo_snapshot_def demo_vault_rest vault_init_def)
  moreover have "closed (demo_snapshot 1 10)"
    by (simp add: demo_snapshot_def SNAPSHOT_FLAG_CLOSED_def)
  ultimately show ?thesis
    using closed_snapshot_final [of ?s 0 1 "demo_snapshot 1 10" "[demo_snapshot 1 99, demo_snapshot 2 5]"]
    unfolding Let_def by blast
qed

theorem snapshot_listing_witness:
  "list_period_snapshots (snd (write_period_snapshot (demo_snapshot 1 10) demo_vault)) 0 5 = [demo_snapshot 1 10]"
proof -
  have 0: "snapshots_ok demo_vault 0" "snapshots demo_vault 0 = []"
    by (simp_all add: snapshots_ok_def snapshots_def period_indices_def get_period_snapshot_def demo_vault_rest vault_init_def)
  obtain t where t: "write_period_snapshot (demo_snapshot 1 10) demo_vault = (Ok (), t)"
    by (simp add: write_period_snapshot_def demo_vault_rest vault_init_def Let_def)
  have "get_period_snapshot demo_vault (ps_subscription_id (demo_snapshot 1 10)) (ps_period_index (demo_snapshot 1 10)) = None"
    by (simp add: get_period_snapshot_def demo_vault_rest vault_init_def)
  from snapshot_listing [OF 0(1) t this, of 5] show ?thesis
    unfolding t by (simp add: 0 demo_snapshot_def)
qed

end
