(* ===== verification/Charge_Core.thy ===== *)
theory Charge_Core
  imports Blocklist Merchant Oracle Statements Period_Snapshots State_Machine
begin

text \<open>
  \<open>charge_core.rs\<close>: one interval charge and one usage charge, without authentication. Both functions
  are long sequences of checks with writes in between; the model cuts them into the guards they
  share and the phases the comments of the source name. A phase returns the state it reached also
  with an error, because the batch entry point catches errors and keeps what was written.
\<close>

section \<open>Shared guards\<close>

definition expiration_guard :: "u32 \<Rightarrow> subscription \<Rightarrow> u64 \<Rightarrow> vault \<Rightarrow> unit res \<times> vault" where
  "expiration_guard i sub now s =
    (if is_expired sub now then
       if status sub \<noteq> Expired then
         try_res (validate_status_transition (status sub) Expired) s (\<lambda>_.
           (Err SubscriptionExpired,
            publish ''subscription_expired'' (LifecycleEv (SubscriptionExpiredEvent i now))
              (put_sub i (sub\<lparr>status := Expired\<rparr>) s)))
       else (Err SubscriptionExpired, s)
     else (Ok (), s))"

definition cap_exhausted :: "subscription \<Rightarrow> bool" where
  "cap_exhausted sub = (case lifetime_cap sub of Some cap \<Rightarrow> lifetime_charged sub \<ge> cap | None \<Rightarrow> False)"

definition cap_event :: "u32 \<Rightarrow> subscription \<Rightarrow> u64 \<Rightarrow> vault \<Rightarrow> vault" where
  "cap_event i sub now s =
    (case lifetime_cap sub of
       Some cap \<Rightarrow> publish ''lifetime_cap_reached''
         (FundsEv (LifetimeCapReachedEvent i cap (lifetime_charged sub) now)) s
     | None \<Rightarrow> s)"

text \<open>Cancelling because of the cap: validate, store, announce.\<close>

definition cancel_at_cap :: "u32 \<Rightarrow> subscription \<Rightarrow> u64 \<Rightarrow> vault \<Rightarrow> unit res \<times> vault" where
  "cancel_at_cap i sub now s =
     try_res (validate_status_transition (status sub) Cancelled) s (\<lambda>_.
       let sub' = sub\<lparr>status := Cancelled\<rparr>
       in (Ok (), cap_event i sub' now (put_sub i sub' s)))"

section \<open>Interval charge\<close>

text \<open>
  The protocol fee. The product and the difference are plain operators of the source, which wrap in
  the release profile.
\<close>

definition split_fee :: "vault \<Rightarrow> i128 \<Rightarrow> i128 \<times> i128" where
  "split_fee s charge_amount =
    (let fee_bps = get_protocol_fee_bps s in
     if fee_bps > 0 then
       case get_treasury s of
         Some _ \<Rightarrow>
           let fee = wrap_i128 (charge_amount * int fee_bps) sdiv 10000
           in (wrap_i128 (charge_amount - fee), fee)
       | None \<Rightarrow> (charge_amount, 0)
     else (charge_amount, 0))"

definition credit_treasury :: "u32 \<Rightarrow> address \<Rightarrow> i128 \<Rightarrow> i128 \<Rightarrow> u64 \<Rightarrow> address option \<Rightarrow> vault \<Rightarrow> unit res \<times> vault" where
  "credit_treasury i tok merchant_amount fee_amount now treasury_opt s =
    (if fee_amount > 0 then
       case treasury_opt of
         Some treasury \<Rightarrow>
           try_op (credit_merchant_balance_for_token treasury tok fee_amount Interval s) (\<lambda>_ s1.
           (Ok (), publish ''protocol_fee_charged''
              (ConfigEv (ProtocolFeeChargedEvent i treasury fee_amount merchant_amount now)) s1))
       | None \<Rightarrow> (Ok (), s)
     else (Ok (), s))"

text \<open>The charged period and the idempotency key.\<close>

definition mark_charged :: "u32 \<Rightarrow> u64 \<Rightarrow> bytes32 option \<Rightarrow> vault \<Rightarrow> vault" where
  "mark_charged i p_index key s =
    (let s1 = s\<lparr>sbs := (sbs s)\<lparr>charged_period_key := (charged_period_key (sbs s))(i \<mapsto> p_index)\<rparr>\<rparr>
     in case key of
          Some k \<Rightarrow> s1\<lparr>sbs := (sbs s1)\<lparr>idem_key := (idem_key (sbs s1))(i \<mapsto> k)\<rparr>\<rparr>
        | None \<Rightarrow> s1)"

text \<open>What follows the check of the cap when the balance covers the charge.\<close>

definition record_charge ::
  "env \<Rightarrow> u32 \<Rightarrow> subscription \<Rightarrow> u64 \<Rightarrow> bytes32 option \<Rightarrow> i128 \<Rightarrow> u64 \<Rightarrow> u64 \<Rightarrow> u64 \<Rightarrow> u64 \<Rightarrow> bool \<Rightarrow> vault \<Rightarrow>
   charge_execution_result res \<times> vault" where
  "record_charge env i sub now key charge_amount p_index p_start p_end next_allowed at_cap s =
     try_op (append_statement env i charge_amount (merchant sub) Interval
               (next_allowed - interval_seconds sub) now s) (\<lambda>_ s1.
     try_op (write_period_snapshot
               \<lparr>ps_subscription_id = i, ps_period_index = p_index,
                ps_period_start = next_allowed - interval_seconds sub, ps_period_end = now,
                total_charged = charge_amount, ps_total_usage_units = 0,
                ps_status_flags = SNAPSHOT_FLAG_CLOSED OR SNAPSHOT_FLAG_INTERVAL_CHARGED,
                ps_finalized_at = now\<rparr> s1) (\<lambda>_ s2.
     let s5 = publish ''charged'' (LifecycleEv (SubscriptionChargedEvent i (subscriber sub) (merchant sub)
                (token sub) charge_amount (lifetime_charged sub) now p_start p_end))
                (mark_charged i p_index key s2)
     in (Ok Charged, if at_cap then cap_event i sub now s5 else s5)))"

text \<open>The status after a charge: back to active, then cancelled if the cap is now reached.\<close>

definition settled_status :: "subscription \<Rightarrow> subscription res" where
  "settled_status sub =
     bind_res (if status sub = GracePeriod \<or> status sub = InsufficientBalance
               then validate_status_transition (status sub) Active else Ok ()) (\<lambda>_.
     let sub' = (if status sub = GracePeriod \<or> status sub = InsufficientBalance
                 then sub\<lparr>status := Active\<rparr> else sub) in
     bind_res (if cap_exhausted sub' then validate_status_transition (status sub') Cancelled else Ok ()) (\<lambda>_.
     Ok (if cap_exhausted sub' then sub'\<lparr>status := Cancelled\<rparr> else sub')))"

definition settle_interval ::
  "env \<Rightarrow> u32 \<Rightarrow> subscription \<Rightarrow> u64 \<Rightarrow> bytes32 option \<Rightarrow> i128 \<Rightarrow> i128 \<Rightarrow> u64 \<Rightarrow> u64 \<Rightarrow> u64 \<Rightarrow> u64 \<Rightarrow> vault \<Rightarrow>
   charge_execution_result res \<times> vault" where
  "settle_interval env i sub now key charge_amount new_balance p_index p_start p_end next_allowed s =
    (let (merchant_amount, fee_amount) = split_fee s charge_amount in
     try_op (credit_merchant_balance_for_token (merchant sub) (token sub) merchant_amount Interval s) (\<lambda>_ s1.
     try_op (credit_treasury i (token sub) merchant_amount fee_amount now (get_treasury s) s1) (\<lambda>_ s2.
     try_res (safe_add (lifetime_charged sub) charge_amount) s2 (\<lambda>new_charged.
     try_res (settled_status (sub\<lparr>prepaid_balance := new_balance, last_payment_timestamp := p_start,
                lifetime_charged := new_charged\<rparr>)) s2 (\<lambda>sub'.
     record_charge env i sub' now key charge_amount p_index p_start p_end next_allowed (cap_exhausted sub')
          (put_sub i sub' s2))))))"

text \<open>The other branch: the charge fails for lack of balance, and only the status moves.\<close>

definition charge_shortfall ::
  "u32 \<Rightarrow> subscription \<Rightarrow> u64 \<Rightarrow> i128 \<Rightarrow> vault \<Rightarrow> charge_execution_result res \<times> vault" where
  "charge_shortfall i sub now charge_amount s =
     try_res (get_grace_period s) s (\<lambda>grace_duration.
     try_res (ok_or (checked_add_u64 (last_payment_timestamp sub) (interval_seconds sub)) Overflow) s (\<lambda>due.
     try_res (ok_or (checked_add_u64 due grace_duration) Overflow) s (\<lambda>grace_expires.
     let target = (if grace_duration > 0 \<and> now < grace_expires then GracePeriod else InsufficientBalance) in
     try_res (if status sub \<noteq> target then validate_status_transition (status sub) target else Ok ()) s (\<lambda>_.
     let sub' = sub\<lparr>status := target\<rparr>
     in (Ok ChargeInsufficientBalance, publish ''charge_failed''
           (LifecycleEv (SubscriptionChargeFailedEvent i (merchant sub) charge_amount (prepaid_balance sub)
              (max (saturating_sub charge_amount (prepaid_balance sub)) 0) target now))
           (put_sub i sub' s))))))"

text \<open>The checks of the billing period, for a subscription that may be charged.\<close>

definition charge_period ::
  "env \<Rightarrow> u32 \<Rightarrow> subscription \<Rightarrow> u64 \<Rightarrow> bytes32 option \<Rightarrow> i128 \<Rightarrow> vault \<Rightarrow> charge_execution_result res \<times> vault" where
  "charge_period env i sub now key charge_amount s =
    (if interval_seconds sub = 0 then (Trap, s)
     else
       let p_index = (now - start_time sub) div interval_seconds sub in
       try_res (ok_or (checked_mul_u64 p_index (interval_seconds sub)) Overflow) s (\<lambda>offset.
       try_res (ok_or (checked_add_u64 (start_time sub) offset) Overflow) s (\<lambda>p_start.
       try_res (ok_or (checked_add_u64 p_start (interval_seconds sub)) Overflow) s (\<lambda>p_end.
       if key \<noteq> None \<and> idem_key (sbs s) i = key then (Ok Charged, s)
       else if (case charged_period_key (sbs s) i of Some stored \<Rightarrow> p_index \<le> stored | None \<Rightarrow> False)
       then (Err Replay, s)
       else
         try_res (next_charge_time (last_payment_timestamp sub) (interval_seconds sub)) s (\<lambda>next_allowed.
         if now < next_allowed then (Err IntervalNotElapsed, s)
         else
           try_res (case lifetime_cap sub of
               Some cap \<Rightarrow> bind_res (if lifetime_charged sub \<ge> cap then Ok 0 else safe_sub cap (lifetime_charged sub))
                 (\<lambda>remaining. Ok (remaining = 0 \<or> charge_amount > remaining))
             | None \<Rightarrow> Ok False) s (\<lambda>over_cap.
           if over_cap then try_op (cancel_at_cap i sub now s) (\<lambda>_ s1. (Ok ChargeLifetimeCapReached, s1))
           else case safe_sub_balance (prepaid_balance sub) charge_amount of
               Ok new_balance \<Rightarrow>
                 settle_interval env i sub now key charge_amount new_balance p_index p_start p_end next_allowed s
             | _ \<Rightarrow> charge_shortfall i sub now charge_amount s))))))"

definition charge_one ::
  "env \<Rightarrow> u32 \<Rightarrow> u64 \<Rightarrow> bytes32 option \<Rightarrow> vault \<Rightarrow> charge_execution_result res \<times> vault" where
  "charge_one env i now key s =
     try_res (get_subscription s i) s (\<lambda>sub.
     if get_merchant_paused s (merchant sub) then (Err MerchantPaused, s)
     else
       try_op (expiration_guard i sub now s) (\<lambda>_ s1.
       try_op (resolve_charge_amount env i sub s1) (\<lambda>charge_amount s2.
       if cap_exhausted sub then
         if status sub \<noteq> Cancelled
         then try_op (cancel_at_cap i sub now s2) (\<lambda>_ s3. (Ok ChargeLifetimeCapReached, s3))
         else (Ok ChargeLifetimeCapReached, s2)
       else if status sub \<noteq> Active \<and> status sub \<noteq> GracePeriod then (Err NotActive, s2)
       else charge_period env i sub now key charge_amount s2)))"

section \<open>Usage charge\<close>

definition reject_usage ::
  "u32 \<Rightarrow> subscription \<Rightarrow> i128 \<Rightarrow> u64 \<Rightarrow> string \<Rightarrow> usage_charge_result \<Rightarrow> vault \<Rightarrow> usage_charge_result res \<times> vault" where
  "reject_usage i sub usage_amount now reference result s =
     (Ok result, publish ''usage_charge_rejected''
        (UsageEv (UsageChargeRejectedEvent i (merchant sub) (token sub) usage_amount now reference result)) s)"

text \<open>
  The three limits in the order of the code, each on the state the previous one left (\<open>Inl\<close> is a
  rejection). The third divides by the interval.
\<close>

definition check_burst :: "usage_limits \<Rightarrow> u64 \<Rightarrow> usage_state \<Rightarrow> usage_charge_result + usage_state" where
  "check_burst limits now st =
    (if burst_min_interval_secs limits > 0 \<and> now - last_usage_timestamp st < burst_min_interval_secs limits
     then Inl UsageBurstLimitExceeded else Inr st)"

definition check_rate :: "usage_limits \<Rightarrow> u64 \<Rightarrow> usage_state \<Rightarrow> usage_charge_result + usage_state" where
  "check_rate limits now st =
    (case rate_limit_max_calls limits of
       None \<Rightarrow> Inr st
     | Some max_calls \<Rightarrow>
         let st' = (if now \<ge> saturating_add_u64 (window_start_timestamp st) (rate_window_secs limits)
                    then st\<lparr>window_start_timestamp := now, window_call_count := 0\<rparr> else st)
         in if window_call_count st' \<ge> max_calls then Inl UsageRateLimitExceeded else Inr st')"

definition check_units :: "usage_limits \<Rightarrow> subscription \<Rightarrow> u64 \<Rightarrow> i128 \<Rightarrow> usage_state \<Rightarrow> usage_charge_result + usage_state" where
  "check_units limits sub now usage_amount st =
    (case usage_cap_units limits of
       None \<Rightarrow> Inr st
     | Some cap_units \<Rightarrow>
         let current_period = (now - start_time sub) div interval_seconds sub;
             st' = (if current_period > usage_state.period_index st
                    then st\<lparr>period_index := current_period, current_period_usage_units := 0\<rparr> else st)
         in if saturating_add (current_period_usage_units st') usage_amount > cap_units
            then Inl UsageUsageCapExceeded else Inr st')"

definition initial_usage_state :: "subscription \<Rightarrow> u64 \<Rightarrow> usage_state" where
  "initial_usage_state sub now =
     \<lparr>last_usage_timestamp = 0, window_start_timestamp = now, window_call_count = 0,
      current_period_usage_units = 0, period_index = (now - start_time sub) div interval_seconds sub\<rparr>"

definition count_usage :: "u64 \<Rightarrow> i128 \<Rightarrow> usage_state \<Rightarrow> usage_state" where
  "count_usage now usage_amount st = st\<lparr>last_usage_timestamp := now,
     window_call_count := saturating_add_u32 (window_call_count st) 1,
     current_period_usage_units := saturating_add (current_period_usage_units st) usage_amount\<rparr>"

definition apply_limits :: "usage_limits \<Rightarrow> subscription \<Rightarrow> u64 \<Rightarrow> i128 \<Rightarrow> usage_state \<Rightarrow> usage_charge_result + usage_state" where
  "apply_limits limits sub now usage_amount st =
    (case check_burst limits now st of
       Inl r \<Rightarrow> Inl r
     | Inr st1 \<Rightarrow> (case check_rate limits now st1 of
         Inl r \<Rightarrow> Inl r
       | Inr st2 \<Rightarrow> (case check_units limits sub now usage_amount st2 of
           Inl r \<Rightarrow> Inl r
         | Inr st3 \<Rightarrow> Inr (count_usage now usage_amount st3))))"

text \<open>
  The default state, with its division by the interval, is an argument of \<open>unwrap_or\<close>, so it is
  computed also when a state is stored: an interval of zero traps as soon as limits are set.
\<close>

definition usage_limit_step :: "u32 \<Rightarrow> subscription \<Rightarrow> u64 \<Rightarrow> i128 \<Rightarrow> vault \<Rightarrow> (usage_charge_result option) res \<times> vault" where
  "usage_limit_step i sub now usage_amount s =
    (case usage_limits_key (sbs s) i of
       None \<Rightarrow> (Ok None, s)
     | Some limits \<Rightarrow>
         if interval_seconds sub = 0
         then (Trap, s)
         else
           (case apply_limits limits sub now usage_amount
                   (unwrap_or (usage_state_key (sbs s) i) (initial_usage_state sub now)) of
              Inl r \<Rightarrow> (Ok (Some r), s)
            | Inr st \<Rightarrow> (Ok None, s\<lparr>sbs := (sbs s)\<lparr>usage_state_key := (usage_state_key (sbs s))(i \<mapsto> st)\<rparr>\<rparr>)))"

text \<open>The status after a usage charge: cancelled at the cap, else underfunded at a zero balance.\<close>

definition usage_status :: "subscription \<Rightarrow> subscription res" where
  "usage_status sub =
    (if cap_exhausted sub then
       bind_res (validate_status_transition (status sub) Cancelled) (\<lambda>_. Ok (sub\<lparr>status := Cancelled\<rparr>))
     else if prepaid_balance sub = 0 then
       bind_res (validate_status_transition (status sub) InsufficientBalance)
         (\<lambda>_. Ok (sub\<lparr>status := InsufficientBalance\<rparr>))
     else Ok sub)"

definition settle_usage ::
  "env \<Rightarrow> u32 \<Rightarrow> subscription \<Rightarrow> i128 \<Rightarrow> string \<Rightarrow> i128 \<Rightarrow> i128 \<Rightarrow> vault \<Rightarrow> usage_charge_result res \<times> vault" where
  "settle_usage env i sub usage_amount reference new_balance pending s =
    (let now = ledger_timestamp env in
     try_op (credit_merchant_balance_for_token (merchant sub) (token sub) usage_amount Usage s) (\<lambda>_ s1.
     try_res (usage_status (sub\<lparr>prepaid_balance := new_balance, lifetime_charged := pending\<rparr>)) s1 (\<lambda>sub'.
     let s2 = put_sub i sub' s1;
         s3 = s2\<lparr>sbs := (sbs s2)\<lparr>usage_ref_key := (usage_ref_key (sbs s2))((i, reference) \<mapsto> True)\<rparr>\<rparr> in
     try_op (append_statement env i usage_amount (merchant sub') Usage now now s3) (\<lambda>_ s4.
     let s5 = publish ''usage_charged''
           (UsageEv (UsageStatementEvent i (merchant sub') usage_amount (token sub') now reference)) s4
     in (Ok UsageCharged, if cap_exhausted sub' then cap_event i sub' now s5 else s5)))))"

definition usage_shortfall :: "u32 \<Rightarrow> subscription \<Rightarrow> i128 \<Rightarrow> u64 \<Rightarrow> vault \<Rightarrow> usage_charge_result res \<times> vault" where
  "usage_shortfall i sub usage_amount now s =
     try_res (validate_status_transition (status sub) InsufficientBalance) s (\<lambda>_.
     (Ok UsageCharged, publish ''charge_failed''
        (LifecycleEv (SubscriptionChargeFailedEvent i (merchant sub) usage_amount (prepaid_balance sub)
           (saturating_sub usage_amount (prepaid_balance sub)) InsufficientBalance now))
        (put_sub i (sub\<lparr>status := InsufficientBalance\<rparr>) s)))"

text \<open>The limits, the check of the cap and the debit, for a usage that passed the guards.\<close>

definition usage_within_limits ::
  "env \<Rightarrow> u32 \<Rightarrow> subscription \<Rightarrow> i128 \<Rightarrow> string \<Rightarrow> vault \<Rightarrow> usage_charge_result res \<times> vault" where
  "usage_within_limits env i sub usage_amount reference s =
    (let now = ledger_timestamp env in
     try_op (usage_limit_step i sub now usage_amount s) (\<lambda>rejected s1.
     case rejected of
       Some r \<Rightarrow> reject_usage i sub usage_amount now reference r s1
     | None \<Rightarrow>
         try_res (safe_add (lifetime_charged sub) usage_amount) s1 (\<lambda>pending.
         if (case lifetime_cap sub of Some cap \<Rightarrow> pending > cap | None \<Rightarrow> False)
         then try_op (cancel_at_cap i sub now s1) (\<lambda>_ s2. (Ok UsageCharged, s2))
         else case safe_sub_balance (prepaid_balance sub) usage_amount of
             Ok new_balance \<Rightarrow> settle_usage env i sub usage_amount reference new_balance pending s1
           | _ \<Rightarrow> usage_shortfall i sub usage_amount now s1)))"

definition charge_usage_one ::
  "env \<Rightarrow> u32 \<Rightarrow> i128 \<Rightarrow> string \<Rightarrow> vault \<Rightarrow> usage_charge_result res \<times> vault" where
  "charge_usage_one env i usage_amount reference s =
     try_res (get_subscription s i) s (\<lambda>sub.
     if get_merchant_paused s (merchant sub) then (Err MerchantPaused, s)
     else let now = ledger_timestamp env in
       try_op (expiration_guard i sub now s) (\<lambda>_ s1.
       if cap_exhausted sub then
         if status sub \<noteq> Cancelled
         then try_op (cancel_at_cap i sub now s1) (\<lambda>_ s2. (Err LifetimeCapReached, s2))
         else (Err LifetimeCapReached, s1)
       else if status sub \<noteq> Active then (Err NotActive, s1)
       else if \<not> usage_enabled sub then (Err UsageNotEnabled, s1)
       else if usage_amount \<le> 0 then (Err InvalidAmount, s1)
       else if prepaid_balance sub < usage_amount then (Err InsufficientPrepaidBalance, s1)
       else if usage_ref_key (sbs s1) (i, reference) \<noteq> None
       then reject_usage i sub usage_amount now reference UsageReplay s1
       else usage_within_limits env i sub usage_amount reference s1))"

end
