(* ===== verification/Subscription.thy ===== *)
theory Subscription
  imports Charge_Core
begin

text \<open>
  The lifecycle half of \<open>subscription.rs\<close>: creation, deposits, cancellation, pause and resume, one-off
  charges, cleanup, withdrawals and partial refunds, with the credit limit and the lifetime cap
  checks they call. (The file defines \<open>do_charge_one_off\<close> twice; the model is of the first one, the
  only one whose callees exist.)
\<close>

section \<open>Limits on creation and deposit\<close>

definition MIN_SUBSCRIPTION_INTERVAL_SECONDS :: u64 where "MIN_SUBSCRIPTION_INTERVAL_SECONDS = 60"
definition MAX_SUBSCRIPTION_INTERVAL_SECONDS :: u64 where "MAX_SUBSCRIPTION_INTERVAL_SECONDS = 31536000"
definition MAX_WRITE_PATH_SCAN_DEPTH :: u32 where "MAX_WRITE_PATH_SCAN_DEPTH = 5000"
definition MAX_SUBSCRIPTION_ID :: u32 where "MAX_SUBSCRIPTION_ID = U32_MAX"

definition validate_interval :: "u64 \<Rightarrow> unit res" where
  "validate_interval interval =
    (if interval < MIN_SUBSCRIPTION_INTERVAL_SECONDS \<or> interval > MAX_SUBSCRIPTION_INTERVAL_SECONDS
     then Err InvalidInput else Ok ())"

definition get_subscriber_credit_limit :: "vault \<Rightarrow> address \<Rightarrow> address \<Rightarrow> i128" where
  "get_subscriber_credit_limit s who tok = unwrap_or (credit_limit_key (sbs s) (who, tok)) 0"

fun exposure_loop :: "(u32 \<rightharpoonup> subscription) \<Rightarrow> address \<Rightarrow> address \<Rightarrow> u32 list \<Rightarrow> i128 \<Rightarrow> i128 res" where
  "exposure_loop m who tok [] exposure = Ok exposure"
| "exposure_loop m who tok (i # ids) exposure =
    (case m i of
       None \<Rightarrow> exposure_loop m who tok ids exposure
     | Some sub \<Rightarrow>
         if subscriber sub \<noteq> who \<or> token sub \<noteq> tok then exposure_loop m who tok ids exposure
         else bind_res (safe_add exposure (prepaid_balance sub)) (\<lambda>e1.
              bind_res (if status sub = Active then safe_add e1 (amount sub) else Ok e1) (\<lambda>e2.
              exposure_loop m who tok ids e2)))"

definition compute_subscriber_exposure :: "vault \<Rightarrow> address \<Rightarrow> address \<Rightarrow> i128 res" where
  "compute_subscriber_exposure s who tok =
    (if next_id_of s > MAX_WRITE_PATH_SCAN_DEPTH then Err InvalidInput
     else exposure_loop (subs s) who tok [0..<next_id_of s] 0)"

definition enforce_credit_limit_for_delta :: "vault \<Rightarrow> address \<Rightarrow> address \<Rightarrow> i128 \<Rightarrow> unit res" where
  "enforce_credit_limit_for_delta s who tok additional_liability =
    (if additional_liability \<le> 0 then Ok ()
     else let limit = get_subscriber_credit_limit s who tok in
       if limit = 0 then Ok ()
       else bind_res (compute_subscriber_exposure s who tok) (\<lambda>current.
            bind_res (safe_add current additional_liability) (\<lambda>new_exposure.
            if new_exposure > limit then Err CreditLimitExceeded else Ok ())))"

definition get_global_cap_default :: "vault \<Rightarrow> i128 option" where
  "get_global_cap_default s = cap_default_key (sbs s)"

definition get_merchant_cap_default :: "vault \<Rightarrow> address \<Rightarrow> i128 option" where
  "get_merchant_cap_default s m = merch_cap_key (sbs s) m"

definition resolve_cap :: "vault \<Rightarrow> address \<Rightarrow> i128 option \<Rightarrow> i128 option" where
  "resolve_cap s m explicit_cap =
    (if explicit_cap \<noteq> None then explicit_cap
     else if get_merchant_cap_default s m \<noteq> None then get_merchant_cap_default s m
     else get_global_cap_default s)"

definition enforce_deposit_cap :: "subscription \<Rightarrow> i128 \<Rightarrow> unit res" where
  "enforce_deposit_cap sub deposit =
    (case lifetime_cap sub of
       Some cap \<Rightarrow>
         let chargeable_remaining = saturating_sub cap (lifetime_charged sub);
             depositable_remaining = saturating_sub chargeable_remaining (prepaid_balance sub)
         in if deposit > depositable_remaining then Err LifetimeCapReached else Ok ()
     | None \<Rightarrow> Ok ())"

section \<open>Creation\<close>

text \<open>
  Storing a new subscription under the next free id and entering it in the two indices, which the
  two creating functions do alike.
\<close>

definition store_new_subscription :: "u32 \<Rightarrow> u32 \<Rightarrow> subscription \<Rightarrow> vault \<Rightarrow> vault" where
  "store_new_subscription i next_id sub s =
     s\<lparr>sbs := (sbs s)\<lparr>next_id_key := Some next_id,
       sub_key := (sub_key (sbs s))(i \<mapsto> sub),
       merchant_subs_key := (merchant_subs_key (sbs s))(merchant sub \<mapsto> merchant_index s (merchant sub) @ [i]),
       token_subs_key := (token_subs_key (sbs s))(token sub \<mapsto> token_index s (token sub) @ [i])\<rparr>\<rparr>"

definition new_subscription ::
  "env \<Rightarrow> address \<Rightarrow> address \<Rightarrow> address \<Rightarrow> i128 \<Rightarrow> u64 \<Rightarrow> bool \<Rightarrow> i128 option \<Rightarrow> u64 option \<Rightarrow> subscription" where
  "new_subscription env subr m tok amt interval use_en cap expires =
     \<lparr>subscriber = subr, merchant = m, token = tok, amount = amt, interval_seconds = interval,
      last_payment_timestamp = ledger_timestamp env, status = Active, prepaid_balance = 0,
      usage_enabled = use_en, lifetime_cap = cap, lifetime_charged = 0,
      start_time = ledger_timestamp env, expires_at = expires, grace_start_timestamp = None\<rparr>"

definition do_create_subscription_with_token ::
  "env \<Rightarrow> address \<Rightarrow> address \<Rightarrow> address \<Rightarrow> i128 \<Rightarrow> u64 \<Rightarrow> bool \<Rightarrow> i128 option \<Rightarrow> u64 option \<Rightarrow> vault \<Rightarrow>
   u32 res \<times> vault" where
  "do_create_subscription_with_token env subr m tok amt interval use_en cap expires s =
     try_res (require_auth env subr) s (\<lambda>_.
     if is_blocklisted s subr then (Err SubscriberBlocklisted, s)
     else try_res (validate_non_negative amt) s (\<lambda>_.
     if amt = 0 then (Err InvalidAmount, s)
     else try_res (validate_interval interval) s (\<lambda>_.
     if \<not> is_token_accepted s tok then (Err InvalidInput, s)
     else
       let resolved_cap = resolve_cap s m cap in
       if (case resolved_cap of Some c \<Rightarrow> c \<le> 0 | None \<Rightarrow> False) then (Err InvalidAmount, s)
       else if (case resolved_cap of Some c \<Rightarrow> c < amt | None \<Rightarrow> False) then (Err InvalidInput, s)
       else try_res (enforce_credit_limit_for_delta s subr tok amt) s (\<lambda>_.
       let sub = new_subscription env subr m tok amt interval use_en resolved_cap expires;
           i = next_id_of s
       in if i = MAX_SUBSCRIPTION_ID then (Err SubscriptionLimitReached, s)
          else try_res (ok_or (checked_add_u32 i 1) SubscriptionLimitReached) s (\<lambda>next_id.
          (Ok i, publish ''subscription_created''
             (LifecycleEv (SubscriptionCreatedEvent i subr m tok amt interval cap expires (ledger_timestamp env)))
             (store_new_subscription i next_id sub s)))))))"

definition do_create_subscription ::
  "env \<Rightarrow> address \<Rightarrow> address \<Rightarrow> i128 \<Rightarrow> u64 \<Rightarrow> bool \<Rightarrow> i128 option \<Rightarrow> u64 option \<Rightarrow> vault \<Rightarrow> u32 res \<times> vault" where
  "do_create_subscription env subr m amt interval use_en cap expires s =
     try_res (get_token s) s (\<lambda>tok.
     try_res (enforce_credit_limit_for_delta s subr tok amt) s (\<lambda>_.
     do_create_subscription_with_token env subr m tok amt interval use_en cap expires s))"

section \<open>Deposits\<close>

text \<open>
  The end of a deposit: a subscription that was short of funds and is covered again becomes active.
  The event the code publishes here lacks the previous status.
\<close>

definition recover_after_deposit :: "env \<Rightarrow> u32 \<Rightarrow> subscription \<Rightarrow> vault \<Rightarrow> vault" where
  "recover_after_deposit env i sub s =
    (if (status sub = InsufficientBalance \<or> status sub = GracePeriod) \<and> prepaid_balance sub \<ge> amount sub then
       publish ''sub_resumed'' (LifecycleEv (SubscriptionResumedEvent i (subscriber sub) (merchant sub)
           (subscriber sub) None (ledger_timestamp env)))
         (publish ''recovery_ready'' (LifecycleEv (SubscriptionRecoveryReadyEvent i (subscriber sub)
             (prepaid_balance sub) (amount sub) (ledger_timestamp env)))
           (put_sub i (sub\<lparr>status := Active\<rparr>) s))
     else s)"

definition do_deposit_funds :: "env \<Rightarrow> u32 \<Rightarrow> address \<Rightarrow> i128 \<Rightarrow> vault \<Rightarrow> unit res \<times> vault" where
  "do_deposit_funds env i subr amt s =
     try_res (require_auth env subr) s (\<lambda>_.
     try_res (require_not_blocklisted s subr) s (\<lambda>_.
     try_res (get_min_topup s) s (\<lambda>min_topup.
     if amt < min_topup then (Err BelowMinimumTopup, s)
     else try_res (validate_non_negative amt) s (\<lambda>_.
     try_res (get_subscription s i) s (\<lambda>sub.
     if subr \<noteq> subscriber sub then (Err Unauthorized, s)
     else if get_merchant_paused s (merchant sub) then (Err MerchantPaused, s)
     else
       try_op (expiration_guard i sub (ledger_timestamp env) s) (\<lambda>_ s.
       try_res (enforce_credit_limit_for_delta s subr (token sub) amt) s (\<lambda>_.
       try_res (enforce_deposit_cap sub amt) s (\<lambda>_.
       try_res (safe_add_balance (prepaid_balance sub) amt) s (\<lambda>new_balance.
       let sub' = sub\<lparr>prepaid_balance := new_balance\<rparr> in
       try_op (transfer env (token sub) subr (current_contract_address env) amt (put_sub i sub' s)) (\<lambda>_ s1.
       try_op (add_total_accounted (token sub) amt s1) (\<lambda>_ s2.
       (Ok (), recover_after_deposit env i sub'
          (publish ''deposited'' (LifecycleEv (FundsDepositedEvent i subr (token sub) amt new_balance
             (ledger_timestamp env))) s2)))))))))))))"

section \<open>Status changes by the parties\<close>

definition party_guard :: "env \<Rightarrow> u32 \<Rightarrow> address \<Rightarrow> vault \<Rightarrow> subscription res" where
  "party_guard env i authorizer s =
     bind_res (require_auth env authorizer) (\<lambda>_.
     bind_res (get_subscription s i) (\<lambda>sub.
     if is_expired sub (ledger_timestamp env) then Err SubscriptionExpired
     else if authorizer \<noteq> subscriber sub \<and> authorizer \<noteq> merchant sub then Err Forbidden
     else Ok sub))"

definition do_cancel_subscription :: "env \<Rightarrow> u32 \<Rightarrow> address \<Rightarrow> vault \<Rightarrow> unit res \<times> vault" where
  "do_cancel_subscription env i authorizer s =
     try_res (party_guard env i authorizer s) s (\<lambda>sub.
     try_res (validate_status_transition (status sub) Cancelled) s (\<lambda>_.
     (Ok (), publish ''subscription_cancelled''
        (LifecycleEv (SubscriptionCancelledEvent i (subscriber sub) (merchant sub) (token sub) authorizer
           (prepaid_balance sub) (ledger_timestamp env)))
        (put_sub i (sub\<lparr>status := Cancelled\<rparr>) s))))"

definition do_pause_subscription :: "env \<Rightarrow> u32 \<Rightarrow> address \<Rightarrow> vault \<Rightarrow> unit res \<times> vault" where
  "do_pause_subscription env i authorizer s =
     try_res (party_guard env i authorizer s) s (\<lambda>sub.
     try_res (validate_status_transition (status sub) Paused) s (\<lambda>_.
     if status sub = Paused then (Ok (), s)
     else (Ok (), publish ''sub_paused''
        (LifecycleEv (SubscriptionPausedEvent i (subscriber sub) (merchant sub) authorizer (ledger_timestamp env)))
        (put_sub i (sub\<lparr>status := Paused\<rparr>) s))))"

definition do_resume_subscription :: "env \<Rightarrow> u32 \<Rightarrow> address \<Rightarrow> vault \<Rightarrow> unit res \<times> vault" where
  "do_resume_subscription env i authorizer s =
     try_res (party_guard env i authorizer s) s (\<lambda>sub.
     try_res (if authorizer = subscriber sub then require_not_blocklisted s (subscriber sub) else Ok ()) s (\<lambda>_.
     try_res (validate_status_transition (status sub) Active) s (\<lambda>_.
     if status sub = Active then (Ok (), s)
     else if (status sub = InsufficientBalance \<or> status sub = GracePeriod) \<and> prepaid_balance sub < amount sub
     then (Err InsufficientBalanceErr, s)
     else (Ok (), publish ''sub_resumed''
        (LifecycleEv (SubscriptionResumedEvent i (subscriber sub) (merchant sub) authorizer (Some (status sub))
           (ledger_timestamp env)))
        (put_sub i (sub\<lparr>status := Active\<rparr>) s)))))"

definition do_cleanup_subscription :: "env \<Rightarrow> u32 \<Rightarrow> address \<Rightarrow> vault \<Rightarrow> unit res \<times> vault" where
  "do_cleanup_subscription env i authorizer s =
     try_res (require_auth env authorizer) s (\<lambda>_.
     try_res (get_subscription s i) s (\<lambda>sub.
     let now = ledger_timestamp env in
     if \<not> (status sub = Cancelled \<or> is_expired sub now) then (Err InvalidStatusTransition, s)
     else if status sub \<noteq> Archived then
       let expire = (status sub \<noteq> Cancelled \<and> status sub \<noteq> Expired \<and> is_expired sub now) in
       try_res (if expire then validate_status_transition (status sub) Expired else Ok ()) s (\<lambda>_.
       let sub1 = (if expire then sub\<lparr>status := Expired\<rparr> else sub) in
       try_res (validate_status_transition (status sub1) Archived) s (\<lambda>_.
       (Ok (), publish ''subscription_archived'' (LifecycleEv (SubscriptionArchivedEvent i now))
          (put_sub i (sub1\<lparr>status := Archived\<rparr>) s))))
     else (Ok (), s)))"

section \<open>One-off charges\<close>

text \<open>A one-off charge announces the cap under a topic of its own.\<close>

definition cap_reach_event :: "u32 \<Rightarrow> subscription \<Rightarrow> u64 \<Rightarrow> vault \<Rightarrow> vault" where
  "cap_reach_event i sub now s =
    (case lifetime_cap sub of
       Some cap \<Rightarrow> publish ''cap_reach'' (FundsEv (LifetimeCapReachedEvent i cap (lifetime_charged sub) now)) s
     | None \<Rightarrow> s)"

definition settle_one_off :: "env \<Rightarrow> u32 \<Rightarrow> subscription \<Rightarrow> i128 \<Rightarrow> i128 \<Rightarrow> vault \<Rightarrow> unit res \<times> vault" where
  "settle_one_off env i sub amt new_charged s =
    (let now = ledger_timestamp env;
         sub1 = sub\<lparr>lifetime_charged := new_charged\<rparr>;
         at_cap = cap_exhausted sub1
     in try_res (safe_sub (prepaid_balance sub1) amt) s (\<lambda>new_balance.
        let sub2 = sub1\<lparr>prepaid_balance := new_balance\<rparr> in
        try_op (credit_merchant_balance_for_token (merchant sub2) (token sub2) amt OneOff s) (\<lambda>_ s1.
        try_res (if at_cap then validate_status_transition (status sub2) Cancelled else Ok ()) s1 (\<lambda>_.
        let sub3 = (if at_cap then sub2\<lparr>status := Cancelled\<rparr> else sub2);
            s2 = put_sub i sub3 (if at_cap then cap_reach_event i sub3 now s1 else s1) in
        try_op (append_statement env i amt (merchant sub3) OneOff now now s2) (\<lambda>_ s3.
        (Ok (), publish ''oneoff_ch'' (FundsEv (OneOffChargedEvent i (subscriber sub3) (merchant sub3) (token sub3)
           amt (prepaid_balance sub3) now)) s3))))))"

definition do_charge_one_off :: "env \<Rightarrow> u32 \<Rightarrow> address \<Rightarrow> i128 \<Rightarrow> vault \<Rightarrow> unit res \<times> vault" where
  "do_charge_one_off env i m amt s =
     try_res (require_auth env m) s (\<lambda>_.
     try_res (get_subscription s i) s (\<lambda>sub.
     let now = ledger_timestamp env in
     try_op (expiration_guard i sub now s) (\<lambda>_ s.
     if merchant sub \<noteq> m then (Err Unauthorized, s)
     else if cap_exhausted sub then
       if status sub \<noteq> Cancelled
       then try_op (cancel_at_cap i sub now s) (\<lambda>_ s1. (Err LifetimeCapReached, s1))
       else (Err LifetimeCapReached, s)
     else if status sub \<noteq> Active \<and> status sub \<noteq> Paused then (Err NotActive, s)
     else if amt \<le> 0 then (Err InvalidAmount, s)
     else if prepaid_balance sub < amt then (Err InsufficientPrepaidBalance, s)
     else
       try_res (safe_add (lifetime_charged sub) amt) s (\<lambda>new_charged.
       if (case lifetime_cap sub of Some cap \<Rightarrow> new_charged > cap | None \<Rightarrow> False)
       then try_op (cancel_at_cap i sub now s) (\<lambda>_ s1. (Err LifetimeCapReached, s1))
       else settle_one_off env i sub amt new_charged s))))"

section \<open>Money back to the subscriber\<close>

definition do_withdraw_subscriber_funds :: "env \<Rightarrow> u32 \<Rightarrow> address \<Rightarrow> vault \<Rightarrow> unit res \<times> vault" where
  "do_withdraw_subscriber_funds env i subr s =
     try_res (require_auth env subr) s (\<lambda>_.
     try_res (get_subscription s i) s (\<lambda>sub.
     if subr \<noteq> subscriber sub then (Err Forbidden, s)
     else
       let amount_to_refund = prepaid_balance sub in
       if amount_to_refund \<le> 0 then (Err InvalidAmount, s)
       else if status sub \<noteq> Cancelled \<and> status sub \<noteq> Expired \<and> status sub \<noteq> Archived
               \<and> \<not> is_expired sub (ledger_timestamp env)
       then (Err InvalidStatusTransition, s)
       else
         try_op (transfer env (token sub) (current_contract_address env) subr amount_to_refund
                   (put_sub i (sub\<lparr>prepaid_balance := 0\<rparr>) s)) (\<lambda>_ s1.
         try_op (sub_total_accounted (token sub) amount_to_refund s1) (\<lambda>_ s2.
         (Ok (), publish ''sub_withdrawn''
            (FundsEv (SubscriberWithdrawalEvent i subr (token sub) amount_to_refund (ledger_timestamp env))) s2)))))"

definition do_partial_refund :: "env \<Rightarrow> address \<Rightarrow> u32 \<Rightarrow> address \<Rightarrow> i128 \<Rightarrow> vault \<Rightarrow> unit res \<times> vault" where
  "do_partial_refund env admin i subr amt s =
     try_res (require_admin_auth env admin s) s (\<lambda>_.
     if amt \<le> 0 then (Err InvalidAmount, s)
     else try_res (get_subscription s i) s (\<lambda>sub.
     if subr \<noteq> subscriber sub then (Err Unauthorized, s)
     else if amt > prepaid_balance sub then (Err InsufficientBalanceErr, s)
     else
       try_res (safe_sub (prepaid_balance sub) amt) s (\<lambda>new_balance.
       try_op (transfer env (token sub) (current_contract_address env) subr amt
                 (put_sub i (sub\<lparr>prepaid_balance := new_balance\<rparr>) s)) (\<lambda>_ s1.
       try_op (sub_total_accounted (token sub) amt s1) (\<lambda>_ s2.
       (Ok (), publish ''partial_refund''
          (RefundEv (PartialRefundEvent i subr (token sub) amt (ledger_timestamp env))) s2))))))"

end
