(* ===== verification/Second_One_Off.thy ===== *)
theory Second_One_Off
  imports Subscription
begin

text \<open>
  The second definition of \<open>do_charge_one_off\<close>, at the end of \<open>subscription.rs\<close>, and why it cannot take the
  place of the first.
\<close>

section \<open>The second one-off charge\<close>

text \<open>
  It calls two checked operators and \<open>credit_merchant\<close>, which the crate does not declare, and builds its
  event from three of the fields of the declared type. These four are parameters. It reads and writes
  the subscription under its bare number, where otherwise only \<open>do_update_subscription_cap\<close> writes.
\<close>

definition do_charge_one_off_bare ::
  "(i128 \<Rightarrow> i128 \<Rightarrow> i128 option) \<Rightarrow> (i128 \<Rightarrow> i128 \<Rightarrow> i128 option) \<Rightarrow> (address \<Rightarrow> address \<Rightarrow> i128 \<Rightarrow> vault \<Rightarrow> vault) \<Rightarrow>
   (u32 \<Rightarrow> address \<Rightarrow> i128 \<Rightarrow> event) \<Rightarrow> env \<Rightarrow> u32 \<Rightarrow> address \<Rightarrow> i128 \<Rightarrow> vault \<Rightarrow> unit res \<times> vault" where
  "do_charge_one_off_bare add_i128 sub_i128 credit_merchant event env i m amt s =
     try_res (require_auth env m) s (\<lambda>_.
     if amt \<le> 0 then (Err InvalidAmount, s)
     else try_res (ok_or (u32_key (sbs s) i) NotFound) s (\<lambda>sub.
     if merchant sub \<noteq> m then (Err Unauthorized, s)
     else if status sub \<noteq> Active \<and> status sub \<noteq> Paused then (Err NotActive, s)
     else try_res (case lifetime_cap sub of
         Some cap \<Rightarrow> bind_res (ok_or (add_i128 (lifetime_charged sub) amt) Overflow)
           (\<lambda>new_charged. if new_charged > cap then Err LifetimeCapReached else Ok ())
       | None \<Rightarrow> Ok ()) s (\<lambda>_.
     if amt > prepaid_balance sub then (Err InsufficientPrepaidBalance, s)
     else
       try_res (ok_or (sub_i128 (prepaid_balance sub) amt) Overflow) s (\<lambda>new_balance.
       try_res (ok_or (add_i128 (lifetime_charged sub) amt) Overflow) s (\<lambda>new_charged.
       let sub' = sub\<lparr>prepaid_balance := new_balance, lifetime_charged := new_charged\<rparr>;
           s1 = s\<lparr>sbs := (sbs s)\<lparr>u32_key := (u32_key (sbs s))(i \<mapsto> sub')\<rparr>\<rparr>;
           s2 = credit_merchant (merchant sub') (token sub') amt s1;
           now = ledger_timestamp env
       in try_op (append_statement env i amt (merchant sub') OneOff now now s2) (\<lambda>_ s3.
          (Ok (), publish ''oneoff_ch'' (event i (merchant sub') amt) s3)))))))"

text \<open>It does not find a subscription whose cap was never updated.\<close>

lemma bare_one_off_unknown:
  "u32_key (sbs s) i = None \<Longrightarrow> authorized env m \<Longrightarrow> 0 < amt \<Longrightarrow>
   do_charge_one_off_bare add sb credit ev env i m amt s = (Err NotFound, s)"
  by (simp add: do_charge_one_off_bare_def require_auth_def)

text \<open>
  Otherwise it debits the copy under the bare number and credits the merchant, but the subscription that
  deposits, charges and withdrawals use keeps its balance: the subscriber can withdraw what the merchant
  was credited.
\<close>

lemma bare_one_off_debits_a_copy:
  assumes "do_charge_one_off_bare add sb credit ev env i m amt s = (Ok (), t)"
    and "\<And>m tok a u. sbs (credit m tok a u) = sbs u"
  shows "subs t = subs s"
    and "\<exists>x y. u32_key (sbs s) i = Some x \<and> u32_key (sbs t) i = Some y \<and> sb (prepaid_balance x) amt = Some (prepaid_balance y)"
proof -
  from assms(1) obtain x b c u v where x: "u32_key (sbs s) i = Some x" and b: "sb (prepaid_balance x) amt = Some b"
    and u: "u = credit (merchant x) (token x) amt (s\<lparr>sbs := (sbs s)\<lparr>u32_key := (u32_key (sbs s))
      (i \<mapsto> x\<lparr>prepaid_balance := b, lifetime_charged := c\<rparr>)\<rparr>\<rparr>)"
    and app: "append_statement env i amt (merchant x) OneOff (ledger_timestamp env) (ledger_timestamp env) u = (Ok (), v)"
    and t: "t = publish ''oneoff_ch'' (ev i (merchant x) amt) v"
    by (auto simp: do_charge_one_off_bare_def Let_def ok_iff split: if_splits)
  have "sbs v = sbs u"
    using endsD [OF append_frame app] by (metis vault.select_convs(3) vault.surjective vault.update_convs(5))
  then have "sbs t = (sbs s)\<lparr>u32_key := (u32_key (sbs s))(i \<mapsto> x\<lparr>prepaid_balance := b, lifetime_charged := c\<rparr>)\<rparr>"
    by (simp add: t u assms(2))
  then show "subs t = subs s"
    and "\<exists>x y. u32_key (sbs s) i = Some x \<and> u32_key (sbs t) i = Some y \<and> sb (prepaid_balance x) amt = Some (prepaid_balance y)"
    using x b by simp_all
qed

end
