(* ===== verification/Contract_Draft.thy ===== *)
theory Contract_Draft
  imports Vault_State
begin

text \<open>
  The early draft of the contract in \<open>temp_lib.rs\<close>, which is in no crate. It has a storage of its own, and
  most of its operations stop after their guards.
\<close>

section \<open>Data\<close>

datatype (plugins only: code size) draft_error =
    DraftNotFound | DraftUnauthorized | DraftBelowMinimumTopup | DraftSubscriptionExpired

primrec draft_code :: "draft_error \<Rightarrow> u32" where
  "draft_code DraftNotFound = 404"
| "draft_code DraftUnauthorized = 401"
| "draft_code DraftBelowMinimumTopup = 402"
| "draft_code DraftSubscriptionExpired = 410"

datatype (plugins only: code size) draft_status =
    DraftActive | DraftPaused | DraftCancelled | DraftInsufficientBalance

record draft_subscription =
  draft_subscriber :: address
  draft_merchant :: address
  draft_amount :: i128
  draft_interval_seconds :: u64
  draft_last_payment_timestamp :: u64
  draft_status :: draft_status
  draft_prepaid_balance :: i128
  draft_usage_enabled :: bool
  expiration :: "u64 option"

record draft_store =
  draft_token_key :: "address option"
  draft_admin_key :: "address option"
  draft_min_topup_key :: "i128 option"
  draft_next_id_key :: "u32 option"
  draft_sub_key :: "u32 \<rightharpoonup> draft_subscription"

type_synonym 'a draft_res = "(draft_error, 'a) result"

section \<open>Operations\<close>

text \<open>A missing signature fails the host call.\<close>

definition draft_auth :: "env \<Rightarrow> address \<Rightarrow> unit draft_res" where
  "draft_auth env a = (if authorized env a then Ok () else Trap)"

definition draft_init :: "address \<Rightarrow> address \<Rightarrow> i128 \<Rightarrow> draft_store \<Rightarrow> unit draft_res \<times> draft_store" where
  "draft_init tok admin min_topup s =
     (Ok (), s\<lparr>draft_token_key := Some tok, draft_admin_key := Some admin, draft_min_topup_key := Some min_topup\<rparr>)"

definition draft_set_min_topup :: "env \<Rightarrow> address \<Rightarrow> i128 \<Rightarrow> draft_store \<Rightarrow> unit draft_res \<times> draft_store" where
  "draft_set_min_topup env admin min_topup s =
     try_res (draft_auth env admin) s (\<lambda>_.
     try_res (ok_or (draft_admin_key s) DraftNotFound) s (\<lambda>stored_admin.
     if admin \<noteq> stored_admin then (Err DraftUnauthorized, s)
     else (Ok (), s\<lparr>draft_min_topup_key := Some min_topup\<rparr>)))"

definition draft_get_min_topup :: "draft_store \<Rightarrow> i128 draft_res" where
  "draft_get_min_topup s = ok_or (draft_min_topup_key s) DraftNotFound"

text \<open>The counter is advanced with the plain operator, which wraps in the release profile.\<close>

definition draft_next_id :: "draft_store \<Rightarrow> u32 \<times> draft_store" where
  "draft_next_id s =
    (let i = unwrap_or (draft_next_id_key s) 0
     in (i, s\<lparr>draft_next_id_key := Some ((i + 1) mod 2 ^ 32)\<rparr>))"

definition draft_create_subscription ::
  "env \<Rightarrow> address \<Rightarrow> address \<Rightarrow> i128 \<Rightarrow> u64 \<Rightarrow> bool \<Rightarrow> u64 option \<Rightarrow> draft_store \<Rightarrow> u32 draft_res \<times> draft_store" where
  "draft_create_subscription env subr m amt interval use_en expires s =
     try_res (draft_auth env subr) s (\<lambda>_.
     let sub = \<lparr>draft_subscriber = subr, draft_merchant = m, draft_amount = amt, draft_interval_seconds = interval,
                draft_last_payment_timestamp = ledger_timestamp env, draft_status = DraftActive,
                draft_prepaid_balance = 0, draft_usage_enabled = use_en, expiration = expires\<rparr>;
         (i, s1) = draft_next_id s
     in (Ok i, s1\<lparr>draft_sub_key := (draft_sub_key s1)(i \<mapsto> sub)\<rparr>))"

definition draft_deposit_funds :: "env \<Rightarrow> u32 \<Rightarrow> address \<Rightarrow> i128 \<Rightarrow> draft_store \<Rightarrow> unit draft_res \<times> draft_store" where
  "draft_deposit_funds env i subr amt s =
     try_res (draft_auth env subr) s (\<lambda>_.
     try_res (ok_or (draft_min_topup_key s) DraftNotFound) s (\<lambda>min_topup.
     if amt < min_topup then (Err DraftBelowMinimumTopup, s) else (Ok (), s)))"

definition draft_charge_subscription :: "env \<Rightarrow> u32 \<Rightarrow> draft_store \<Rightarrow> unit draft_res \<times> draft_store" where
  "draft_charge_subscription env i s =
     try_res (ok_or (draft_sub_key s i) DraftNotFound) s (\<lambda>sub.
     case expiration sub of
       Some exp_ts \<Rightarrow> if exp_ts \<le> ledger_timestamp env then (Err DraftSubscriptionExpired, s) else (Ok (), s)
     | None \<Rightarrow> (Ok (), s))"

definition draft_cancel_subscription :: "env \<Rightarrow> u32 \<Rightarrow> address \<Rightarrow> draft_store \<Rightarrow> unit draft_res \<times> draft_store" where
  "draft_cancel_subscription env i authorizer s = (draft_auth env authorizer, s)"

definition draft_pause_subscription :: "env \<Rightarrow> u32 \<Rightarrow> address \<Rightarrow> draft_store \<Rightarrow> unit draft_res \<times> draft_store" where
  "draft_pause_subscription env i authorizer s = (draft_auth env authorizer, s)"

definition draft_withdraw_merchant_funds :: "env \<Rightarrow> address \<Rightarrow> i128 \<Rightarrow> draft_store \<Rightarrow> unit draft_res \<times> draft_store" where
  "draft_withdraw_merchant_funds env m amt s = (draft_auth env m, s)"

definition draft_get_subscription :: "draft_store \<Rightarrow> u32 \<Rightarrow> draft_subscription draft_res" where
  "draft_get_subscription s i = ok_or (draft_sub_key s i) DraftNotFound"

section \<open>What it does\<close>

text \<open>
  The draft moves nothing: deposits, charges, cancellations, pauses and withdrawals check their guards and
  leave the store as it is, and every balance is zero for ever.
\<close>

lemma draft_moves_nothing:
  "snd (draft_deposit_funds env i u amt s) = s" "snd (draft_charge_subscription env i s) = s"
  "snd (draft_cancel_subscription env i u s) = s" "snd (draft_pause_subscription env i u s) = s"
  "snd (draft_withdraw_merchant_funds env u amt s) = s"
  by (simp_all add: draft_deposit_funds_def draft_charge_subscription_def draft_cancel_subscription_def draft_auth_def
      draft_pause_subscription_def draft_withdraw_merchant_funds_def ok_or_def split: option.split)

lemma draft_creates_empty:
  assumes "draft_create_subscription env u m amt iv en ex s = (Ok i, t)"
  shows "\<exists>x. draft_sub_key t = (draft_sub_key s)(i \<mapsto> x) \<and> draft_prepaid_balance x = 0 \<and> draft_subscriber x = u
    \<and> draft_merchant x = m \<and> expiration x = ex" and "authorized env u"
  using assms by (auto simp: draft_create_subscription_def draft_next_id_def draft_auth_def Let_def split: if_splits)

text \<open>A charge is answered with success exactly for a stored subscription that has not expired.\<close>

lemma draft_charge_iff:
  "fst (draft_charge_subscription env i s) = Ok () \<longleftrightarrow>
   (\<exists>x. draft_sub_key s i = Some x \<and> (\<forall>e. expiration x = Some e \<longrightarrow> ledger_timestamp env < e))"
  by (auto simp: draft_charge_subscription_def ok_or_def not_le split: option.split)

text \<open>Once initialized the smallest deposit is changed only by the stored administrator, or by a second
  initialization, which asks nobody.\<close>

lemma draft_min_topup_iff:
  "fst (draft_set_min_topup env a n s) = Ok () \<longleftrightarrow> authorized env a \<and> draft_admin_key s = Some a"
  by (auto simp: draft_set_min_topup_def draft_auth_def ok_or_def split: option.split)

end
