(* ===== verification/Plans.thy ===== *)
theory Plans
  imports Subscription
begin

text \<open>
  The configuration half of \<open>subscription.rs\<close>: plan templates and their versions, subscriptions
  created from a plan, migration between plan versions, concurrency limits, credit limits, usage
  limits and the defaults and updates of lifetime caps.
\<close>

section \<open>Plans and their limits\<close>

definition next_plan_id :: "vault \<Rightarrow> u32 \<times> vault" where
  "next_plan_id s =
    (let i = unwrap_or (next_plan_id_key (pln s)) 0;
         next_id = unwrap_or (checked_add_u32 i 1) i
     in (i, s\<lparr>pln := (pln s)\<lparr>next_plan_id_key := Some next_id\<rparr>\<rparr>))"

definition get_plan_template :: "vault \<Rightarrow> u32 \<Rightarrow> plan_template res" where
  "get_plan_template s p = ok_or (plan_key (pln s) p) NotFound"

definition put_plan :: "u32 \<Rightarrow> plan_template \<Rightarrow> vault \<Rightarrow> vault" where
  "put_plan p x s = s\<lparr>pln := (pln s)\<lparr>plan_key := (plan_key (pln s))(p \<mapsto> x)\<rparr>\<rparr>"

definition get_plan_max_active :: "vault \<Rightarrow> u32 \<Rightarrow> u32" where
  "get_plan_max_active s p = unwrap_or (plan_max_active_key (pln s) p) 0"

fun count_loop :: "vault \<Rightarrow> address \<Rightarrow> u32 \<Rightarrow> u32 list \<Rightarrow> u32 \<Rightarrow> u32" where
  "count_loop s who p [] n = n"
| "count_loop s who p (i # ids) n =
    (if sub_plan_key (pln s) i \<noteq> Some p then count_loop s who p ids n
     else case subs s i of
       Some sub \<Rightarrow> count_loop s who p ids
         (if subscriber sub = who \<and> status sub = Active then saturating_add_u32 n 1 else n)
     | None \<Rightarrow> count_loop s who p ids n)"

definition count_active_subscriptions_for_plan :: "vault \<Rightarrow> address \<Rightarrow> u32 \<Rightarrow> u32 res" where
  "count_active_subscriptions_for_plan s who p =
    (if next_id_of s > MAX_WRITE_PATH_SCAN_DEPTH then Err InvalidInput
     else Ok (count_loop s who p [0..<next_id_of s] 0))"

definition enforce_plan_concurrency_limit :: "vault \<Rightarrow> address \<Rightarrow> u32 \<Rightarrow> unit res" where
  "enforce_plan_concurrency_limit s who p =
    (let max_active = get_plan_max_active s p in
     if max_active = 0 then Ok ()
     else bind_res (count_active_subscriptions_for_plan s who p) (\<lambda>current.
          if current \<ge> max_active then Err MaxConcurrentSubscriptionsReached else Ok ()))"

section \<open>Templates\<close>

definition store_new_plan ::
  "env \<Rightarrow> address \<Rightarrow> address \<Rightarrow> i128 \<Rightarrow> u64 \<Rightarrow> bool \<Rightarrow> i128 option \<Rightarrow> vault \<Rightarrow> u32 res \<times> vault" where
  "store_new_plan env m tok amt interval use_en cap s =
    (let (plan_id, s1) = next_plan_id s;
         plan = \<lparr>plan_merchant = m, plan_token = tok, plan_amount = amt, plan_interval_seconds = interval,
                 plan_usage_enabled = use_en, plan_lifetime_cap = cap, template_key = plan_id,
                 version = 1, is_disabled = False\<rparr>
     in (Ok plan_id, publish ''plan_created''
           (FundsEv (PlanTemplateCreatedEvent plan_id m tok amt interval use_en cap (ledger_timestamp env)))
           (put_plan plan_id plan s1)))"

definition do_create_plan_template ::
  "env \<Rightarrow> address \<Rightarrow> i128 \<Rightarrow> u64 \<Rightarrow> bool \<Rightarrow> i128 option \<Rightarrow> vault \<Rightarrow> u32 res \<times> vault" where
  "do_create_plan_template env m amt interval use_en cap s =
     try_res (require_auth env m) s (\<lambda>_.
     try_res (validate_interval interval) s (\<lambda>_.
     if (case cap of Some c \<Rightarrow> c \<le> 0 | None \<Rightarrow> False) then (Err InvalidAmount, s)
     else try_res (get_token s) s (\<lambda>tok. store_new_plan env m tok amt interval use_en cap s)))"

definition do_create_plan_template_with_token ::
  "env \<Rightarrow> address \<Rightarrow> address \<Rightarrow> i128 \<Rightarrow> u64 \<Rightarrow> bool \<Rightarrow> i128 option \<Rightarrow> vault \<Rightarrow> u32 res \<times> vault" where
  "do_create_plan_template_with_token env m tok amt interval use_en cap s =
     try_res (require_auth env m) s (\<lambda>_.
     try_res (validate_interval interval) s (\<lambda>_.
     if \<not> is_token_accepted s tok then (Err InvalidInput, s)
     else if (case cap of Some c \<Rightarrow> c \<le> 0 | None \<Rightarrow> False) then (Err InvalidAmount, s)
     else store_new_plan env m tok amt interval use_en cap s))"

definition do_update_plan_template ::
  "env \<Rightarrow> address \<Rightarrow> u32 \<Rightarrow> i128 \<Rightarrow> u64 \<Rightarrow> bool \<Rightarrow> i128 option \<Rightarrow> vault \<Rightarrow> u32 res \<times> vault" where
  "do_update_plan_template env m p amt interval use_en cap s =
     try_res (require_auth env m) s (\<lambda>_.
     try_res (validate_interval interval) s (\<lambda>_.
     if (case cap of Some c \<Rightarrow> c \<le> 0 | None \<Rightarrow> False) then (Err InvalidAmount, s)
     else try_res (get_plan_template s p) s (\<lambda>existing.
     if plan_merchant existing \<noteq> m then (Err Forbidden, s)
     else if use_en \<noteq> plan_usage_enabled existing then (Err CannotChangeUsageMode, s)
     else
       let (new_plan_id, s1) = next_plan_id s in
       try_res (ok_or (checked_add_u32 (version existing) 1) Overflow) s1 (\<lambda>new_version.
       let updated = \<lparr>plan_merchant = m, plan_token = plan_token existing, plan_amount = amt,
                      plan_interval_seconds = interval, plan_usage_enabled = use_en,
                      plan_lifetime_cap = cap, template_key = template_key existing,
                      version = new_version, is_disabled = False\<rparr>
       in (Ok new_plan_id, publish ''plan_template_updated''
             (FundsEv (PlanTemplateUpdatedEvent (template_key existing) p new_plan_id new_version m
                (ledger_timestamp env)))
             (put_plan new_plan_id updated s1))))))"

text \<open>
  Disabling stores the changed template under the tuple key \<open>("plan", id)\<close>, which nothing reads.
\<close>

definition do_disable_plan_template :: "env \<Rightarrow> address \<Rightarrow> u32 \<Rightarrow> vault \<Rightarrow> unit res \<times> vault" where
  "do_disable_plan_template env m p s =
     try_res (require_auth env m) s (\<lambda>_.
     try_res (get_plan_template s p) s (\<lambda>plan.
     if plan_merchant plan \<noteq> m then (Err Forbidden, s)
     else if is_disabled plan then (Ok (), s)
     else (Ok (), publish ''plan_disabled''
        (FundsEv (PlanTemplateDisabledEvent p m (ledger_timestamp env)))
        (s\<lparr>pln := (pln s)\<lparr>plan_symbol_key := (plan_symbol_key (pln s))(p \<mapsto> plan\<lparr>is_disabled := True\<rparr>)\<rparr>\<rparr>))))"

definition do_set_plan_max_active_subs :: "env \<Rightarrow> address \<Rightarrow> u32 \<Rightarrow> u32 \<Rightarrow> vault \<Rightarrow> unit res \<times> vault" where
  "do_set_plan_max_active_subs env m p max_active s =
     try_res (require_auth env m) s (\<lambda>_.
     try_res (get_plan_template s p) s (\<lambda>plan.
     if plan_merchant plan \<noteq> m then (Err Forbidden, s)
     else (Ok (), publish ''plan_max_active_set''
        (FundsEv (PlanMaxActiveUpdatedEvent p m max_active (ledger_timestamp env)))
        (s\<lparr>pln := (pln s)\<lparr>plan_max_active_key := (plan_max_active_key (pln s))(p \<mapsto> max_active)\<rparr>\<rparr>))))"

section \<open>Subscriptions and plans\<close>

definition put_sub_plan :: "u32 \<Rightarrow> u32 \<Rightarrow> vault \<Rightarrow> vault" where
  "put_sub_plan i p s = s\<lparr>pln := (pln s)\<lparr>sub_plan_key := (sub_plan_key (pln s))(i \<mapsto> p)\<rparr>\<rparr>"

definition do_create_subscription_from_plan :: "env \<Rightarrow> address \<Rightarrow> u32 \<Rightarrow> vault \<Rightarrow> u32 res \<times> vault" where
  "do_create_subscription_from_plan env subr p s =
     try_res (require_auth env subr) s (\<lambda>_.
     try_res (require_not_blocklisted s subr) s (\<lambda>_.
     try_res (get_plan_template s p) s (\<lambda>plan.
     if is_disabled plan then (Err InvalidInput, s)
     else try_res (enforce_credit_limit_for_delta s subr (plan_token plan) (plan_amount plan)) s (\<lambda>_.
     try_res (enforce_plan_concurrency_limit s subr p) s (\<lambda>_.
     let i = next_id_of s in
     try_res (ok_or (checked_add_u32 i 1) Overflow) s (\<lambda>next_id.
     let sub = new_subscription env subr (plan_merchant plan) (plan_token plan) (plan_amount plan)
                 (plan_interval_seconds plan) (plan_usage_enabled plan)
                 (resolve_cap s (plan_merchant plan) (plan_lifetime_cap plan)) None
     in (Ok i, publish ''created''
           (LifecycleEv (SubscriptionCreatedEvent i subr (plan_merchant plan) (plan_token plan) (plan_amount plan)
              (plan_interval_seconds plan) (plan_lifetime_cap plan) None (ledger_timestamp env)))
           (put_sub_plan i p (store_new_subscription i next_id sub s)))))))))"

definition do_migrate_subscription_to_plan :: "env \<Rightarrow> address \<Rightarrow> u32 \<Rightarrow> u32 \<Rightarrow> vault \<Rightarrow> unit res \<times> vault" where
  "do_migrate_subscription_to_plan env subr i new_p s =
     try_res (require_auth env subr) s (\<lambda>_.
     try_res (require_not_blocklisted s subr) s (\<lambda>_.
     try_res (get_subscription s i) s (\<lambda>sub.
     if subscriber sub \<noteq> subr then (Err Forbidden, s)
     else try_res (ok_or (sub_plan_key (pln s) i) InvalidInput) s (\<lambda>current_p.
     try_res (get_plan_template s current_p) s (\<lambda>current_plan.
     try_res (get_plan_template s new_p) s (\<lambda>new_plan.
     if template_key current_plan \<noteq> template_key new_plan then (Err InvalidInput, s)
     else if version new_plan \<le> version current_plan then (Err InvalidInput, s)
     else if plan_token new_plan \<noteq> token sub then (Err InvalidInput, s)
     else if plan_usage_enabled new_plan \<noteq> usage_enabled sub then (Err CannotChangeUsageMode, s)
     else if (case plan_lifetime_cap new_plan of Some cap \<Rightarrow> lifetime_charged sub > cap | None \<Rightarrow> False)
     then (Err LifetimeCapReached, s)
     else
       let sub' = sub\<lparr>lifetime_cap := plan_lifetime_cap new_plan, amount := plan_amount new_plan,
                      interval_seconds := plan_interval_seconds new_plan,
                      usage_enabled := plan_usage_enabled new_plan\<rparr>
       in (Ok (), publish ''subscription_migrated''
             (FundsEv (SubscriptionMigratedEvent i (template_key new_plan) current_p new_p
                (plan_merchant new_plan) subr (ledger_timestamp env)))
             (put_sub_plan i new_p (put_sub i sub' s)))))))))"

section \<open>Limits and caps\<close>

definition do_set_subscriber_credit_limit ::
  "env \<Rightarrow> address \<Rightarrow> address \<Rightarrow> address \<Rightarrow> i128 \<Rightarrow> vault \<Rightarrow> unit res \<times> vault" where
  "do_set_subscriber_credit_limit env admin subr tok limit s =
     try_res (require_admin_auth env admin s) s (\<lambda>_.
     if limit < 0 then (Err InvalidAmount, s)
     else (Ok (), s\<lparr>sbs := (sbs s)\<lparr>credit_limit_key := (credit_limit_key (sbs s))((subr, tok) \<mapsto> limit)\<rparr>\<rparr>))"

definition do_configure_usage_limits ::
  "env \<Rightarrow> address \<Rightarrow> u32 \<Rightarrow> u32 option \<Rightarrow> u64 \<Rightarrow> u64 \<Rightarrow> i128 option \<Rightarrow> vault \<Rightarrow> unit res \<times> vault" where
  "do_configure_usage_limits env m i max_calls window burst cap_units s =
     try_res (require_auth env m) s (\<lambda>_.
     try_res (get_subscription s i) s (\<lambda>sub.
     if merchant sub \<noteq> m then (Err Forbidden, s)
     else if \<not> usage_enabled sub then (Err UsageNotEnabled, s)
     else if (case cap_units of Some c \<Rightarrow> c \<le> 0 | None \<Rightarrow> False) then (Err InvalidAmount, s)
     else
       let limits = \<lparr>rate_limit_max_calls = max_calls, rate_window_secs = window,
                     burst_min_interval_secs = burst, usage_cap_units = cap_units\<rparr>
       in (Ok (), publish ''usage_limits_configured''
             (UsageEv (UsageLimitsConfiguredEvent i m max_calls window burst cap_units (ledger_timestamp env)))
             (s\<lparr>sbs := (sbs s)\<lparr>usage_limits_key := (usage_limits_key (sbs s))(i \<mapsto> limits)\<rparr>\<rparr>))))"

definition do_set_global_cap_default :: "env \<Rightarrow> address \<Rightarrow> i128 option \<Rightarrow> vault \<Rightarrow> unit res \<times> vault" where
  "do_set_global_cap_default env admin cap s =
     try_res (require_admin_auth env admin s) s (\<lambda>_.
     if (case cap of Some c \<Rightarrow> c \<le> 0 | None \<Rightarrow> False) then (Err InvalidAmount, s)
     else (Ok (), publish ''global_cap_set''
        (ConfigEv (GlobalCapDefaultUpdatedEvent admin (get_global_cap_default s) cap (ledger_timestamp env)))
        (s\<lparr>sbs := (sbs s)\<lparr>cap_default_key := cap\<rparr>\<rparr>)))"

definition do_set_merchant_cap_default :: "env \<Rightarrow> address \<Rightarrow> i128 option \<Rightarrow> vault \<Rightarrow> unit res \<times> vault" where
  "do_set_merchant_cap_default env m cap s =
     try_res (require_auth env m) s (\<lambda>_.
     if (case cap of Some c \<Rightarrow> c \<le> 0 | None \<Rightarrow> False) then (Err InvalidAmount, s)
     else (Ok (), publish ''merchant_cap_set''
        (ConfigEv (MerchantCapDefaultUpdatedEvent m (get_merchant_cap_default s m) cap (ledger_timestamp env)))
        (s\<lparr>sbs := (sbs s)\<lparr>merch_cap_key := (merch_cap_key (sbs s))(m := cap)\<rparr>\<rparr>)))"

text \<open>
  The updated subscription is stored under its bare number, not under \<open>DataKey::Sub\<close>.
\<close>

definition do_update_subscription_cap :: "env \<Rightarrow> address \<Rightarrow> u32 \<Rightarrow> i128 option \<Rightarrow> vault \<Rightarrow> unit res \<times> vault" where
  "do_update_subscription_cap env admin i new_cap s =
     try_res (require_admin_auth env admin s) s (\<lambda>_.
     if (case new_cap of Some c \<Rightarrow> c \<le> 0 | None \<Rightarrow> False) then (Err InvalidAmount, s)
     else try_res (get_subscription s i) s (\<lambda>sub.
     if (case new_cap of Some c \<Rightarrow> c < lifetime_charged sub | None \<Rightarrow> False) then (Err LifetimeCapReached, s)
     else (Ok (), publish ''cap_updated''
        (ConfigEv (LifetimeCapUpdatedEvent i (lifetime_cap sub) new_cap (ledger_timestamp env)))
        (s\<lparr>sbs := (sbs s)\<lparr>u32_key := (u32_key (sbs s))(i \<mapsto> sub\<lparr>lifetime_cap := new_cap\<rparr>)\<rparr>\<rparr>))))"

end
