(* ===== verification/Metadata.thy ===== *)
theory Metadata
  imports Queries
begin

text \<open>
  \<open>metadata.rs\<close>: a bounded list of keys per subscription with one value per key. Lengths are
  counted in characters, which for the byte strings of the host are bytes.
\<close>

definition MAX_METADATA_KEYS :: u32 where "MAX_METADATA_KEYS = 10"
definition MAX_METADATA_KEY_LENGTH :: u32 where "MAX_METADATA_KEY_LENGTH = 32"
definition MAX_METADATA_VALUE_LENGTH :: u32 where "MAX_METADATA_VALUE_LENGTH = 256"

section \<open>Operations\<close>

definition metadata_keys :: "vault \<Rightarrow> u32 \<Rightarrow> string list" where
  "metadata_keys s i = unwrap_or (mk_key (met s) i) []"

definition set_metadata_keys :: "u32 \<Rightarrow> string list \<Rightarrow> vault \<Rightarrow> vault" where
  "set_metadata_keys i ks s = s\<lparr>met := (met s)\<lparr>mk_key := (mk_key (met s))(i \<mapsto> ks)\<rparr>\<rparr>"

definition set_metadata_value :: "u32 \<Rightarrow> string \<Rightarrow> string option \<Rightarrow> vault \<Rightarrow> vault" where
  "set_metadata_value i k v s = s\<lparr>met := (met s)\<lparr>mv_key := (mv_key (met s))((i, k) := v)\<rparr>\<rparr>"

definition do_set_metadata :: "env \<Rightarrow> u32 \<Rightarrow> address \<Rightarrow> string \<Rightarrow> string \<Rightarrow> vault \<Rightarrow> unit res \<times> vault" where
  "do_set_metadata env i authorizer key value s =
     try_res (require_auth env authorizer) s (\<lambda>_.
     try_res (get_subscription s i) s (\<lambda>sub.
     if authorizer \<noteq> subscriber sub \<and> authorizer \<noteq> merchant sub then (Err Forbidden, s)
     else if status sub = Cancelled then (Err NotActive, s)
     else if key = [] \<or> length key > MAX_METADATA_KEY_LENGTH then (Err MetadataKeyTooLong, s)
     else if length value > MAX_METADATA_VALUE_LENGTH then (Err MetadataValueTooLong, s)
     else
       let keys = metadata_keys s i;
           found = (key \<in> set keys)
       in if \<not> found \<and> length keys \<ge> MAX_METADATA_KEYS then (Err MetadataKeyLimitReached, s)
          else let s1 = (if found then s else set_metadata_keys i (keys @ [key]) s)
               in (Ok (), publish ''metadata_set'' (FundsEv (MetadataSetEvent i key authorizer))
                     (set_metadata_value i key (Some value) s1))))"

fun find_index :: "'a \<Rightarrow> 'a list \<Rightarrow> nat \<Rightarrow> nat option" where
  "find_index x [] n = None"
| "find_index x (y # ys) n = (if y = x then Some n else find_index x ys (Suc n))"

definition do_delete_metadata :: "env \<Rightarrow> u32 \<Rightarrow> address \<Rightarrow> string \<Rightarrow> vault \<Rightarrow> unit res \<times> vault" where
  "do_delete_metadata env i authorizer key s =
     try_res (require_auth env authorizer) s (\<lambda>_.
     try_res (get_subscription s i) s (\<lambda>sub.
     if authorizer \<noteq> subscriber sub \<and> authorizer \<noteq> merchant sub then (Err Forbidden, s)
     else
       let keys = metadata_keys s i in
       case find_index key keys 0 of
         Some idx \<Rightarrow>
           (Ok (), publish ''metadata_deleted'' (FundsEv (MetadataDeletedEvent i key authorizer))
              (set_metadata_value i key None
                 (set_metadata_keys i (take idx keys @ drop (Suc idx) keys) s)))
       | None \<Rightarrow> (Err NotFound, s)))"

definition do_get_metadata :: "vault \<Rightarrow> u32 \<Rightarrow> string \<Rightarrow> string res" where
  "do_get_metadata s i key =
     bind_res (get_subscription s i) (\<lambda>_. ok_or (mv_key (met s) (i, key)) NotFound)"

definition do_list_metadata_keys :: "vault \<Rightarrow> u32 \<Rightarrow> string list res" where
  "do_list_metadata_keys s i = bind_res (get_subscription s i) (\<lambda>_. Ok (metadata_keys s i))"

section \<open>The invariant of the store\<close>

text \<open>
  The keys of a subscription are distinct, few and short, and they are exactly the keys under
  which a value is stored.
\<close>

definition metadata_ok :: "vault \<Rightarrow> bool" where
  "metadata_ok s \<longleftrightarrow> (\<forall>i. distinct (metadata_keys s i) \<and> length (metadata_keys s i) \<le> MAX_METADATA_KEYS \<and>
     (\<forall>k. k \<in> set (metadata_keys s i) \<longleftrightarrow> mv_key (met s) (i, k) \<noteq> None) \<and>
     (\<forall>k v. mv_key (met s) (i, k) = Some v \<longrightarrow>
        k \<noteq> [] \<and> length k \<le> MAX_METADATA_KEY_LENGTH \<and> length v \<le> MAX_METADATA_VALUE_LENGTH))"

lemma find_index_Some:
  "find_index x ys n = Some j \<Longrightarrow> n \<le> j \<and> j - n < length ys \<and> ys ! (j - n) = x"
proof (induction ys arbitrary: n)
  case (Cons y ys)
  show ?case
  proof (cases "y = x")
    case False
    with Cons.prems have "find_index x ys (Suc n) = Some j" by simp
    from Cons.IH [OF this] have "j - n = Suc (j - Suc n)" and "j - Suc n < length ys" and "ys ! (j - Suc n) = x"
      and "n \<le> j" by auto
    then show ?thesis by simp
  qed (use Cons.prems in simp)
qed simp

lemma find_index_None: "find_index x ys n = None \<longleftrightarrow> x \<notin> set ys"
  by (induction ys arbitrary: n) auto

lemma remove_nth_distinct:
  assumes "distinct ys" and "j < length ys"
  shows "distinct (take j ys @ drop (Suc j) ys)"
    and "set (take j ys @ drop (Suc j) ys) = set ys - {ys ! j}"
    and "length (take j ys @ drop (Suc j) ys) = length ys - 1"
proof -
  have ys: "ys = take j ys @ ys ! j # drop (Suc j) ys"
    using assms(2) by (simp add: id_take_nth_drop)
  have d: "distinct (take j ys @ ys ! j # drop (Suc j) ys)"
    using assms(1) ys by argo
  then show "distinct (take j ys @ drop (Suc j) ys)" by auto
  have "set ys = set (take j ys @ ys ! j # drop (Suc j) ys)" using ys by argo
  with d show "set (take j ys @ drop (Suc j) ys) = set ys - {ys ! j}" by auto
  show "length (take j ys @ drop (Suc j) ys) = length ys - 1" using assms(2) by simp
qed

lemma metadata_set_simps [simp]:
  "metadata_keys (set_metadata_keys i ks s) j = (if j = i then ks else metadata_keys s j)"
  "metadata_keys (set_metadata_value i k v s) j = metadata_keys s j"
  "metadata_keys (publish t e s) j = metadata_keys s j"
  "mv_key (met (set_metadata_keys i ks s)) = mv_key (met s)"
  "mv_key (met (set_metadata_value i k v s)) = (mv_key (met s))((i, k) := v)"
  "sbs (set_metadata_keys i ks s) = sbs s" "sbs (set_metadata_value i k v s) = sbs s"
  by (simp_all add: metadata_keys_def set_metadata_keys_def set_metadata_value_def)

lemma set_metadata_Ok:
  assumes "do_set_metadata env i a key value s = (Ok (), t)"
  shows "key \<noteq> []" and "length key \<le> MAX_METADATA_KEY_LENGTH"
    and "length value \<le> MAX_METADATA_VALUE_LENGTH"
    and "key \<notin> set (metadata_keys s i) \<Longrightarrow> length (metadata_keys s i) < MAX_METADATA_KEYS"
    and "metadata_keys t = (metadata_keys s)(i := if key \<in> set (metadata_keys s i) then metadata_keys s i
                                                 else metadata_keys s i @ [key])"
    and "mv_key (met t) = (mv_key (met s))((i, key) \<mapsto> value)"
    and "sbs t = sbs s"
  using assms by (auto simp: do_set_metadata_def ok_iff Let_def not_less fun_eq_iff split: if_splits)

lemma delete_metadata_Ok:
  assumes "do_delete_metadata env i a key s = (Ok (), t)"
  obtains j where "find_index key (metadata_keys s i) 0 = Some j"
    and "metadata_keys t = (metadata_keys s)(i := take j (metadata_keys s i) @ drop (Suc j) (metadata_keys s i))"
    and "mv_key (met t) = (mv_key (met s))((i, key) := None)"
    and "sbs t = sbs s"
  using assms by (auto simp: do_delete_metadata_def ok_iff Let_def fun_eq_iff split: option.splits)

lemma set_metadata_ok:
  assumes "metadata_ok s" and "do_set_metadata env i a key value s = (Ok (), t)"
  shows "metadata_ok t"
  using assms(1) set_metadata_Ok [OF assms(2)]
  unfolding metadata_ok_def by (auto simp: not_le less_eq_Suc_le)

lemma delete_metadata_ok:
  assumes ok: "metadata_ok s" and run: "do_delete_metadata env i a key s = (Ok (), t)"
  shows "metadata_ok t"
proof -
  obtain j where j: "find_index key (metadata_keys s i) 0 = Some j"
    and keys: "metadata_keys t = (metadata_keys s)(i := take j (metadata_keys s i) @ drop (Suc j) (metadata_keys s i))"
    and vals: "mv_key (met t) = (mv_key (met s))((i, key) := None)"
    using delete_metadata_Ok [OF run] by blast
  have nth: "j < length (metadata_keys s i)" "metadata_keys s i ! j = key"
    using find_index_Some [OF j] by simp_all
  have "distinct (metadata_keys s i)" and "length (metadata_keys s i) \<le> MAX_METADATA_KEYS"
    using ok by (simp_all add: metadata_ok_def)
  note rem = remove_nth_distinct [OF this(1) nth(1)] this(2)
  let ?ks = "take j (metadata_keys s i) @ drop (Suc j) (metadata_keys s i)"
  have ks: "distinct ?ks" "set ?ks = set (metadata_keys s i) - {key}" "length ?ks \<le> MAX_METADATA_KEYS"
    using rem(1) apply blast
    using rem(2) nth(2) apply simp
    using rem(3,4) by simp
  show ?thesis
    using ok ks unfolding metadata_ok_def keys vals fun_upd_apply by (auto simp del: set_append)
qed

section \<open>A bounded map\<close>

definition metadata_map :: "vault \<Rightarrow> u32 \<Rightarrow> string \<rightharpoonup> string" where
  "metadata_map s i k = mv_key (met s) (i, k)"

lemma delete_metadata_map:
  assumes "do_delete_metadata env i a key s = (Ok (), t)"
  shows "metadata_map t = (metadata_map s)(i := (metadata_map s i)(key := None))"
  using assms by (rule delete_metadata_Ok) (simp add: metadata_map_def fun_eq_iff)

lemma delete_metadata_dom:
  assumes "metadata_ok s" and "do_delete_metadata env i a key s = (Ok (), t)"
  shows "key \<in> dom (metadata_map s i)"
proof -
  obtain j where "find_index key (metadata_keys s i) 0 = Some j"
    using assms(2) by (rule delete_metadata_Ok)
  then have "key \<in> set (metadata_keys s i)" by (metis find_index_None option.distinct(1))
  with assms(1) show ?thesis by (auto simp: metadata_ok_def metadata_map_def)
qed

text \<open>C39. The store is a map of at most ten short entries per subscription: setting updates it at the
  key, deleting removes the key, reading is lookup and listing gives its domain without repetition.\<close>

theorem metadata_is_bounded_map:
  assumes ok: "metadata_ok s"
  shows "(\<forall>t. do_set_metadata env i a key value s = (Ok (), t) \<longrightarrow>
      metadata_ok t \<and> metadata_map t = (metadata_map s)(i := (metadata_map s i)(key \<mapsto> value))) \<and>
    (\<forall>t. do_delete_metadata env i a key s = (Ok (), t) \<longrightarrow>
      metadata_ok t \<and> key \<in> dom (metadata_map s i) \<and>
      metadata_map t = (metadata_map s)(i := (metadata_map s i)(key := None))) \<and>
    (\<forall>v. do_get_metadata s i key = Ok v \<longleftrightarrow> subs s i \<noteq> None \<and> metadata_map s i key = Some v) \<and>
    (\<forall>ks. do_list_metadata_keys s i = Ok ks \<longrightarrow>
      distinct ks \<and> set ks = dom (metadata_map s i) \<and> length ks \<le> MAX_METADATA_KEYS)"
proof (intro conjI allI)
  fix t
  show "do_set_metadata env i a key value s = (Ok (), t) \<longrightarrow>
      metadata_ok t \<and> metadata_map t = (metadata_map s)(i := (metadata_map s i)(key \<mapsto> value))"
    using set_metadata_ok [OF ok] set_metadata_Ok(6)
    by (fastforce simp: metadata_map_def fun_eq_iff)
  show "do_delete_metadata env i a key s = (Ok (), t) \<longrightarrow>
      metadata_ok t \<and> key \<in> dom (metadata_map s i) \<and>
      metadata_map t = (metadata_map s)(i := (metadata_map s i)(key := None))"
    using delete_metadata_ok [OF ok] delete_metadata_dom [OF ok] delete_metadata_map by blast
next
  fix v ks
  show "do_get_metadata s i key = Ok v \<longleftrightarrow> subs s i \<noteq> None \<and> metadata_map s i key = Some v"
    by (auto simp: do_get_metadata_def get_subscription_def metadata_map_def ok_iff)
  show "do_list_metadata_keys s i = Ok ks \<longrightarrow>
      distinct ks \<and> set ks = dom (metadata_map s i) \<and> length ks \<le> MAX_METADATA_KEYS"
    using ok by (auto simp: do_list_metadata_keys_def ok_iff metadata_ok_def metadata_map_def)
qed

definition demo_metadata :: vault where
  "demo_metadata = snd (do_set_metadata demo_env 0 (Address 3) ''invoice'' ''4711'' demo_subs)"

theorem metadata_is_bounded_map_witness:
  "metadata_map demo_metadata = (metadata_map demo_subs)(0 := (metadata_map demo_subs 0)(''invoice'' \<mapsto> ''4711''))
   \<and> do_get_metadata demo_subs 0 ''invoice'' \<noteq> Ok ''4711''"
proof -
  have ok: "metadata_ok demo_subs"
    by (simp add: metadata_ok_def metadata_keys_def vault_init_def)
  have run: "do_set_metadata demo_env 0 (Address 3) ''invoice'' ''4711'' demo_subs = (Ok (), demo_metadata)"
    by (simp add: demo_metadata_def do_set_metadata_def require_auth_def get_subscription_def demo_sub_def
        metadata_keys_def vault_init_def MAX_METADATA_KEYS_def MAX_METADATA_KEY_LENGTH_def
        MAX_METADATA_VALUE_LENGTH_def Let_def)
  show ?thesis
    using metadata_is_bounded_map [OF ok, of demo_env 0 "Address 3" "''invoice''" "''4711''"] run
    by (simp add: metadata_map_def vault_init_def)
qed

end
