(* ===== verification/Contract_Interface.thy ===== *)
theory Contract_Interface
  imports Plans Merchant Oracle Statements Period_Snapshots Blocklist Metadata
begin

text \<open>
  The functions of \<open>lib.rs\<close> that hand their arguments to a function of a module and return its result:
  the contract's queries, and the state-changing entry points to which \<open>lib.rs\<close> adds nothing. A client
  calls these names; the proofs see through them.
\<close>

section \<open>Queries\<close>

definition lib_get_min_topup :: "vault \<Rightarrow> i128 res" where
  "lib_get_min_topup s = get_min_topup s"

definition lib_get_admin :: "vault \<Rightarrow> address res" where
  "lib_get_admin s = do_get_admin s"

definition lib_get_admin_nonce :: "vault \<Rightarrow> address \<Rightarrow> u32 \<Rightarrow> u64" where
  "lib_get_admin_nonce s signer domain = get_nonce s signer domain"

definition lib_get_emergency_stop_status :: "vault \<Rightarrow> bool" where
  "lib_get_emergency_stop_status s = get_emergency_stop s"

definition lib_get_plan_template :: "vault \<Rightarrow> u32 \<Rightarrow> plan_template res" where
  "lib_get_plan_template s p = get_plan_template s p"

definition lib_get_plan_max_active_subs :: "vault \<Rightarrow> u32 \<Rightarrow> u32" where
  "lib_get_plan_max_active_subs s p = get_plan_max_active_subs s p"

definition lib_get_subscriber_credit_limit :: "vault \<Rightarrow> address \<Rightarrow> address \<Rightarrow> i128" where
  "lib_get_subscriber_credit_limit s subr tok = get_subscriber_credit_limit s subr tok"

definition lib_get_subscriber_exposure :: "vault \<Rightarrow> address \<Rightarrow> address \<Rightarrow> i128 res" where
  "lib_get_subscriber_exposure s subr tok = compute_subscriber_exposure s subr tok"

definition lib_get_merchant_balance :: "vault \<Rightarrow> address \<Rightarrow> i128" where
  "lib_get_merchant_balance s m = get_merchant_balance s m"

definition lib_get_merchant_balance_by_token :: "vault \<Rightarrow> address \<Rightarrow> address \<Rightarrow> i128" where
  "lib_get_merchant_balance_by_token s m tok = get_merchant_balance_by_token s m tok"

definition lib_get_merchant_paused :: "vault \<Rightarrow> address \<Rightarrow> bool" where
  "lib_get_merchant_paused s m = get_merchant_paused s m"

definition lib_get_reconciliation_snapshot ::
  "vault \<Rightarrow> address \<Rightarrow> token_reconciliation_snapshot list" where
  "lib_get_reconciliation_snapshot s m = get_reconciliation_snapshot s m"

definition lib_get_merchant_total_earnings ::
  "vault \<Rightarrow> address \<Rightarrow> (address \<times> token_earnings) list" where
  "lib_get_merchant_total_earnings s m = get_merchant_total_earnings s m"

definition lib_get_subscription :: "vault \<Rightarrow> u32 \<Rightarrow> subscription res" where
  "lib_get_subscription s i = get_subscription s i"

definition lib_estimate_topup_for_intervals :: "vault \<Rightarrow> u32 \<Rightarrow> u32 \<Rightarrow> i128 res" where
  "lib_estimate_topup_for_intervals s i n = estimate_topup_for_intervals s i n"

definition lib_get_next_charge_info :: "vault \<Rightarrow> u32 \<Rightarrow> next_charge_info res" where
  "lib_get_next_charge_info s i = get_next_charge_info s i"

definition lib_get_subscriptions_by_merchant ::
  "vault \<Rightarrow> address \<Rightarrow> u32 \<Rightarrow> u32 \<Rightarrow> subscription list res" where
  "lib_get_subscriptions_by_merchant s m start limit = get_subscriptions_by_merchant s m start limit"

definition lib_get_merchant_subscription_count :: "vault \<Rightarrow> address \<Rightarrow> u32" where
  "lib_get_merchant_subscription_count s m = get_merchant_subscription_count s m"

definition lib_get_token_subscription_count :: "vault \<Rightarrow> address \<Rightarrow> u32" where
  "lib_get_token_subscription_count s tok = get_token_subscription_count s tok"

definition lib_list_subscriptions_by_subscriber ::
  "vault \<Rightarrow> address \<Rightarrow> u32 \<Rightarrow> u32 \<Rightarrow> subscriptions_page res" where
  "lib_list_subscriptions_by_subscriber s subr start limit = list_subscriptions_by_subscriber s subr start limit"

definition lib_get_cap_info :: "vault \<Rightarrow> u32 \<Rightarrow> cap_info res" where
  "lib_get_cap_info s i = get_cap_info s i"

definition lib_get_global_cap_default :: "vault \<Rightarrow> i128 option" where
  "lib_get_global_cap_default s = get_global_cap_default s"

definition lib_get_merchant_cap_default :: "vault \<Rightarrow> address \<Rightarrow> i128 option" where
  "lib_get_merchant_cap_default s m = get_merchant_cap_default s m"

definition lib_get_sub_statements_offset ::
  "vault \<Rightarrow> u32 \<Rightarrow> u32 \<Rightarrow> u32 \<Rightarrow> bool \<Rightarrow> billing_statements_page res" where
  "lib_get_sub_statements_offset s i offset limit newest = get_statements_by_subscription_offset s i offset limit newest"

definition lib_get_sub_statements_cursor ::
  "vault \<Rightarrow> u32 \<Rightarrow> u32 option \<Rightarrow> u32 \<Rightarrow> bool \<Rightarrow> billing_statements_page res" where
  "lib_get_sub_statements_cursor s i cursor limit newest = get_statements_by_subscription_cursor s i cursor limit newest"

definition lib_get_period_snapshot ::
  "vault \<Rightarrow> u32 \<Rightarrow> u64 \<Rightarrow> billing_period_snapshot option" where
  "lib_get_period_snapshot s i idx = get_period_snapshot s i idx"

definition lib_list_period_snapshots ::
  "vault \<Rightarrow> u32 \<Rightarrow> u32 \<Rightarrow> billing_period_snapshot list" where
  "lib_list_period_snapshots s i limit = list_period_snapshots s i limit"

definition lib_list_accepted_tokens :: "vault \<Rightarrow> accepted_token list" where
  "lib_list_accepted_tokens s = list_accepted_tokens s"

definition lib_get_subscriptions_by_token ::
  "vault \<Rightarrow> address \<Rightarrow> u32 \<Rightarrow> u32 \<Rightarrow> subscription list res" where
  "lib_get_subscriptions_by_token s tok start limit = get_subscriptions_by_token s tok start limit"

definition lib_get_billing_retention :: "vault \<Rightarrow> u32" where
  "lib_get_billing_retention s = get_retention_config s"

definition lib_get_stmt_compacted_aggregate :: "vault \<Rightarrow> u32 \<Rightarrow> billing_statement_aggregate" where
  "lib_get_stmt_compacted_aggregate s i = get_compacted_aggregate s i"

definition lib_get_oracle_config :: "vault \<Rightarrow> oracle_config" where
  "lib_get_oracle_config s = get_oracle_config s"

definition lib_get_metadata :: "vault \<Rightarrow> u32 \<Rightarrow> string \<Rightarrow> string res" where
  "lib_get_metadata s i key = do_get_metadata s i key"

definition lib_list_metadata_keys :: "vault \<Rightarrow> u32 \<Rightarrow> string list res" where
  "lib_list_metadata_keys s i = do_list_metadata_keys s i"

definition lib_get_protocol_fee_bps :: "vault \<Rightarrow> u32" where
  "lib_get_protocol_fee_bps s = get_protocol_fee_bps s"

definition lib_get_blocklist_entry :: "vault \<Rightarrow> address \<Rightarrow> blocklist_entry res" where
  "lib_get_blocklist_entry s subr = get_blocklist_entry s subr"

definition lib_is_blocklisted :: "vault \<Rightarrow> address \<Rightarrow> bool" where
  "lib_is_blocklisted s subr = is_blocklisted s subr"

definition lib_get_merchant_config :: "vault \<Rightarrow> address \<Rightarrow> merchant_config option" where
  "lib_get_merchant_config s m = get_merchant_config s m"

section \<open>Entry points that change the state\<close>

definition lib_init ::
  "env \<Rightarrow> address \<Rightarrow> u32 \<Rightarrow> address \<Rightarrow> i128 \<Rightarrow> u64 \<Rightarrow> vault \<Rightarrow> unit res \<times> vault" where
  "lib_init env tok dec a topup grace s = do_init env tok dec a topup grace s"

definition lib_set_min_topup ::
  "env \<Rightarrow> address \<Rightarrow> i128 \<Rightarrow> vault \<Rightarrow> unit res \<times> vault" where
  "lib_set_min_topup env a topup s = do_set_min_topup env a topup s"

definition lib_rotate_admin ::
  "env \<Rightarrow> address \<Rightarrow> address \<Rightarrow> u64 \<Rightarrow> vault \<Rightarrow> unit res \<times> vault" where
  "lib_rotate_admin env old new nonce s = do_rotate_admin env old new nonce s"

definition lib_recover_stranded_funds ::
  "env \<Rightarrow> address \<Rightarrow> address \<Rightarrow> address \<Rightarrow> i128 \<Rightarrow> string \<Rightarrow> recovery_reason \<Rightarrow> vault \<Rightarrow> unit res \<times> vault" where
  "lib_recover_stranded_funds env a tok r amt rid why s = do_recover_stranded_funds env a tok r amt rid why s"

definition lib_create_plan_template ::
  "env \<Rightarrow> address \<Rightarrow> i128 \<Rightarrow> u64 \<Rightarrow> bool \<Rightarrow> i128 option \<Rightarrow> vault \<Rightarrow> u32 res \<times> vault" where
  "lib_create_plan_template env m amt interval use_en cap s = do_create_plan_template env m amt interval use_en cap s"

definition lib_create_plan_template_with_token ::
  "env \<Rightarrow> address \<Rightarrow> address \<Rightarrow> i128 \<Rightarrow> u64 \<Rightarrow> bool \<Rightarrow> i128 option \<Rightarrow> vault \<Rightarrow> u32 res \<times> vault" where
  "lib_create_plan_template_with_token env m tok amt interval use_en cap s =
     do_create_plan_template_with_token env m tok amt interval use_en cap s"

definition lib_update_plan_template ::
  "env \<Rightarrow> address \<Rightarrow> u32 \<Rightarrow> i128 \<Rightarrow> u64 \<Rightarrow> bool \<Rightarrow> i128 option \<Rightarrow> vault \<Rightarrow> u32 res \<times> vault" where
  "lib_update_plan_template env m p amt interval use_en cap s = do_update_plan_template env m p amt interval use_en cap s"

definition lib_set_plan_max_active_subs ::
  "env \<Rightarrow> address \<Rightarrow> u32 \<Rightarrow> u32 \<Rightarrow> vault \<Rightarrow> unit res \<times> vault" where
  "lib_set_plan_max_active_subs env m p n s = do_set_plan_max_active_subs env m p n s"

definition lib_migrate_subscription_to_plan ::
  "env \<Rightarrow> address \<Rightarrow> u32 \<Rightarrow> u32 \<Rightarrow> vault \<Rightarrow> unit res \<times> vault" where
  "lib_migrate_subscription_to_plan env subr i p s = do_migrate_subscription_to_plan env subr i p s"

definition lib_set_subscriber_credit_limit ::
  "env \<Rightarrow> address \<Rightarrow> address \<Rightarrow> address \<Rightarrow> i128 \<Rightarrow> vault \<Rightarrow> unit res \<times> vault" where
  "lib_set_subscriber_credit_limit env a subr tok limit s = do_set_subscriber_credit_limit env a subr tok limit s"

definition lib_cancel_subscription ::
  "env \<Rightarrow> u32 \<Rightarrow> address \<Rightarrow> vault \<Rightarrow> unit res \<times> vault" where
  "lib_cancel_subscription env i a s = do_cancel_subscription env i a s"

definition lib_pause_subscription ::
  "env \<Rightarrow> u32 \<Rightarrow> address \<Rightarrow> vault \<Rightarrow> unit res \<times> vault" where
  "lib_pause_subscription env i a s = do_pause_subscription env i a s"

definition lib_resume_subscription ::
  "env \<Rightarrow> u32 \<Rightarrow> address \<Rightarrow> vault \<Rightarrow> unit res \<times> vault" where
  "lib_resume_subscription env i a s = do_resume_subscription env i a s"

definition lib_cleanup_subscription ::
  "env \<Rightarrow> u32 \<Rightarrow> address \<Rightarrow> vault \<Rightarrow> unit res \<times> vault" where
  "lib_cleanup_subscription env i a s = do_cleanup_subscription env i a s"

definition lib_configure_usage_limits ::
  "env \<Rightarrow> address \<Rightarrow> u32 \<Rightarrow> u32 option \<Rightarrow> u64 \<Rightarrow> u64 \<Rightarrow> i128 option \<Rightarrow> vault \<Rightarrow> unit res \<times> vault" where
  "lib_configure_usage_limits env m i max_calls window burst units s =
     do_configure_usage_limits env m i max_calls window burst units s"

definition lib_pause_merchant :: "env \<Rightarrow> address \<Rightarrow> vault \<Rightarrow> unit res \<times> vault" where
  "lib_pause_merchant env m s = pause_merchant env m s"

definition lib_unpause_merchant ::
  "env \<Rightarrow> address \<Rightarrow> vault \<Rightarrow> unit res \<times> vault" where
  "lib_unpause_merchant env m s = unpause_merchant env m s"

definition lib_set_global_cap_default ::
  "env \<Rightarrow> address \<Rightarrow> i128 option \<Rightarrow> vault \<Rightarrow> unit res \<times> vault" where
  "lib_set_global_cap_default env a cap s = do_set_global_cap_default env a cap s"

definition lib_set_merchant_cap_default ::
  "env \<Rightarrow> address \<Rightarrow> i128 option \<Rightarrow> vault \<Rightarrow> unit res \<times> vault" where
  "lib_set_merchant_cap_default env m cap s = do_set_merchant_cap_default env m cap s"

definition lib_update_subscription_cap ::
  "env \<Rightarrow> address \<Rightarrow> u32 \<Rightarrow> i128 option \<Rightarrow> vault \<Rightarrow> unit res \<times> vault" where
  "lib_update_subscription_cap env a i cap s = do_update_subscription_cap env a i cap s"

definition lib_add_accepted_token ::
  "env \<Rightarrow> address \<Rightarrow> address \<Rightarrow> u32 \<Rightarrow> vault \<Rightarrow> unit res \<times> vault" where
  "lib_add_accepted_token env a tok dec s = add_accepted_token env a tok dec s"

definition lib_remove_accepted_token ::
  "env \<Rightarrow> address \<Rightarrow> address \<Rightarrow> vault \<Rightarrow> unit res \<times> vault" where
  "lib_remove_accepted_token env a tok s = remove_accepted_token env a tok s"

definition lib_set_metadata ::
  "env \<Rightarrow> u32 \<Rightarrow> address \<Rightarrow> string \<Rightarrow> string \<Rightarrow> vault \<Rightarrow> unit res \<times> vault" where
  "lib_set_metadata env i a key val s = do_set_metadata env i a key val s"

definition lib_delete_metadata ::
  "env \<Rightarrow> u32 \<Rightarrow> address \<Rightarrow> string \<Rightarrow> vault \<Rightarrow> unit res \<times> vault" where
  "lib_delete_metadata env i a key s = do_delete_metadata env i a key s"

definition lib_set_protocol_fee ::
  "env \<Rightarrow> address \<Rightarrow> address \<Rightarrow> u32 \<Rightarrow> vault \<Rightarrow> unit res \<times> vault" where
  "lib_set_protocol_fee env a treas bps s = set_protocol_fee env a treas bps s"

definition lib_add_to_blocklist ::
  "env \<Rightarrow> address \<Rightarrow> address \<Rightarrow> string option \<Rightarrow> vault \<Rightarrow> unit res \<times> vault" where
  "lib_add_to_blocklist env a subr why s = do_add_to_blocklist env a subr why s"

definition lib_remove_from_blocklist ::
  "env \<Rightarrow> address \<Rightarrow> address \<Rightarrow> vault \<Rightarrow> unit res \<times> vault" where
  "lib_remove_from_blocklist env a subr s = do_remove_from_blocklist env a subr s"

definition lib_initialize_merchant_config ::
  "env \<Rightarrow> address \<Rightarrow> address \<Rightarrow> i32 \<Rightarrow> 32 word \<Rightarrow> address option \<Rightarrow> string \<Rightarrow> vault \<Rightarrow> merchant_config res \<times> vault" where
  "lib_initialize_merchant_config env m payout fee ops fee_to url s =
     initialize_merchant_config env m payout fee ops fee_to url s"

definition lib_set_merchant_config ::
  "env \<Rightarrow> address \<Rightarrow> merchant_config \<Rightarrow> vault \<Rightarrow> unit res \<times> vault" where
  "lib_set_merchant_config env m config s = set_merchant_config env m config s"

definition lib_update_merchant_config ::
  "env \<Rightarrow> address \<Rightarrow> address option \<Rightarrow> i32 option \<Rightarrow> (32 word) option \<Rightarrow> bool option \<Rightarrow> address option option \<Rightarrow> string option \<Rightarrow> bool option \<Rightarrow> vault \<Rightarrow> merchant_config res \<times> vault" where
  "lib_update_merchant_config env m payout fee ops active fee_to url paused s =
     update_merchant_config env m payout fee ops active fee_to url paused s"

lemmas forwarded [simp] =
  lib_init_def lib_set_min_topup_def lib_get_min_topup_def lib_get_admin_def lib_get_admin_nonce_def
  lib_rotate_admin_def lib_recover_stranded_funds_def lib_get_emergency_stop_status_def lib_create_plan_template_def
  lib_create_plan_template_with_token_def lib_get_plan_template_def lib_update_plan_template_def
  lib_set_plan_max_active_subs_def lib_get_plan_max_active_subs_def lib_migrate_subscription_to_plan_def
  lib_set_subscriber_credit_limit_def lib_get_subscriber_credit_limit_def lib_get_subscriber_exposure_def
  lib_cancel_subscription_def lib_pause_subscription_def lib_resume_subscription_def lib_cleanup_subscription_def
  lib_configure_usage_limits_def lib_get_merchant_balance_def lib_get_merchant_balance_by_token_def
  lib_get_merchant_paused_def lib_pause_merchant_def lib_unpause_merchant_def lib_get_reconciliation_snapshot_def
  lib_get_merchant_total_earnings_def lib_get_subscription_def lib_estimate_topup_for_intervals_def
  lib_get_next_charge_info_def lib_get_subscriptions_by_merchant_def lib_get_merchant_subscription_count_def
  lib_get_token_subscription_count_def lib_list_subscriptions_by_subscriber_def lib_get_cap_info_def
  lib_set_global_cap_default_def lib_get_global_cap_default_def lib_set_merchant_cap_default_def
  lib_get_merchant_cap_default_def lib_update_subscription_cap_def lib_get_sub_statements_offset_def
  lib_get_sub_statements_cursor_def lib_get_period_snapshot_def lib_list_period_snapshots_def
  lib_add_accepted_token_def lib_remove_accepted_token_def lib_list_accepted_tokens_def
  lib_get_subscriptions_by_token_def lib_get_billing_retention_def lib_get_stmt_compacted_aggregate_def
  lib_get_oracle_config_def lib_set_metadata_def lib_delete_metadata_def lib_get_metadata_def
  lib_list_metadata_keys_def lib_set_protocol_fee_def lib_get_protocol_fee_bps_def lib_add_to_blocklist_def
  lib_remove_from_blocklist_def lib_get_blocklist_entry_def lib_is_blocklisted_def lib_initialize_merchant_config_def
  lib_set_merchant_config_def lib_update_merchant_config_def lib_get_merchant_config_def

end
