(* ===== verification/Migration.thy ===== *)
theory Migration
  imports Queries
begin

text \<open>
  Exports for migration: the three admin exports of \<open>lib.rs\<close>, and \<open>migration.rs\<close>, a second
  contract type over the same keys whose scan reads the persistent storage.
\<close>

definition STORAGE_VERSION :: u32 where "STORAGE_VERSION = 2"
definition MAX_EXPORT_LIMIT :: u32 where "MAX_EXPORT_LIMIT = 100"

section \<open>Exports of the vault\<close>

definition summarize :: "u32 \<Rightarrow> subscription \<Rightarrow> subscription_summary" where
  "summarize i sub = \<lparr>sum_subscription_id = i, sum_subscriber = subscriber sub, sum_merchant = merchant sub,
     sum_token = token sub, sum_amount = amount sub, sum_interval_seconds = interval_seconds sub,
     sum_last_payment_timestamp = last_payment_timestamp sub, sum_status = status sub,
     sum_prepaid_balance = prepaid_balance sub, sum_usage_enabled = usage_enabled sub,
     sum_lifetime_cap = lifetime_cap sub, sum_lifetime_charged = lifetime_charged sub,
     sum_start_time = start_time sub, sum_expires_at = expires_at sub\<rparr>"

definition export_contract_snapshot :: "env \<Rightarrow> address \<Rightarrow> vault \<Rightarrow> contract_snapshot res \<times> vault" where
  "export_contract_snapshot env admin s =
     try_res (require_admin_auth env admin s) s (\<lambda>_.
     try_res (ok_or (token_key (adm s)) NotFound) s (\<lambda>tok.
     try_res (get_min_topup s) s (\<lambda>min_topup.
     (Ok \<lparr>cs_admin = admin, cs_token = tok, cs_min_topup = min_topup, cs_next_id = next_id_of s,
          storage_version = STORAGE_VERSION, cs_timestamp = ledger_timestamp env\<rparr>,
      publish ''migration_contract_snapshot'' (AdminEv (MigrationContractSnapshot admin (ledger_timestamp env))) s))))"

definition export_subscription_summary :: "env \<Rightarrow> address \<Rightarrow> u32 \<Rightarrow> vault \<Rightarrow> subscription_summary res \<times> vault" where
  "export_subscription_summary env admin i s =
     try_res (require_admin_auth env admin s) s (\<lambda>_.
     try_res (get_subscription s i) s (\<lambda>sub.
     (Ok (summarize i sub),
      publish ''migration_export'' (ExportEv (MigrationExportEvent admin i 1 1 (ledger_timestamp env))) s)))"

fun export_loop :: "(u32 \<rightharpoonup> subscription) \<Rightarrow> u32 list \<Rightarrow> subscription_summary list \<Rightarrow> subscription_summary list" where
  "export_loop m [] out = out"
| "export_loop m (i # ids) out =
    (case m i of Some sub \<Rightarrow> export_loop m ids (out @ [summarize i sub]) | None \<Rightarrow> export_loop m ids out)"

definition export_subscription_summaries ::
  "env \<Rightarrow> address \<Rightarrow> u32 \<Rightarrow> u32 \<Rightarrow> vault \<Rightarrow> subscription_summary list res \<times> vault" where
  "export_subscription_summaries env admin start_id limit s =
     try_res (require_admin_auth env admin s) s (\<lambda>_.
     if limit > MAX_EXPORT_LIMIT then (Err InvalidExportLimit, s)
     else if limit = 0 then (Ok [], s)
     else
       let nxt = next_id_of s in
       if start_id \<ge> nxt then (Ok [], s)
       else
         let end_id = min (saturating_add_u32 start_id limit) nxt;
             out = export_loop (subs s) [start_id ..< end_id] []
         in (Ok out, publish ''migration_export''
               (ExportEv (MigrationExportEvent admin start_id limit (length out) (ledger_timestamp env))) s))"

section \<open>The migration contract\<close>

text \<open>The while loop of \<open>export_snapshots\<close>: it ends after \<open>limit\<close> finds or at the last id.\<close>

function snapshot_loop :: "(u32 \<rightharpoonup> subscription) \<Rightarrow> u32 \<Rightarrow> u32 \<Rightarrow> u32 \<Rightarrow> subscription_summary list \<Rightarrow>
    subscription_summary list \<times> u32" where
  "snapshot_loop m limit max_id current_id results =
    (if length results < limit \<and> current_id < max_id then
       snapshot_loop m limit max_id (current_id + 1)
         (case m current_id of Some sub \<Rightarrow> results @ [summarize current_id sub] | None \<Rightarrow> results)
     else (results, current_id))"
  by pat_completeness auto
termination by (relation "measure (\<lambda>(m, limit, max_id, current_id, results). max_id - current_id)") auto

declare snapshot_loop.simps [simp del]

definition export_snapshots :: "env \<Rightarrow> u32 \<Rightarrow> u32 \<Rightarrow> vault \<Rightarrow> (subscription_summary list \<times> u32) res \<times> vault" where
  "export_snapshots env start_id limit s =
     try_res (ok_or (admin_key (adm s)) NotInitialized) s (\<lambda>admin.
     try_res (require_auth env admin) s (\<lambda>_.
     if limit = 0 \<or> limit > MAX_EXPORT_LIMIT then (Err InvalidExportLimit, s)
     else
       let (results, current_id) = snapshot_loop (persistent_sub_key (sbs s)) limit (next_id_of s) start_id []
       in (Ok (results, current_id), publish ''export''
             (ExportEv (MigrationExportEvent admin start_id limit (length results) (ledger_timestamp env))) s)))"

section \<open>Pages of an export\<close>

text \<open>\<open>summaries m is\<close> are the summaries of the subscriptions that exist among \<open>is\<close>.\<close>

definition summaries :: "(u32 \<rightharpoonup> subscription) \<Rightarrow> u32 list \<Rightarrow> subscription_summary list" where
  "summaries m ids = List.map_filter (\<lambda>i. map_option (summarize i) (m i)) ids"

lemma summaries_simps [simp]:
  "summaries m [] = []"
  "summaries m (i # ids) = (case m i of Some sub \<Rightarrow> summarize i sub # summaries m ids | None \<Rightarrow> summaries m ids)"
  "summaries m (xs @ ys) = summaries m xs @ summaries m ys"
  by (simp_all add: summaries_def List.map_filter_def split: option.splits)

lemma export_loop_eq: "export_loop m ids out = out @ summaries m ids"
  by (induction ids arbitrary: out) (auto split: option.splits)

text \<open>The exports of the pages at \<open>start\<close>, \<open>start + n\<close>, and so on, for as many pages as asked.\<close>

fun export_pages :: "env \<Rightarrow> address \<Rightarrow> u32 \<Rightarrow> u32 \<Rightarrow> nat \<Rightarrow> vault \<Rightarrow> subscription_summary list res" where
  "export_pages env admin start n 0 s = Ok []"
| "export_pages env admin start n (Suc k) s =
     bind_res (fst (export_subscription_summaries env admin start n s)) (\<lambda>page.
     bind_res (export_pages env admin (start + n) n k s) (\<lambda>rest. Ok (page @ rest)))"

lemma export_page:
  assumes "require_admin_auth env admin s = Ok ()" and "0 < n" and "n \<le> MAX_EXPORT_LIMIT" and "next_id_of s \<le> U32_MAX"
  shows "fst (export_subscription_summaries env admin start n s) =
    Ok (summaries (subs s) [start ..< min (start + n) (next_id_of s)])"
  using assms by (auto simp: export_subscription_summaries_def Let_def export_loop_eq saturating_add_u32_def min_def)

lemma export_pages_eq:
  assumes "require_admin_auth env admin s = Ok ()" and "0 < n" and "n \<le> MAX_EXPORT_LIMIT" and "next_id_of s \<le> U32_MAX"
  shows "export_pages env admin start n k s = Ok (summaries (subs s) [start ..< min (start + k * n) (next_id_of s)])"
proof (induction k arbitrary: start)
  case (Suc k)
  let ?e = "min (start + Suc k * n) (next_id_of s)"
  have "[start ..< ?e] = [start ..< min (start + n) (next_id_of s)] @ [start + n ..< ?e]"
  proof (cases "start + n \<le> next_id_of s")
    case True
    have "start + n \<le> ?e" using True by simp
    then show ?thesis using True upt_add_eq_append [of start "start + n" "?e - (start + n)"] by simp
  qed simp
  then show ?case using export_page [OF assms, of start] Suc.IH [of "start + n"] by (simp add: add.assoc)
qed simp

text \<open>C40. Exporting page after page gives every subscription of the contract exactly once, in the
  order of their ids, and no page changes the stores.\<close>

theorem export_covers_everything:
  assumes "require_admin_auth env admin s = Ok ()" and "0 < n" and "n \<le> MAX_EXPORT_LIMIT"
    and "next_id_of s \<le> U32_MAX" and "dom (subs s) \<subseteq> {..< next_id_of s}" and "next_id_of s \<le> k * n"
  shows "\<exists>xs. export_pages env admin 0 n k s = Ok xs \<and>
    map sum_subscription_id xs = sorted_list_of_set (dom (subs s)) \<and>
    (\<forall>x \<in> set xs. \<exists>sub. subs s (sum_subscription_id x) = Some sub \<and> x = summarize (sum_subscription_id x) sub) \<and>
    (\<forall>start. sbs (snd (export_subscription_summaries env admin start n s)) = sbs s)"
proof (intro exI conjI allI)
  let ?xs = "summaries (subs s) [0 ..< next_id_of s]"
  show "export_pages env admin 0 n k s = Ok ?xs"
    using export_pages_eq [OF assms(1-4), of 0 k] assms(6) by (simp add: min_absorb2)
  have part: "\<And>ids. map sum_subscription_id (summaries (subs s) ids) = filter (\<lambda>i. i \<in> dom (subs s)) ids"
    subgoal for ids by (induction ids) (auto simp: summarize_def split: option.splits)
    done
  have "filter (\<lambda>i. i \<in> dom (subs s)) [0 ..< next_id_of s] = sorted_list_of_set (dom (subs s))"
  proof (rule sorted_distinct_set_unique)
    have fin: "finite (dom (subs s))" using assms(5) finite_subset by blast
    then show "set (filter (\<lambda>i. i \<in> dom (subs s)) [0 ..< next_id_of s]) = set (sorted_list_of_set (dom (subs s)))"
      using assms(5) by auto
  qed (simp_all add: sorted_wrt_filter)
  with part show "map sum_subscription_id ?xs = sorted_list_of_set (dom (subs s))" by simp
  show "\<forall>x \<in> set ?xs. \<exists>sub. subs s (sum_subscription_id x) = Some sub \<and> x = summarize (sum_subscription_id x) sub"
    by (auto simp: summaries_def List.map_filter_def summarize_def)
  show "sbs (snd (export_subscription_summaries env admin start n s)) = sbs s" for start
    by (simp add: export_subscription_summaries_def assms(1) Let_def)
qed

theorem export_covers_everything_witness:
  "\<exists>xs. export_pages demo_env (Address 1) 0 1 2 demo_subs = Ok xs \<and> map sum_subscription_id xs = [0, 1]"
proof -
  have d: "dom (subs demo_subs) = {0, 1}" by auto
  have n: "next_id_of demo_subs = 2" by (simp add: next_id_of_def)
  have "require_admin_auth demo_env (Address 1) demo_subs = Ok ()"
    by (simp add: require_admin_auth_def require_auth_def require_admin_def demo_vault_adm)
  from export_covers_everything [OF this, of 1 2, unfolded n d]
  have "\<exists>xs. export_pages demo_env (Address 1) 0 1 2 demo_subs = Ok xs \<and>
      map sum_subscription_id xs = sorted_list_of_set {0, 1}"
    unfolding MAX_EXPORT_LIMIT_def U32_MAX_def by (elim meta_impE) (simp, simp, simp, simp, simp, blast)
  then show ?thesis by simp
qed

section \<open>The scan of the migration contract\<close>

lemma snapshot_loop_eq:
  "snapshot_loop m limit max_id c results = (r, c') \<Longrightarrow>
     r = results @ summaries m [c ..< c'] \<and> c \<le> c' \<and> (c' \<le> max_id \<or> c' = c) \<and>
     (length results \<le> limit \<longrightarrow> length r \<le> limit) \<and> (length r < limit \<longrightarrow> max_id \<le> c')"
proof (induction m limit max_id c results rule: snapshot_loop.induct)
  case (1 m limit max_id c results)
  show ?case
  proof (cases "length results < limit \<and> c < max_id")
    case True
    let ?res = "case m c of Some sub \<Rightarrow> results @ [summarize c sub] | None \<Rightarrow> results"
    have "snapshot_loop m limit max_id (c + 1) ?res = (r, c')"
      using "1.prems" True by (subst (asm) snapshot_loop.simps) simp
    with "1.IH" [OF True] have ih: "r = ?res @ summaries m [c + 1 ..< c']" "c + 1 \<le> c'"
        "c' \<le> max_id \<or> c' = c + 1" "length ?res \<le> limit \<longrightarrow> length r \<le> limit"
        "length r < limit \<longrightarrow> max_id \<le> c'" by blast+
    have "[c ..< c'] = c # [c + 1 ..< c']" using ih(2) by (simp add: upt_conv_Cons)
    with ih True show ?thesis by (auto split: option.splits)
  next
    case False
    then show ?thesis using "1.prems" by (subst (asm) snapshot_loop.simps) auto
  qed
qed

text \<open>The migration contract exports the subscriptions of the persistent storage from \<open>start\<close> up
  to the returned cursor, at most \<open>limit\<close> of them, and stops short of \<open>limit\<close> only at the last id. Where
  the persistent storage holds no subscription, as in every state the vault writes, it exports nothing.\<close>

theorem export_snapshots_correct:
  assumes "export_snapshots env start limit s = (Ok (xs, cursor), t)"
  shows "xs = summaries (persistent_sub_key (sbs s)) [start ..< cursor] \<and> length xs \<le> limit \<and>
    (length xs < limit \<longrightarrow> next_id_of s \<le> cursor) \<and> (\<exists>a. admin_key (adm s) = Some a \<and> authorized env a) \<and>
    (persistent_sub_key (sbs s) = Map.empty \<longrightarrow> xs = [])"
proof -
  obtain r c where run: "snapshot_loop (persistent_sub_key (sbs s)) limit (next_id_of s) start [] = (r, c)"
    by (metis prod.exhaust)
  have "(r, c) = (xs, cursor)" and admin: "\<exists>a. admin_key (adm s) = Some a \<and> authorized env a"
    using assms by (simp_all add: export_snapshots_def ok_iff Let_def run) auto
  have "summaries Map.empty ids = []" for ids by (induction ids) simp_all
  moreover have "r = xs" "c = cursor" using \<open>(r, c) = (xs, cursor)\<close> by blast+
  ultimately show ?thesis using snapshot_loop_eq [OF run] admin by auto
qed

theorem export_snapshots_correct_witness:
  "\<exists>xs c t. export_snapshots demo_env 0 5 demo_subs = (Ok (xs, c), t) \<and> xs = [] \<and> 2 \<le> c \<and>
     dom (subs demo_subs) = {0, 1}"
proof -
  have "snapshot_loop Map.empty 5 2 0 [] = ([], 2)"
    by (simp add: snapshot_loop.simps)
  then obtain t where "export_snapshots demo_env 0 5 demo_subs = (Ok ([], 2), t)"
    by (simp add: export_snapshots_def demo_vault_adm require_auth_def MAX_EXPORT_LIMIT_def next_id_of_def
        vault_init_def Let_def)
  with export_snapshots_correct [OF this] show ?thesis by (auto simp: next_id_of_def)
qed

end
