(* ===== verification/Reentrancy.thy ===== *)
theory Reentrancy
  imports Vault_State
begin

text \<open>
  \<open>reentrancy.rs\<close>: a lock in storage under the name of an entry point. Taking the guard fails when
  the lock is there; dropping it, which Rust does on every return of the function that holds it,
  removes the lock. A trap aborts without running drops, but also without keeping any write.
\<close>

definition lock :: "string \<Rightarrow> vault \<Rightarrow> unit res \<times> vault" where
  "lock name s =
    (case lock_key s name of
       Some held \<Rightarrow> (Err Reentrancy, s)
     | None \<Rightarrow> (Ok (), s\<lparr>lock_key := (lock_key s)(name \<mapsto> True)\<rparr>))"

definition drop_guard :: "string \<Rightarrow> vault \<Rightarrow> vault" where
  "drop_guard name s = s\<lparr>lock_key := (lock_key s)(name := None)\<rparr>"

definition is_reentrancy_supported :: bool where "is_reentrancy_supported = True"

text \<open>A function body under a guard that lives until the body returns.\<close>

definition with_lock :: "string \<Rightarrow> (vault \<Rightarrow> 'a res \<times> vault) \<Rightarrow> vault \<Rightarrow> 'a res \<times> vault" where
  "with_lock name body s =
     try_op (lock name s) (\<lambda>_ s1.
     case body s1 of
       (Trap, s2) \<Rightarrow> (Trap, s2)
     | (r, s2) \<Rightarrow> (r, drop_guard name s2))"

lemma with_lock_held: "lock_key s name \<noteq> None \<Longrightarrow> with_lock name body s = (Err Reentrancy, s)"
  by (auto simp: with_lock_def lock_def)

lemma with_lock_Ok [ok_iff]:
  "with_lock name body s = (Ok a, t) \<longleftrightarrow> lock_key s name = None \<and>
     (\<exists>u. body (s\<lparr>lock_key := (lock_key s)(name \<mapsto> True)\<rparr>) = (Ok a, u) \<and> t = drop_guard name u)"
  by (auto simp: with_lock_def lock_def split: prod.splits result.splits option.splits)

lemma drop_guard_frame [simp]:
  "adm (drop_guard n s) = adm s" "mer (drop_guard n s) = mer s" "sbs (drop_guard n s) = sbs s"
  "pln (drop_guard n s) = pln s" "stm (drop_guard n s) = stm s" "snp (drop_guard n s) = snp s"
  "met (drop_guard n s) = met s" "bil (drop_guard n s) = bil s"
  "total_accounted_key (drop_guard n s) = total_accounted_key s"
  "blocklist_key (drop_guard n s) = blocklist_key s" "tokens (drop_guard n s) = tokens s"
  "evlog (drop_guard n s) = evlog s" "lock_key (drop_guard n s) = (lock_key s)(n := None)"
  by (simp_all add: drop_guard_def)

text \<open>A guarded body never runs inside another run of itself: a call made while the lock is held,
  by whatever code the body reaches, fails with \<open>Reentrancy\<close> and writes nothing; and a body that leaves
  the locks alone has its own lock released on return, so the next call is not refused.\<close>

theorem guard_excludes_and_releases:
  "with_lock name (with_lock name inner) s = (Err Reentrancy, s)
   \<and> (\<forall>r t. with_lock name body s = (r, t) \<and> r \<noteq> Trap \<and>
        lock_key (snd (body (s\<lparr>lock_key := (lock_key s)(name \<mapsto> True)\<rparr>))) = (lock_key s)(name \<mapsto> True)
        \<longrightarrow> lock_key t = lock_key s)"
proof (cases "lock_key s name")
  case None
  then have restored: "(lock_key s)(name := None) = lock_key s" by (simp add: fun_upd_idem)
  have "drop_guard name (s\<lparr>lock_key := (lock_key s)(name \<mapsto> True)\<rparr>) = s"
    by (simp add: drop_guard_def restored)
  moreover have "with_lock name inner (s\<lparr>lock_key := (lock_key s)(name \<mapsto> True)\<rparr>) =
      (Err Reentrancy, s\<lparr>lock_key := (lock_key s)(name \<mapsto> True)\<rparr>)"
    by (simp add: with_lock_def lock_def)
  ultimately have "with_lock name (with_lock name inner) s = (Err Reentrancy, s)"
    by (simp add: with_lock_def [of name "with_lock name inner"] lock_def None)
  then show ?thesis using None restored
    by (auto simp: with_lock_def [of name body] lock_def split: prod.splits result.splits)
next
  case (Some b)
  then show ?thesis by (auto simp: with_lock_def lock_def)
qed

theorem guard_excludes_and_releases_witness:
  "lock_key (snd (with_lock ''deposit_funds'' (\<lambda>s. (Ok (), s)) vault_init)) = Map.empty"
  using guard_excludes_and_releases [of "''deposit_funds''" "\<lambda>s. (Ok (), s)" vault_init "\<lambda>s. (Ok (), s)"]
  by (simp add: with_lock_def lock_def vault_init_def)

end
