(* ===== verification/Entry_Points.thy ===== *)
theory Entry_Points
  imports Charge_Core Contract_Interface Migration Reentrancy
begin

text \<open>
  The public interface: the charging entry points of \<open>admin.rs\<close> and the functions of \<open>lib.rs\<close> that
  add something to the module they forward to (the emergency stop, a reentrancy lock, the admin
  check). The state-changing functions are then collected in a datatype of calls, whose meaning is
  one transaction each.
\<close>

section \<open>Charging (admin.rs)\<close>

definition batch_result :: "charge_execution_result res \<Rightarrow> batch_charge_result" where
  "batch_result r =
    (case r of
       Ok Charged \<Rightarrow> \<lparr>success = True, error_code = 0\<rparr>
     | Ok ChargeInsufficientBalance \<Rightarrow> \<lparr>success = False, error_code = to_code InsufficientBalanceErr\<rparr>
     | Ok ChargeLifetimeCapReached \<Rightarrow> \<lparr>success = False, error_code = to_code LifetimeCapReached\<rparr>
     | Err e \<Rightarrow> \<lparr>success = False, error_code = to_code e\<rparr>
     | Trap \<Rightarrow> \<lparr>success = False, error_code = 0\<rparr>)"

text \<open>An error of one charge is recorded and the loop goes on; only a trap ends it.\<close>

fun batch_loop :: "env \<Rightarrow> u64 \<Rightarrow> u32 list \<Rightarrow> batch_charge_result list \<Rightarrow> vault \<Rightarrow> batch_charge_result list res \<times> vault" where
  "batch_loop env now [] results s = (Ok results, s)"
| "batch_loop env now (i # ids) results s =
    (case charge_one env i now None s of
       (Trap, t) \<Rightarrow> (Trap, t)
     | (r, t) \<Rightarrow> batch_loop env now ids (results @ [batch_result r]) t)"

definition do_batch_charge :: "env \<Rightarrow> u32 list \<Rightarrow> u64 \<Rightarrow> vault \<Rightarrow> batch_charge_result list res \<times> vault" where
  "do_batch_charge env ids nonce s =
     try_res (require_stored_admin_auth env s) s (\<lambda>admin.
     try_op (check_and_advance env admin DOMAIN_BATCH_CHARGE nonce s) (\<lambda>_ s1.
     batch_loop env (ledger_timestamp env) ids [] s1))"

definition do_charge_subscription :: "env \<Rightarrow> u32 \<Rightarrow> vault \<Rightarrow> charge_execution_result res \<times> vault" where
  "do_charge_subscription env i s =
     try_res (require_stored_admin_auth env s) s (\<lambda>_. charge_one env i (ledger_timestamp env) None s)"

definition do_charge_usage :: "env \<Rightarrow> u32 \<Rightarrow> i128 \<Rightarrow> string \<Rightarrow> vault \<Rightarrow> unit res \<times> vault" where
  "do_charge_usage env i usage_amount reference s =
     try_res (require_stored_admin_auth env s) s (\<lambda>_.
     try_op (charge_usage_one env i usage_amount reference s) (\<lambda>_ s1. (Ok (), s1)))"

section \<open>Entry points of lib.rs\<close>

definition unless_stopped :: "(vault \<Rightarrow> 'a res \<times> vault) \<Rightarrow> vault \<Rightarrow> 'a res \<times> vault" where
  "unless_stopped body s = try_res (require_not_emergency_stop s) s (\<lambda>_. body s)"

definition lib_set_oracle_config :: "env \<Rightarrow> address \<Rightarrow> bool \<Rightarrow> address option \<Rightarrow> u64 \<Rightarrow> vault \<Rightarrow> unit res \<times> vault" where
  "lib_set_oracle_config env admin en oracle max_age s =
     try_res (require_admin_auth env admin s) s (\<lambda>_. set_oracle_config en oracle max_age s)"

definition lib_batch_charge :: "env \<Rightarrow> u32 list \<Rightarrow> u64 \<Rightarrow> vault \<Rightarrow> batch_charge_result list res \<times> vault" where
  "lib_batch_charge env ids nonce = unless_stopped (do_batch_charge env ids nonce)"

definition lib_create_subscription ::
  "env \<Rightarrow> address \<Rightarrow> address \<Rightarrow> i128 \<Rightarrow> u64 \<Rightarrow> bool \<Rightarrow> i128 option \<Rightarrow> u64 option \<Rightarrow> vault \<Rightarrow> u32 res \<times> vault" where
  "lib_create_subscription env subr m amt interval use_en cap expires =
     unless_stopped (do_create_subscription env subr m amt interval use_en cap expires)"

definition lib_create_subscription_with_token ::
  "env \<Rightarrow> address \<Rightarrow> address \<Rightarrow> address \<Rightarrow> i128 \<Rightarrow> u64 \<Rightarrow> bool \<Rightarrow> i128 option \<Rightarrow> u64 option \<Rightarrow> vault \<Rightarrow>
   u32 res \<times> vault" where
  "lib_create_subscription_with_token env subr m tok amt interval use_en cap expires =
     unless_stopped (do_create_subscription_with_token env subr m tok amt interval use_en cap expires)"

definition lib_deposit_funds :: "env \<Rightarrow> u32 \<Rightarrow> address \<Rightarrow> i128 \<Rightarrow> vault \<Rightarrow> unit res \<times> vault" where
  "lib_deposit_funds env i subr amt =
     unless_stopped (with_lock ''deposit_funds'' (do_deposit_funds env i subr amt))"

definition lib_create_subscription_from_plan :: "env \<Rightarrow> address \<Rightarrow> u32 \<Rightarrow> vault \<Rightarrow> u32 res \<times> vault" where
  "lib_create_subscription_from_plan env subr p = unless_stopped (do_create_subscription_from_plan env subr p)"

definition lib_withdraw_subscriber_funds :: "env \<Rightarrow> u32 \<Rightarrow> address \<Rightarrow> vault \<Rightarrow> unit res \<times> vault" where
  "lib_withdraw_subscriber_funds env i subr =
     with_lock ''withdraw_subscriber_funds'' (do_withdraw_subscriber_funds env i subr)"

definition lib_partial_refund :: "env \<Rightarrow> address \<Rightarrow> u32 \<Rightarrow> address \<Rightarrow> i128 \<Rightarrow> vault \<Rightarrow> unit res \<times> vault" where
  "lib_partial_refund env admin i subr amt = with_lock ''partial_refund'' (do_partial_refund env admin i subr amt)"

definition lib_charge_one_off :: "env \<Rightarrow> u32 \<Rightarrow> address \<Rightarrow> i128 \<Rightarrow> vault \<Rightarrow> unit res \<times> vault" where
  "lib_charge_one_off env i m amt =
     unless_stopped (with_lock ''charge_one_off'' (do_charge_one_off env i m amt))"

definition lib_charge_subscription :: "env \<Rightarrow> u32 \<Rightarrow> vault \<Rightarrow> charge_execution_result res \<times> vault" where
  "lib_charge_subscription env i =
     unless_stopped (with_lock ''charge_subscription'' (charge_one env i (ledger_timestamp env) None))"

definition lib_charge_usage :: "env \<Rightarrow> u32 \<Rightarrow> i128 \<Rightarrow> vault \<Rightarrow> usage_charge_result res \<times> vault" where
  "lib_charge_usage env i usage_amount =
     unless_stopped (with_lock ''charge_usage'' (charge_usage_one env i usage_amount ''usage''))"

definition lib_charge_usage_with_reference :: "env \<Rightarrow> u32 \<Rightarrow> i128 \<Rightarrow> string \<Rightarrow> vault \<Rightarrow> usage_charge_result res \<times> vault" where
  "lib_charge_usage_with_reference env i usage_amount reference =
     unless_stopped (with_lock ''charge_usage_with_reference'' (charge_usage_one env i usage_amount reference))"

definition lib_withdraw_merchant_funds :: "env \<Rightarrow> address \<Rightarrow> i128 \<Rightarrow> vault \<Rightarrow> unit res \<times> vault" where
  "lib_withdraw_merchant_funds env m amt = with_lock ''withdraw_merchant_funds'' (withdraw_merchant_funds env m amt)"

definition lib_withdraw_merchant_token_funds :: "env \<Rightarrow> address \<Rightarrow> address \<Rightarrow> i128 \<Rightarrow> vault \<Rightarrow> unit res \<times> vault" where
  "lib_withdraw_merchant_token_funds env m tok amt =
     with_lock ''withdraw_merchant_token_funds'' (withdraw_merchant_funds_for_token env m tok amt)"

definition lib_merchant_refund :: "env \<Rightarrow> address \<Rightarrow> address \<Rightarrow> address \<Rightarrow> i128 \<Rightarrow> vault \<Rightarrow> unit res \<times> vault" where
  "lib_merchant_refund env m subr tok amt = with_lock ''merchant_refund'' (merchant_refund env m subr tok amt)"

definition set_billing_retention :: "env \<Rightarrow> address \<Rightarrow> u32 \<Rightarrow> vault \<Rightarrow> unit res \<times> vault" where
  "set_billing_retention env admin keep_recent s =
     try_res (require_admin_auth env admin s) s (\<lambda>_. (Ok (), set_retention_config keep_recent s))"

definition compact_billing_statements ::
  "env \<Rightarrow> address \<Rightarrow> u32 \<Rightarrow> u32 option \<Rightarrow> vault \<Rightarrow> billing_compaction_summary res \<times> vault" where
  "compact_billing_statements env admin i keep_override s =
     try_res (require_admin_auth env admin s) s (\<lambda>_.
     try_op (compact_subscription_statements i keep_override s) (\<lambda>summary s1.
     let aggregate = get_compacted_aggregate s1 i in
     (Ok summary, publish ''billing_compacted''
        (StatementEv (BillingCompactedEvent admin i (cs_pruned_count summary) (kept_count summary)
           (total_pruned_amount summary) (ledger_timestamp env) (pruned_count aggregate)
           (total_amount aggregate) (oldest_period_start aggregate) (newest_period_end aggregate))) s1)))"

definition get_subscription_count :: "vault \<Rightarrow> u32" where
  "get_subscription_count s = unwrap_or (next_id_key (sbs s)) 0"

section \<open>Calls\<close>

text \<open>
  One constructor per state-changing function of the contract, in four groups. The arguments are
  those of the function.
\<close>

datatype (plugins only: code size) admin_call =
    Init address u32 address i128 u64
  | Set_Min_Topup address i128
  | Rotate_Admin address address u64
  | Set_Oracle_Config address bool "address option" u64
  | Recover_Stranded_Funds address address address i128 string recovery_reason
  | Enable_Emergency_Stop address
  | Disable_Emergency_Stop address
  | Add_Accepted_Token address address u32
  | Remove_Accepted_Token address address
  | Set_Billing_Retention address u32
  | Compact_Billing_Statements address u32 "u32 option"
  | Set_Protocol_Fee address address u32
  | Add_To_Blocklist address address "string option"
  | Remove_From_Blocklist address address
  | Export_Contract_Snapshot address
  | Export_Subscription_Summary address u32
  | Export_Subscription_Summaries address u32 u32

datatype (plugins only: code size) subscription_call =
    Create_Subscription address address i128 u64 bool "i128 option" "u64 option"
  | Create_Subscription_With_Token address address address i128 u64 bool "i128 option" "u64 option"
  | Create_Subscription_From_Plan address u32
  | Deposit_Funds u32 address i128
  | Cancel_Subscription u32 address
  | Pause_Subscription u32 address
  | Resume_Subscription u32 address
  | Cleanup_Subscription u32 address
  | Withdraw_Subscriber_Funds u32 address
  | Partial_Refund address u32 address i128
  | Migrate_Subscription_To_Plan address u32 u32
  | Update_Subscription_Cap address u32 "i128 option"
  | Set_Metadata u32 address string string
  | Delete_Metadata u32 address string

datatype (plugins only: code size) charge_call =
    Charge_Subscription u32
  | Charge_Usage u32 i128
  | Charge_Usage_With_Reference u32 i128 string
  | Charge_One_Off u32 address i128
  | Batch_Charge "u32 list" u64

datatype (plugins only: code size) merchant_call =
    Create_Plan_Template address i128 u64 bool "i128 option"
  | Create_Plan_Template_With_Token address address i128 u64 bool "i128 option"
  | Update_Plan_Template address u32 i128 u64 bool "i128 option"
  | Set_Plan_Max_Active_Subs address u32 u32
  | Set_Subscriber_Credit_Limit address address address i128
  | Configure_Usage_Limits address u32 "u32 option" u64 u64 "i128 option"
  | Set_Global_Cap_Default address "i128 option"
  | Set_Merchant_Cap_Default address "i128 option"
  | Withdraw_Merchant_Funds address i128
  | Withdraw_Merchant_Token_Funds address address i128
  | Merchant_Refund address address address i128
  | Pause_Merchant address
  | Unpause_Merchant address
  | Initialize_Merchant_Config address address i32 "32 word" "address option" string
  | Set_Merchant_Config address merchant_config
  | Update_Merchant_Config address "address option" "i32 option" "(32 word) option" "bool option"
      "address option option" "string option" "bool option"

datatype (plugins only: code size) call =
    AdminCall admin_call
  | SubscriptionCall subscription_call
  | ChargeCall charge_call
  | MerchantCall merchant_call

text \<open>What a call returns does not matter to the ledger, only whether it returns a value.\<close>

fun void :: "'a res \<times> vault \<Rightarrow> unit res \<times> vault" where
  "void (Ok a, s) = (Ok (), s)"
| "void (Err e, s) = (Err e, s)"
| "void (Trap, s) = (Trap, s)"

lemma void_Ok [ok_iff]: "void m = (Ok u, t) \<longleftrightarrow> (\<exists>a. m = (Ok a, t))"
  by (cases m; cases "fst m") auto

fun run_admin :: "env \<Rightarrow> admin_call \<Rightarrow> vault \<Rightarrow> unit res \<times> vault" where
  "run_admin env (Init tok d a m g) s = lib_init env tok d a m g s"
| "run_admin env (Set_Min_Topup a m) s = lib_set_min_topup env a m s"
| "run_admin env (Rotate_Admin a b n) s = lib_rotate_admin env a b n s"
| "run_admin env (Set_Oracle_Config a en orc g) s = lib_set_oracle_config env a en orc g s"
| "run_admin env (Recover_Stranded_Funds a tok r amt rid why) s = lib_recover_stranded_funds env a tok r amt rid why s"
| "run_admin env (Enable_Emergency_Stop a) s = enable_emergency_stop env a s"
| "run_admin env (Disable_Emergency_Stop a) s = disable_emergency_stop env a s"
| "run_admin env (Add_Accepted_Token a tok d) s = lib_add_accepted_token env a tok d s"
| "run_admin env (Remove_Accepted_Token a tok) s = lib_remove_accepted_token env a tok s"
| "run_admin env (Set_Billing_Retention a k) s = set_billing_retention env a k s"
| "run_admin env (Compact_Billing_Statements a i k) s = void (compact_billing_statements env a i k s)"
| "run_admin env (Set_Protocol_Fee a tr f) s = lib_set_protocol_fee env a tr f s"
| "run_admin env (Add_To_Blocklist a who why) s = lib_add_to_blocklist env a who why s"
| "run_admin env (Remove_From_Blocklist a who) s = lib_remove_from_blocklist env a who s"
| "run_admin env (Export_Contract_Snapshot a) s = void (export_contract_snapshot env a s)"
| "run_admin env (Export_Subscription_Summary a i) s = void (export_subscription_summary env a i s)"
| "run_admin env (Export_Subscription_Summaries a i n) s = void (export_subscription_summaries env a i n s)"

fun run_subscription :: "env \<Rightarrow> subscription_call \<Rightarrow> vault \<Rightarrow> unit res \<times> vault" where
  "run_subscription env (Create_Subscription u m amt iv en cap ex) s =
     void (lib_create_subscription env u m amt iv en cap ex s)"
| "run_subscription env (Create_Subscription_With_Token u m tok amt iv en cap ex) s =
     void (lib_create_subscription_with_token env u m tok amt iv en cap ex s)"
| "run_subscription env (Create_Subscription_From_Plan u p) s = void (lib_create_subscription_from_plan env u p s)"
| "run_subscription env (Deposit_Funds i u amt) s = lib_deposit_funds env i u amt s"
| "run_subscription env (Cancel_Subscription i a) s = lib_cancel_subscription env i a s"
| "run_subscription env (Pause_Subscription i a) s = lib_pause_subscription env i a s"
| "run_subscription env (Resume_Subscription i a) s = lib_resume_subscription env i a s"
| "run_subscription env (Cleanup_Subscription i a) s = lib_cleanup_subscription env i a s"
| "run_subscription env (Withdraw_Subscriber_Funds i u) s = lib_withdraw_subscriber_funds env i u s"
| "run_subscription env (Partial_Refund a i u amt) s = lib_partial_refund env a i u amt s"
| "run_subscription env (Migrate_Subscription_To_Plan u i p) s = lib_migrate_subscription_to_plan env u i p s"
| "run_subscription env (Update_Subscription_Cap a i cap) s = lib_update_subscription_cap env a i cap s"
| "run_subscription env (Set_Metadata i a k v) s = lib_set_metadata env i a k v s"
| "run_subscription env (Delete_Metadata i a k) s = lib_delete_metadata env i a k s"

fun run_charge :: "env \<Rightarrow> charge_call \<Rightarrow> vault \<Rightarrow> unit res \<times> vault" where
  "run_charge env (Charge_Subscription i) s = void (lib_charge_subscription env i s)"
| "run_charge env (Charge_Usage i amt) s = void (lib_charge_usage env i amt s)"
| "run_charge env (Charge_Usage_With_Reference i amt r) s = void (lib_charge_usage_with_reference env i amt r s)"
| "run_charge env (Charge_One_Off i m amt) s = lib_charge_one_off env i m amt s"
| "run_charge env (Batch_Charge ids n) s = void (lib_batch_charge env ids n s)"

fun run_merchant :: "env \<Rightarrow> merchant_call \<Rightarrow> vault \<Rightarrow> unit res \<times> vault" where
  "run_merchant env (Create_Plan_Template m amt iv en cap) s = void (lib_create_plan_template env m amt iv en cap s)"
| "run_merchant env (Create_Plan_Template_With_Token m tok amt iv en cap) s =
     void (lib_create_plan_template_with_token env m tok amt iv en cap s)"
| "run_merchant env (Update_Plan_Template m p amt iv en cap) s = void (lib_update_plan_template env m p amt iv en cap s)"
| "run_merchant env (Set_Plan_Max_Active_Subs m p n) s = lib_set_plan_max_active_subs env m p n s"
| "run_merchant env (Set_Subscriber_Credit_Limit a u tok n) s = lib_set_subscriber_credit_limit env a u tok n s"
| "run_merchant env (Configure_Usage_Limits m i mc w b c) s = lib_configure_usage_limits env m i mc w b c s"
| "run_merchant env (Set_Global_Cap_Default a cap) s = lib_set_global_cap_default env a cap s"
| "run_merchant env (Set_Merchant_Cap_Default m cap) s = lib_set_merchant_cap_default env m cap s"
| "run_merchant env (Withdraw_Merchant_Funds m amt) s = lib_withdraw_merchant_funds env m amt s"
| "run_merchant env (Withdraw_Merchant_Token_Funds m tok amt) s = lib_withdraw_merchant_token_funds env m tok amt s"
| "run_merchant env (Merchant_Refund m u tok amt) s = lib_merchant_refund env m u tok amt s"
| "run_merchant env (Pause_Merchant m) s = lib_pause_merchant env m s"
| "run_merchant env (Unpause_Merchant m) s = lib_unpause_merchant env m s"
| "run_merchant env (Initialize_Merchant_Config m p f ops fa url) s =
     void (lib_initialize_merchant_config env m p f ops fa url s)"
| "run_merchant env (Set_Merchant_Config m c) s = lib_set_merchant_config env m c s"
| "run_merchant env (Update_Merchant_Config m p f ops a fa url pa) s =
     void (lib_update_merchant_config env m p f ops a fa url pa s)"

fun run :: "env \<Rightarrow> call \<Rightarrow> vault \<Rightarrow> unit res \<times> vault" where
  "run env (AdminCall c) s = run_admin env c s"
| "run env (SubscriptionCall c) s = run_subscription env c s"
| "run env (ChargeCall c) s = run_charge env c s"
| "run env (MerchantCall c) s = run_merchant env c s"

text \<open>A call as one transaction of the ledger.\<close>

definition transact :: "env \<Rightarrow> call \<Rightarrow> vault \<Rightarrow> unit res \<times> vault" where
  "transact env c s = invoke (run env c s) s"

text \<open>Seeing through the wrappers.\<close>

lemma unless_stopped_Ok [ok_iff]:
  "unless_stopped body s = (Ok a, t) \<longleftrightarrow> require_not_emergency_stop s = Ok () \<and> body s = (Ok a, t)"
  by (auto simp: unless_stopped_def ok_iff)

lemmas lib_calls = lib_batch_charge_def lib_create_subscription_def lib_create_subscription_with_token_def
  lib_deposit_funds_def lib_create_subscription_from_plan_def lib_withdraw_subscriber_funds_def lib_partial_refund_def
  lib_charge_one_off_def lib_charge_subscription_def lib_charge_usage_def lib_charge_usage_with_reference_def
  lib_withdraw_merchant_funds_def lib_withdraw_merchant_token_funds_def lib_merchant_refund_def

end
