(* ===== verification/Vault_Laws.thy ===== *)
theory Vault_Laws
  imports Merchant Queries State_Machine
begin

text \<open>
  The vocabulary of the invariants: what a well-formed subscription is, how one subscription may
  develop, and what the vault owes. The relations between states are used through a locale of step
  relations, whose rules follow an operation along its question marks.
\<close>

section \<open>Step relations\<close>

text \<open>
  A reflexive and transitive relation between the state before and the state after. What an
  operation guarantees on every outcome is then found phase by phase.
\<close>

locale step_relation =
  fixes R :: "'s \<Rightarrow> 's \<Rightarrow> bool"
  assumes R_refl: "R s s"
    and R_trans: "R s t \<Longrightarrow> R t u \<Longrightarrow> R s u"
begin

abbreviation keeps :: "'s \<Rightarrow> ('e, 'a) result \<times> 's \<Rightarrow> bool" where
  "keeps s m \<equiv> ends (\<lambda>_ t. R s t) m"

lemma keeps_stay: "keeps s (r, s)"
  by (simp add: ends_def R_refl)

lemma keeps_return: "R s t \<Longrightarrow> keeps s (r, t)"
  by (simp add: ends_def)

lemma keeps_try_res: "(\<And>a. r = Ok a \<Longrightarrow> keeps s (k a)) \<Longrightarrow> keeps s (try_res r s k)"
  by (cases r) (simp_all add: ends_def R_refl)

lemma keeps_after: "R s t \<Longrightarrow> keeps t m \<Longrightarrow> keeps s m"
  unfolding ends_def using R_trans by blast

lemma keeps_try_op:
  assumes "keeps s m" and "\<And>a t. m = (Ok a, t) \<Longrightarrow> keeps t (k a t)"
  shows "keeps s (try_op m k)"
proof (cases m)
  case (Pair r t)
  with assms(1) have "R s t" by (simp add: ends_def)
  with Pair assms(2) show ?thesis
    by (cases r) (auto simp: ends_def intro: R_trans)
qed

lemma keeps_if: "(c \<Longrightarrow> keeps s m) \<Longrightarrow> (\<not> c \<Longrightarrow> keeps s n) \<Longrightarrow> keeps s (if c then m else n)"
  by simp

lemma keeps_option: "(x = None \<Longrightarrow> keeps s m) \<Longrightarrow> (\<And>a. x = Some a \<Longrightarrow> keeps s (k a)) \<Longrightarrow>
    keeps s (case x of None \<Rightarrow> m | Some a \<Rightarrow> k a)"
  by (cases x) simp_all

lemmas keeps_rules = keeps_stay keeps_try_res keeps_try_op keeps_if keeps_option

lemma keeps_result: "keeps s m \<Longrightarrow> m = (r, t) \<Longrightarrow> R s t"
  by (simp add: ends_def)

end

section \<open>Subscriptions\<close>

definition sub_ok :: "subscription \<Rightarrow> bool" where
  "sub_ok x \<longleftrightarrow> 0 \<le> prepaid_balance x \<and> 0 \<le> lifetime_charged x
     \<and> (\<forall>cap. lifetime_cap x = Some cap \<longrightarrow> lifetime_charged x \<le> cap)
     \<and> 60 \<le> interval_seconds x \<and> interval_seconds x \<le> 31536000"

text \<open>
  \<open>develops x y\<close>: the record \<open>y\<close> can be a later version of \<open>x\<close>. Its parties, token, start and
  expiry are fixed, its status went along allowed transitions, its lifetime total did not fall, and
  it is well formed if \<open>x\<close> is. With \<open>evolves x y\<close> its price and interval are the same, too, which only
  a migration to another version of a plan changes.
\<close>

definition develops :: "subscription \<Rightarrow> subscription \<Rightarrow> bool" where
  "develops x y \<longleftrightarrow> subscriber y = subscriber x \<and> merchant y = merchant x \<and> token y = token x
     \<and> start_time y = start_time x \<and> expires_at y = expires_at x
     \<and> status_path (status x) (status y) \<and> lifetime_charged x \<le> lifetime_charged y
     \<and> (sub_ok x \<longrightarrow> sub_ok y)"

definition evolves :: "subscription \<Rightarrow> subscription \<Rightarrow> bool" where
  "evolves x y \<longleftrightarrow> develops x y \<and> amount y = amount x \<and> interval_seconds y = interval_seconds x"

lemma develops_refl [simp]: "develops x x"
  by (simp add: develops_def)

lemma develops_trans: "develops x y \<Longrightarrow> develops y z \<Longrightarrow> develops x z"
  unfolding develops_def by (auto intro: status_path_trans)

lemma evolves_refl [simp]: "evolves x x"
  by (simp add: evolves_def)

lemma evolves_trans: "evolves x y \<Longrightarrow> evolves y z \<Longrightarrow> evolves x z"
  unfolding evolves_def by (auto intro: develops_trans)

lemma evolves_status: "can_transition (status x) st \<Longrightarrow> evolves x (x\<lparr>status := st\<rparr>)"
  by (simp add: evolves_def develops_def sub_ok_def status_path_step)

text \<open>What happens to the map of subscriptions when no new one is created.\<close>

definition subs_evolve :: "vault \<Rightarrow> vault \<Rightarrow> bool" where
  "subs_evolve s t \<longleftrightarrow> dom (subs t) = dom (subs s)
     \<and> (\<forall>i x y. subs s i = Some x \<longrightarrow> subs t i = Some y \<longrightarrow> evolves x y)"

lemma subs_evolve_refl [simp]: "subs_evolve s s"
  by (auto simp: subs_evolve_def)

lemma subs_evolve_trans: "subs_evolve s t \<Longrightarrow> subs_evolve t u \<Longrightarrow> subs_evolve s u"
proof -
  assume st: "subs_evolve s t" and tu: "subs_evolve t u"
  have "evolves x z" if "subs s i = Some x" "subs u i = Some z" for i x z
  proof -
    have "i \<in> dom (subs t)" using st that(1) by (auto simp: subs_evolve_def)
    then obtain y where y: "subs t i = Some y" by auto
    then have "evolves x y" "evolves y z" using st tu that by (simp_all add: subs_evolve_def)
    then show ?thesis by (rule evolves_trans)
  qed
  with st tu show "subs_evolve s u" by (simp add: subs_evolve_def)
qed

lemma subs_evolve_cong: "subs t = subs s \<Longrightarrow> subs_evolve s t"
  by (auto simp: subs_evolve_def)

lemma subs_evolve_put:
  "subs s i = Some x \<Longrightarrow> evolves x y \<Longrightarrow> subs t = (subs s)(i \<mapsto> y) \<Longrightarrow> subs_evolve s t"
  by (auto simp: subs_evolve_def insert_absorb domI)

section \<open>What the vault owes\<close>

text \<open>
  The liabilities in one token: the prepaid balances of its subscriptions and what merchants have
  earned in it.
\<close>

definition owed :: "vault \<Rightarrow> address \<Rightarrow> int" where
  "owed s tok = msum (\<lambda>i x. if token x = tok then prepaid_balance x else 0) (subs s)
     + msum (\<lambda>k b. if snd k = tok then b else 0) (merchant_balances s)"

definition finite_books :: "vault \<Rightarrow> bool" where
  "finite_books s \<longleftrightarrow> finite (dom (subs s)) \<and> finite (dom (merchant_balances s))
     \<and> (\<forall>k b. merchant_balances s k = Some b \<longrightarrow> 0 \<le> b)"

lemma owed_cong: "subs t = subs s \<Longrightarrow> merchant_balances t = merchant_balances s \<Longrightarrow> owed t = owed s"
  by (rule ext) (simp add: owed_def)

lemma finite_books_cong:
  "subs t = subs s \<Longrightarrow> merchant_balances t = merchant_balances s \<Longrightarrow> finite_books t = finite_books s"
  by (simp add: finite_books_def)

lemma owed_sub_change:
  assumes "finite_books s" and "subs s i = Some x" and "token y = token x"
    and "subs t = (subs s)(i \<mapsto> y)" and "merchant_balances t = merchant_balances s"
  shows "owed t tok = owed s tok + (if token x = tok then prepaid_balance y - prepaid_balance x else 0)"
    and "finite_books t"
  using assms by (simp_all add: owed_def finite_books_def msum_upd weight_def)

lemma owed_sub_new:
  assumes "finite_books s" and "subs s i = None"
    and "subs t = (subs s)(i \<mapsto> y)" and "merchant_balances t = merchant_balances s"
  shows "owed t tok = owed s tok + (if token y = tok then prepaid_balance y else 0)"
    and "finite_books t"
  using assms by (simp_all add: owed_def finite_books_def msum_upd weight_def)

lemma owed_merchant_change:
  assumes "finite_books s" and "subs t = subs s"
    and "merchant_balances t = (merchant_balances s)((m, tk) \<mapsto> b)" and "0 \<le> b"
  shows "owed t tok = owed s tok + (if tk = tok then b - get_merchant_balance_by_token s m tk else 0)"
    and "finite_books t"
proof -
  have "weight (\<lambda>k b. if snd k = tok then b else 0) (merchant_balances s) (m, tk) =
      (if tk = tok then get_merchant_balance_by_token s m tk else 0)"
    by (simp add: weight_def get_merchant_balance_by_token_def unwrap_or_def split: option.split)
  with assms show "owed t tok = owed s tok + (if tk = tok then b - get_merchant_balance_by_token s m tk else 0)"
    by (simp add: owed_def finite_books_def msum_upd)
  show "finite_books t"
    using assms by (auto simp: finite_books_def)
qed

lemma merchant_balance_nonneg: "finite_books s \<Longrightarrow> 0 \<le> get_merchant_balance_by_token s m tok"
  by (auto simp: finite_books_def get_merchant_balance_by_token_def unwrap_or_def split: option.split)

lemma owed_credit:
  assumes "finite_books s" and "credit_merchant_balance_for_token m tk amt k s = (Ok u, t)"
  shows "owed t tok = owed s tok + (if tk = tok then amt else 0)" and "finite_books t"
proof -
  note c = credit_Ok [OF assms(2)]
  have "sbs t = sbs (s\<lparr>mer := mer t\<rparr>)" by (rule arg_cong [OF c(9)])
  then have sub: "subs t = subs s" by simp
  have "0 \<le> get_merchant_balance_by_token s m tk + amt"
    using merchant_balance_nonneg [OF assms(1)] c(1) by (simp add: add_nonneg_nonneg)
  from owed_merchant_change [OF assms(1) sub c(3) this]
  show "owed t tok = owed s tok + (if tk = tok then amt else 0)" and "finite_books t"
    by simp_all
qed

text \<open>Every single liability is covered by the total.\<close>

lemma prepaid_le_owed:
  assumes "finite_books s" and "\<And>i x. subs s i = Some x \<Longrightarrow> sub_ok x" and "subs s i = Some x"
  shows "prepaid_balance x \<le> owed s (token x)"
proof -
  let ?f = "\<lambda>i y. if token y = token x then prepaid_balance y else 0"
  let ?g = "\<lambda>k b. if snd k = token x then b else (0::int)"
  have "weight ?f (subs s) i \<le> msum ?f (subs s)"
    using assms(1,2) by (intro weight_le_msum) (auto simp: finite_books_def sub_ok_def)
  moreover have "0 \<le> msum ?g (merchant_balances s)"
    using assms(1) by (intro msum_nonneg) (auto simp: finite_books_def)
  ultimately show ?thesis using assms(3) by (simp add: owed_def weight_def)
qed

lemma merchant_le_owed:
  assumes "finite_books s" and "\<And>i x. subs s i = Some x \<Longrightarrow> sub_ok x"
  shows "get_merchant_balance_by_token s m tok \<le> owed s tok"
proof -
  let ?f = "\<lambda>i y. if token y = tok then prepaid_balance y else 0"
  let ?g = "\<lambda>k b. if snd k = tok then b else (0::int)"
  have "0 \<le> msum ?f (subs s)"
    using assms by (intro msum_nonneg) (auto simp: sub_ok_def)
  moreover have "weight ?g (merchant_balances s) (m, tok) \<le> msum ?g (merchant_balances s)"
    using assms(1) by (intro weight_le_msum) (auto simp: finite_books_def)
  ultimately show ?thesis
    by (auto simp: owed_def weight_def get_merchant_balance_by_token_def unwrap_or_def split: option.splits)
qed

end
