(* ===== verification/Charge_Laws.thy ===== *)
theory Charge_Laws
  imports Charge_Core Vault_Laws
begin

text \<open>
  What the two charging functions guarantee. First on every outcome, errors included, because the
  batch entry point keeps the writes of a failed charge: who is touched, and how subscriptions
  develop. Then the conservation of what is owed, and the exact effect of a successful charge.
\<close>

section \<open>The frame of a charge\<close>

definition charge_frame :: "vault \<Rightarrow> vault \<Rightarrow> bool" where
  "charge_frame s t \<longleftrightarrow> subs_evolve s t
     \<and> adm t = adm s \<and> pln t = pln s \<and> met t = met s \<and> bil t = bil s
     \<and> total_accounted_key t = total_accounted_key s \<and> blocklist_key t = blocklist_key s
     \<and> lock_key t = lock_key s \<and> tokens t = tokens s
     \<and> merchant_paused_key (mer t) = merchant_paused_key (mer s)
     \<and> merchant_config_key (mer t) = merchant_config_key (mer s)
     \<and> next_id_key (sbs t) = next_id_key (sbs s)
     \<and> merchant_subs_key (sbs t) = merchant_subs_key (sbs s) \<and> token_subs_key (sbs t) = token_subs_key (sbs s)
     \<and> usage_limits_key (sbs t) = usage_limits_key (sbs s) \<and> credit_limit_key (sbs t) = credit_limit_key (sbs s)
     \<and> cap_default_key (sbs t) = cap_default_key (sbs s) \<and> merch_cap_key (sbs t) = merch_cap_key (sbs s)
     \<and> persistent_sub_key (sbs t) = persistent_sub_key (sbs s)
     \<and> (\<forall>i p. charged_period_key (sbs s) i = Some p \<longrightarrow> (\<exists>q \<ge> p. charged_period_key (sbs t) i = Some q))
     \<and> (\<forall>k. usage_ref_key (sbs s) k \<noteq> None \<longrightarrow> usage_ref_key (sbs t) k \<noteq> None)"

interpretation charge_steps: step_relation charge_frame
proof
  show "charge_frame s s" for s by (auto simp: charge_frame_def)
  show "charge_frame s t \<Longrightarrow> charge_frame t u \<Longrightarrow> charge_frame s u" for s t u
    unfolding charge_frame_def by (elim conjE, intro conjI) (auto intro: subs_evolve_trans dest: order_trans, (meson order_trans)+)
qed

lemma frame_untouched:
  "sbs t = sbs s \<Longrightarrow> adm t = adm s \<Longrightarrow> pln t = pln s \<Longrightarrow> met t = met s \<Longrightarrow> bil t = bil s \<Longrightarrow>
   total_accounted_key t = total_accounted_key s \<Longrightarrow> blocklist_key t = blocklist_key s \<Longrightarrow>
   lock_key t = lock_key s \<Longrightarrow> tokens t = tokens s \<Longrightarrow>
   merchant_paused_key (mer t) = merchant_paused_key (mer s) \<Longrightarrow>
   merchant_config_key (mer t) = merchant_config_key (mer s) \<Longrightarrow> charge_frame s t"
  by (auto simp: charge_frame_def subs_evolve_cong)

lemma frame_publish: "charge_frame s t \<Longrightarrow> charge_frame s (publish topic ev t)"
  by (simp add: charge_frame_def subs_evolve_def)

lemma frame_put_sub:
  "subs s i = Some x \<Longrightarrow> evolves x y \<Longrightarrow> charge_frame s (put_sub i y s)"
  unfolding charge_frame_def by (auto intro: subs_evolve_put)

lemma frame_cap_event: "charge_frame s t \<Longrightarrow> charge_frame s (cap_event i sub now t)"
  by (auto simp: cap_event_def intro: frame_publish split: option.split)

lemmas frame_intros = frame_publish frame_cap_event frame_put_sub charge_steps.keeps_return

subsection \<open>Phases that leave the subscriptions alone\<close>

lemma credit_keeps: "charge_steps.keeps s (credit_merchant_balance_for_token m tok amt k s)"
  unfolding credit_merchant_balance_for_token_def Let_def
  by (intro ends_intro frame_untouched) (simp_all add: merchant_writes Let_def)

lemma credit_treasury_keeps: "charge_steps.keeps s (credit_treasury i tok m f now tr s)"
  unfolding credit_treasury_def
  by (intro charge_steps.keeps_rules credit_keeps) (auto intro!: frame_intros charge_steps.R_refl)

lemma append_keeps: "charge_steps.keeps s (append_statement env i amt m k a b s)"
proof (rule ends_mono [OF append_frame])
  fix r t
  assume "t = s\<lparr>stm := stm t\<rparr> \<and> r \<noteq> Trap \<and> snext_key (stm t) = (if is_ok r then (snext_key (stm s))(i \<mapsto> next_sequence s i + 1) else snext_key (stm s))"
  then obtain x where "t = s\<lparr>stm := x\<rparr>" by blast
  then show "charge_frame s t" by (intro frame_untouched) simp_all
qed

lemma write_snapshot_keeps: "charge_steps.keeps s (write_period_snapshot x s)"
proof (rule ends_mono [OF write_frame])
  fix r t
  assume "t = s\<lparr>snp := snp t\<rparr> \<and> r \<noteq> Trap \<and> (\<not> is_ok r \<longrightarrow> t = s)"
  then obtain y where "t = s\<lparr>snp := y\<rparr>" by blast
  then show "charge_frame s t" by (intro frame_untouched) simp_all
qed

lemma resolve_keeps: "charge_steps.keeps s (resolve_charge_amount env i sub s)"
proof (rule ends_mono [OF resolve_frame])
  fix r t
  assume "t = s\<lparr>evlog := evlog t\<rparr> \<and> (\<not> is_ok r \<longrightarrow> t = s)"
  then obtain y where "t = s\<lparr>evlog := y\<rparr>" by blast
  then show "charge_frame s t" by (intro frame_untouched) simp_all
qed

text \<open>Through all these phases the subscriptions are untouched.\<close>

lemma credit_sbs: "credit_merchant_balance_for_token m tok amt k s = (r, t) \<Longrightarrow> sbs t = sbs s"
  using endsD [OF credit_ends] by (metis vault.select_convs(3) vault.surjective vault.update_convs(2))

lemma append_sbs: "append_statement env i amt m k a b s = (r, t) \<Longrightarrow> sbs t = sbs s \<and> mer t = mer s"
  using endsD [OF append_frame]
  by (metis vault.select_convs(2,3) vault.surjective vault.update_convs(5))

lemma write_snapshot_sbs: "write_period_snapshot x s = (r, t) \<Longrightarrow> sbs t = sbs s \<and> mer t = mer s \<and> stm t = stm s"
  using endsD [OF write_frame]
  by (metis vault.select_convs(2,3,5) vault.surjective vault.update_convs(6))

lemma resolve_sbs: "resolve_charge_amount env i sub s = (r, t) \<Longrightarrow> sbs t = sbs s \<and> mer t = mer s \<and> adm t = adm s"
  using endsD [OF resolve_frame]
  by (metis vault.select_convs(1-3) vault.surjective vault.update_convs(12))

lemma treasury_sbs: "credit_treasury i tok m f now tr s = (r, t) \<Longrightarrow> sbs t = sbs s"
  by (auto simp: credit_treasury_def dest: credit_sbs split: if_splits option.splits
      elim!: try_op.elims)

subsection \<open>Phases that write the subscription\<close>

lemma cap_event_frame [simp]:
  "sbs (cap_event i sub now s) = sbs s" "mer (cap_event i sub now s) = mer s" "adm (cap_event i sub now s) = adm s"
  "stm (cap_event i sub now s) = stm s" "snp (cap_event i sub now s) = snp s" "tokens (cap_event i sub now s) = tokens s"
  "total_accounted_key (cap_event i sub now s) = total_accounted_key s"
  by (simp_all add: cap_event_def split: option.split)

lemma expiration_guard_Ok [ok_iff]:
  "expiration_guard i sub now s = (Ok u, t) \<longleftrightarrow> \<not> is_expired sub now \<and> t = s"
  by (auto simp: expiration_guard_def ok_iff)

lemma expiration_guard_keeps:
  "subs s i = Some sub \<Longrightarrow> charge_steps.keeps s (expiration_guard i sub now s)"
  unfolding expiration_guard_def
  by (auto intro!: charge_steps.keeps_rules frame_intros evolves_status simp: ok_iff simp del: can_transition_targets)

lemma cancel_at_cap_keeps:
  "subs s i = Some sub \<Longrightarrow> charge_steps.keeps s (cancel_at_cap i sub now s)"
  unfolding cancel_at_cap_def Let_def
  by (auto intro!: charge_steps.keeps_rules frame_intros evolves_status simp: ok_iff simp del: can_transition_targets)

lemma mark_charged_simps [simp]:
  "subs (mark_charged i p key s) = subs s" "mer (mark_charged i p key s) = mer s" "adm (mark_charged i p key s) = adm s"
  "stm (mark_charged i p key s) = stm s" "snp (mark_charged i p key s) = snp s"
  "tokens (mark_charged i p key s) = tokens s"
  "charged_period_key (sbs (mark_charged i p key s)) = (charged_period_key (sbs s))(i \<mapsto> p)"
  by (simp_all add: mark_charged_def Let_def split: option.split)

lemma mark_charged_frame:
  assumes "\<forall>q. charged_period_key (sbs s) i = Some q \<longrightarrow> q \<le> p"
  shows "charge_frame s (mark_charged i p key s)"
  using assms by (auto simp: charge_frame_def subs_evolve_def mark_charged_def Let_def split: option.split)

lemma record_charge_keeps:
  assumes "\<forall>p. charged_period_key (sbs s) i = Some p \<longrightarrow> p \<le> p_index"
  shows "charge_steps.keeps s (record_charge env i sub now key c p_index a b n at_cap s)"
  unfolding record_charge_def Let_def
  using assms
  by (auto intro!: charge_steps.keeps_try_op append_keeps write_snapshot_keeps charge_steps.keeps_return
      frame_publish frame_cap_event mark_charged_frame dest!: append_sbs write_snapshot_sbs)

lemma charge_shortfall_keeps:
  assumes "subs s i = Some sub"
  shows "charge_steps.keeps s (charge_shortfall i sub now c s)"
  unfolding charge_shortfall_def Let_def
  using assms
  by (auto intro!: charge_steps.keeps_rules frame_intros evolves_status simp: ok_iff
      simp del: can_transition_targets split: if_splits)

text \<open>A settled charge makes a well-formed later version of the subscription.\<close>

lemma evolves_charge:
  assumes "0 \<le> c" and "c \<le> prepaid_balance sub"
    and "\<forall>cap. lifetime_cap sub = Some cap \<longrightarrow> c \<le> cap - lifetime_charged sub"
    and "status_path (status sub) st"
  shows "evolves sub (sub\<lparr>prepaid_balance := prepaid_balance sub - c, last_payment_timestamp := l,
    lifetime_charged := lifetime_charged sub + c, status := st\<rparr>)"
  using assms by (fastforce simp: evolves_def develops_def sub_ok_def)

lemma cap_exhausted_status [simp]: "cap_exhausted (x\<lparr>status := st\<rparr>) = cap_exhausted x"
  by (simp add: cap_exhausted_def split: option.split)

lemma settled_status_Ok:
  assumes "settled_status x = Ok y"
  obtains st where "y = x\<lparr>status := st\<rparr>" and "status_path (status x) st"
    and "st = Active \<or> st = Cancelled \<or> st = status x" and "cap_exhausted x \<Longrightarrow> st = Cancelled"
proof -
  have same: "x = x\<lparr>status := status x\<rparr>" by simp
  have "status_path (status x) Active" if "status x = GracePeriod \<or> status x = InsufficientBalance"
    using that by (auto intro: status_path_step)
  moreover have "status_path (status x) Cancelled" if "can_transition (status x) Cancelled"
    using that by (rule status_path_step)
  moreover have "status_path (status x) (status x)" by (simp add: status_path_def)
  ultimately show thesis
    using assms that [of Active] that [of Cancelled] that [of "status x"]
    by (auto simp: settled_status_def Let_def ok_iff split: if_splits)
qed

lemma settle_interval_keeps:
  assumes sub: "subs s i = Some sub" and c: "0 \<le> c" "c \<le> prepaid_balance sub"
    and cap: "\<forall>cap. lifetime_cap sub = Some cap \<longrightarrow> c \<le> cap - lifetime_charged sub"
    and period: "\<forall>p. charged_period_key (sbs s) i = Some p \<longrightarrow> p \<le> p_index"
  shows "charge_steps.keeps s
    (settle_interval env i sub now key c (prepaid_balance sub - c) p_index a b n s)"
proof -
  obtain m f where fee: "split_fee s c = (m, f)" by fastforce
  have put: "charge_steps.keeps s2 (record_charge env i y now key c p_index a b n k (put_sub i y s2))"
    if settled: "settled_status (sub\<lparr>prepaid_balance := prepaid_balance sub - c, last_payment_timestamp := a,
          lifetime_charged := lifetime_charged sub + c\<rparr>) = Ok y" and same: "sbs s2 = sbs s" for y k s2
  proof (rule charge_steps.keeps_after)
    obtain st where y: "y = sub\<lparr>prepaid_balance := prepaid_balance sub - c, last_payment_timestamp := a,
          lifetime_charged := lifetime_charged sub + c, status := st\<rparr>" and path: "status_path (status sub) st"
      by (rule settled_status_Ok [OF settled]) simp
    show "charge_frame s2 (put_sub i y s2)"
      unfolding y using evolves_charge [OF c cap path] by (rule frame_put_sub [rotated]) (simp add: same sub)
    show "charge_steps.keeps (put_sub i y s2) (record_charge env i y now key c p_index a b n k (put_sub i y s2))"
      using period same by (intro record_charge_keeps) simp
  qed
  show ?thesis
    unfolding settle_interval_def fee Let_def prod.case
    by (intro charge_steps.keeps_try_op charge_steps.keeps_try_res credit_keeps credit_treasury_keeps put)
      (simp_all add: credit_sbs treasury_sbs ok_iff)
qed

lemma over_cap_Ok:
  assumes "(case lifetime_cap sub of
       Some cap \<Rightarrow> bind_res (if lifetime_charged sub \<ge> cap then Ok 0 else safe_sub cap (lifetime_charged sub))
         (\<lambda>remaining. Ok (remaining = 0 \<or> c > remaining))
     | None \<Rightarrow> Ok False) = Ok False"
  shows "\<forall>cap. lifetime_cap sub = Some cap \<longrightarrow> c \<le> cap - lifetime_charged sub"
  using assms by (auto simp: ok_iff split: option.splits if_splits)

lemma charge_period_keeps:
  assumes "subs s i = Some sub"
  shows "charge_steps.keeps s (charge_period env i sub now key c s)"
proof -
  have settle: "charge_steps.keeps s (case safe_sub_balance (prepaid_balance sub) c of
        Ok new_balance \<Rightarrow> settle_interval env i sub now key c new_balance p a b n s
      | _ \<Rightarrow> charge_shortfall i sub now c s)"
    if "\<not> (case charged_period_key (sbs s) i of Some stored \<Rightarrow> p \<le> stored | None \<Rightarrow> False)"
      and "\<forall>cap. lifetime_cap sub = Some cap \<longrightarrow> c \<le> cap - lifetime_charged sub" for p a b n
  proof (cases "safe_sub_balance (prepaid_balance sub) c")
    case (Ok nb)
    then have "0 \<le> c" "c \<le> prepaid_balance sub" "nb = prepaid_balance sub - c" by (simp_all add: ok_iff)
    with Ok that assms show ?thesis
      by (simp, intro settle_interval_keeps) (auto split: option.splits)
  qed (use assms in \<open>simp_all add: charge_shortfall_keeps\<close>)
  show ?thesis
    unfolding charge_period_def Let_def
    by (intro charge_steps.keeps_rules settle cancel_at_cap_keeps assms)
      (auto simp: assms dest!: over_cap_Ok intro: charge_steps.keeps_stay)
qed

lemma charge_one_keeps: "charge_steps.keeps s (charge_one env i now key s)"
  unfolding charge_one_def
  by (auto intro!: charge_steps.keeps_rules expiration_guard_keeps resolve_keeps cancel_at_cap_keeps
      charge_period_keeps simp: ok_iff dest!: resolve_sbs)

subsection \<open>Usage charges\<close>

lemma usage_state_frame:
  "charge_frame s (s\<lparr>sbs := (sbs s)\<lparr>usage_state_key := m\<rparr>\<rparr>)"
  by (auto simp: charge_frame_def subs_evolve_def)

lemma usage_limit_step_keeps: "charge_steps.keeps s (usage_limit_step i sub now u s)"
  unfolding usage_limit_step_def
  by (auto intro!: charge_steps.keeps_rules split: sum.split)
    (auto intro: charge_steps.keeps_stay charge_steps.keeps_return usage_state_frame)

lemma usage_limit_step_same:
  "usage_limit_step i sub now u s = (r, t) \<Longrightarrow>
     subs t = subs s \<and> mer t = mer s \<and> adm t = adm s \<and> stm t = stm s \<and> tokens t = tokens s
     \<and> usage_ref_key (sbs t) = usage_ref_key (sbs s) \<and> total_accounted_key t = total_accounted_key s"
  by (auto simp: usage_limit_step_def split: option.splits sum.splits if_splits)

lemma reject_usage_keeps: "charge_steps.keeps s (reject_usage i sub u now reference r s)"
  unfolding reject_usage_def by (auto intro!: frame_intros charge_steps.R_refl)

lemma usage_shortfall_keeps: "subs s i = Some sub \<Longrightarrow> charge_steps.keeps s (usage_shortfall i sub u now s)"
  unfolding usage_shortfall_def
  by (auto intro!: charge_steps.keeps_rules frame_intros evolves_status simp: ok_iff simp del: can_transition_targets)

lemma evolves_usage:
  assumes "0 \<le> u" and "u \<le> prepaid_balance sub"
    and "\<forall>cap. lifetime_cap sub = Some cap \<longrightarrow> lifetime_charged sub + u \<le> cap"
    and "can_transition (status sub) st"
  shows "evolves sub (sub\<lparr>prepaid_balance := prepaid_balance sub - u,
    lifetime_charged := lifetime_charged sub + u, status := st\<rparr>)"
  using assms by (fastforce simp: evolves_def develops_def sub_ok_def intro: status_path_step simp del: can_transition_targets)

lemma usage_ref_frame:
  "charge_frame s (s\<lparr>sbs := (sbs s)\<lparr>usage_ref_key := (usage_ref_key (sbs s))(k \<mapsto> True)\<rparr>\<rparr>)"
  by (auto simp: charge_frame_def subs_evolve_def)

lemma usage_status_Ok:
  assumes "usage_status x = Ok y"
  obtains st where "y = x\<lparr>status := st\<rparr>" and "can_transition (status x) st"
    and "st = (if cap_exhausted x then Cancelled else if prepaid_balance x = 0 then InsufficientBalance else status x)"
  using assms that [of Cancelled] that [of InsufficientBalance] that [of "status x"]
  by (auto simp: usage_status_def ok_iff simp del: can_transition_targets split: if_splits)

lemma settle_usage_keeps:
  assumes sub: "subs s i = Some sub" and u: "0 \<le> u" "u \<le> prepaid_balance sub"
    and cap: "\<forall>cap. lifetime_cap sub = Some cap \<longrightarrow> lifetime_charged sub + u \<le> cap"
  shows "charge_steps.keeps s (settle_usage env i sub u reference (prepaid_balance sub - u) (lifetime_charged sub + u) s)"
proof -
  have put: "charge_frame s1 (put_sub i y s1)"
    if settled: "usage_status (sub\<lparr>prepaid_balance := prepaid_balance sub - u,
        lifetime_charged := lifetime_charged sub + u\<rparr>) = Ok y" and same: "sbs s1 = sbs s" for y s1
  proof -
    obtain st where y: "y = sub\<lparr>prepaid_balance := prepaid_balance sub - u,
        lifetime_charged := lifetime_charged sub + u, status := st\<rparr>" and st: "can_transition (status sub) st"
      by (rule usage_status_Ok [OF settled]) simp
    show ?thesis
      unfolding y using evolves_usage [OF u cap st] by (rule frame_put_sub [rotated]) (simp add: same sub)
  qed
  have rest: "charge_steps.keeps s1 (try_op (append_statement env i u m Usage now now
        ((put_sub i y s1)\<lparr>sbs := (sbs (put_sub i y s1))\<lparr>usage_ref_key :=
           (usage_ref_key (sbs (put_sub i y s1)))((i, reference) \<mapsto> True)\<rparr>\<rparr>))
      (\<lambda>_ s4. (Ok UsageCharged, if k then cap_event i y now (publish tp ev s4) else publish tp ev s4)))"
    if "charge_frame s1 (put_sub i y s1)" for y s1 m now k tp ev
    by (rule charge_steps.keeps_after [OF that], rule charge_steps.keeps_after [OF usage_ref_frame])
      (auto intro!: charge_steps.keeps_try_op append_keeps charge_steps.keeps_return frame_publish frame_cap_event
        charge_steps.R_refl)
  show ?thesis
    unfolding settle_usage_def Let_def
    by (intro charge_steps.keeps_try_op charge_steps.keeps_try_res credit_keeps rest put) (auto dest: credit_sbs)
qed

lemma charge_usage_one_keeps: "charge_steps.keeps s (charge_usage_one env i u reference s)"
proof -
  have settle: "charge_steps.keeps s2 (case safe_sub_balance (prepaid_balance sub) u of
        Ok new_balance \<Rightarrow> settle_usage env i sub u reference new_balance pending s2
      | _ \<Rightarrow> usage_shortfall i sub u now s2)"
    if stored: "subs s2 i = Some sub" and add: "safe_add (lifetime_charged sub) u = Ok pending"
      and cap: "\<not> (case lifetime_cap sub of Some cap \<Rightarrow> pending > cap | None \<Rightarrow> False)" for s2 sub pending now
  proof (cases "safe_sub_balance (prepaid_balance sub) u")
    case (Ok nb)
    then have nb: "0 \<le> u" "u \<le> prepaid_balance sub" "nb = prepaid_balance sub - u" by (simp_all add: ok_iff)
    have pending: "pending = lifetime_charged sub + u" using add by (simp add: ok_iff)
    show ?thesis
      unfolding Ok result.case nb(3) pending
      using stored nb(1,2) cap pending by (intro settle_usage_keeps) (auto split: option.splits)
  qed (use stored in \<open>simp_all add: usage_shortfall_keeps\<close>)
  show ?thesis
    unfolding charge_usage_one_def usage_within_limits_def Let_def
    by (intro charge_steps.keeps_rules expiration_guard_keeps cancel_at_cap_keeps settle
        usage_limit_step_keeps reject_usage_keeps)
      (auto simp: ok_iff dest: usage_limit_step_same)
qed

end
