(* ===== verification/Charge_Books.thy ===== *)
theory Charge_Books
  imports Charge_Laws
begin

text \<open>
  The money side of a charge. A charge moves value from one prepaid balance to the merchant and the
  treasury and neither makes nor loses any, provided the fee product does not wrap; and the exact
  effect of a charge that was taken.
\<close>

section \<open>The fee\<close>

text \<open>
  The plain product of the source is exact while ten thousand times the amount fits \<open>i128\<close>, which
  any amount of a real token does.
\<close>

definition fee_safe :: "vault \<Rightarrow> bool" where
  "fee_safe s \<longleftrightarrow> get_protocol_fee_bps s \<le> 10000
     \<and> (\<forall>i x. subs s i = Some x \<longrightarrow> prepaid_balance x * 10000 \<le> I128_MAX)"

definition fee_of :: "vault \<Rightarrow> i128 \<Rightarrow> i128" where
  "fee_of s c = (if get_treasury s = None then 0 else c * int (get_protocol_fee_bps s) div 10000)"

lemma fee_of_bounds:
  assumes "0 \<le> c" and "get_protocol_fee_bps s \<le> 10000"
  shows "0 \<le> fee_of s c" and "fee_of s c \<le> c"
proof -
  have "c * int (get_protocol_fee_bps s) \<le> c * 10000"
    using assms by (intro mult_left_mono) auto
  then have "c * int (get_protocol_fee_bps s) div 10000 \<le> c" by simp
  moreover have "0 \<le> c * int (get_protocol_fee_bps s) div 10000"
    using assms(1) by (simp add: pos_imp_zdiv_nonneg_iff)
  ultimately show "0 \<le> fee_of s c" and "fee_of s c \<le> c" using assms(1) by (simp_all add: fee_of_def)
qed

lemma split_fee_exact:
  assumes "0 \<le> c" and "c * 10000 \<le> I128_MAX" and "get_protocol_fee_bps s \<le> 10000"
  shows "split_fee s c = (c - fee_of s c, fee_of s c)"
proof -
  let ?p = "c * int (get_protocol_fee_bps s)"
  have "0 \<le> ?p" and "?p \<le> c * 10000"
    using assms by (auto intro: mult_left_mono)
  then have "in_i128 ?p" using assms(2) I128_MAX_pos by (simp add: i128_range)
  then have p: "wrap_i128 ?p sdiv 10000 = ?p div 10000"
    using \<open>0 \<le> ?p\<close> by (simp add: wrap_i128_id sdiv_nonneg)
  have "c \<le> I128_MAX" using assms(1,2) by linarith
  then have "in_i128 (c - fee_of s c)"
    using fee_of_bounds [OF assms(1,3)] assms(1) I128_MAX_pos by (simp add: i128_range)
  then have w: "wrap_i128 (c - fee_of s c) = c - fee_of s c" by (rule wrap_i128_id)
  show ?thesis
    using p w by (cases "get_treasury s") (auto simp: split_fee_def fee_of_def Let_def)
qed

section \<open>Failures that leave the books alone\<close>

text \<open>
  \<open>settled r s t\<close>: unless a counter overflowed, the state \<open>t\<close> owes in every token what \<open>s\<close> owed.
\<close>

definition settled :: "vault \<Rightarrow> 'a res \<Rightarrow> vault \<Rightarrow> bool" where
  "settled s r t \<longleftrightarrow> (r \<noteq> Err Overflow \<longrightarrow> finite_books t \<and> owed t = owed s)"

lemma settled_same:
  "finite_books s \<Longrightarrow> subs t = subs s \<Longrightarrow> mer t = mer s \<Longrightarrow> settled s r t"
  using owed_cong [of t s] finite_books_cong [of t s] by (simp add: settled_def)

lemma settled_overflow [simp]: "settled s (Err Overflow) t"
  by (simp add: settled_def)

lemma settled_status_change:
  assumes "finite_books s" and "subs s i = Some x" and "subs t = (subs s)(i \<mapsto> x\<lparr>status := st\<rparr>)" and "mer t = mer s"
  shows "settled s r t"
  using owed_sub_change [OF assms(1,2), of "x\<lparr>status := st\<rparr>" t] assms(3,4)
  by (auto simp: settled_def fun_eq_iff)

lemma expiration_guard_settled:
  "finite_books s \<Longrightarrow> subs s i = Some sub \<Longrightarrow> ends (settled s) (expiration_guard i sub now s)"
  unfolding expiration_guard_def
  by (intro ends_intro) (auto intro: settled_same settled_status_change)

lemma cancel_at_cap_settled:
  "finite_books s \<Longrightarrow> subs s i = Some sub \<Longrightarrow> ends (settled s) (cancel_at_cap i sub now s)"
  unfolding cancel_at_cap_def Let_def
  by (intro ends_intro) (auto intro: settled_same settled_status_change)

lemma charge_shortfall_settled:
  "finite_books s \<Longrightarrow> subs s i = Some sub \<Longrightarrow> ends (settled s) (charge_shortfall i sub now c s)"
  unfolding charge_shortfall_def Let_def
  by (intro ends_intro) (auto intro: settled_same settled_status_change)

lemma usage_shortfall_settled:
  "finite_books s \<Longrightarrow> subs s i = Some sub \<Longrightarrow> ends (settled s) (usage_shortfall i sub u now s)"
  unfolding usage_shortfall_def
  by (intro ends_intro) (auto intro: settled_same settled_status_change)

lemma resolve_settled: "finite_books s \<Longrightarrow> ends (settled s) (resolve_charge_amount env i sub s)"
  by (rule endsI, rule settled_same) (auto dest: resolve_sbs)

text \<open>After a settled phase the rest may start from the state it left.\<close>

lemma settled_try_op:
  assumes "ends (settled s) m"
    and "\<And>a t. m = (Ok a, t) \<Longrightarrow> finite_books t \<Longrightarrow> owed t = owed s \<Longrightarrow> ends (settled t) (k a t)"
  shows "ends (settled s) (try_op m k)"
proof (cases m)
  case (Pair r t)
  with assms(1) have "settled s r t" by (simp add: ends_def)
  with Pair assms(2) show ?thesis
    by (cases r) (auto simp: ends_def settled_def)
qed

lemma settled_try_res:
  assumes "finite_books s" and "\<And>a. r = Ok a \<Longrightarrow> ends (settled s) (k a)"
  shows "ends (settled s) (try_res r s k)"
  using assms by (cases r) (auto simp: ends_def settled_def)

section \<open>Interval charges\<close>

lemma record_charge_settled:
  assumes "finite_books s"
  shows "ends (settled s) (record_charge env i sub now key c p a b n k s)"
  unfolding record_charge_def Let_def
proof (intro settled_try_op)
  show "ends (settled s) (append_statement env i c (merchant sub) Interval (n - interval_seconds sub) now s)"
    using assms by (intro endsI, elim settled_same) (auto dest: append_sbs)
next
  fix t
  assume "finite_books t"
  then show "ends (settled t) (write_period_snapshot x t)" for x
    by (intro endsI, elim settled_same) (auto dest: write_snapshot_sbs)
next
  fix t2
  assume "finite_books t2"
  then show "ends (settled t2) (Ok Charged, if k then cap_event i sub now (publish tp ev (mark_charged i p key t2))
      else publish tp ev (mark_charged i p key t2))" for tp ev
    by (auto intro!: ends_intro settled_same)
qed

lemma settled_status_total:
  assumes "status x = Active \<or> status x = GracePeriod"
  shows "\<exists>y. settled_status x = Ok y"
  using assms
  by (auto simp: settled_status_def Let_def ok_iff bind_res_def validate_cases split: if_splits)

lemma credit_error:
  assumes "credit_merchant_balance_for_token m tok amt k s = (r, t)" and "0 \<le> amt" and "in_i128 amt"
    and "finite_books s"
  shows "is_ok r \<or> r = Err Overflow"
proof -
  let ?b = "get_merchant_balance_by_token s m tok"
  have "0 \<le> ?b" by (rule merchant_balance_nonneg) (rule assms(4))
  then have add: "safe_add ?b amt = Err Overflow \<or> (\<exists>v. safe_add ?b amt = Ok v)"
    using assms(2,3) I128_MAX_pos by (auto simp: safe_add_def checked_defs checked_i128_def i128_range)
  show ?thesis
    using assms(1,2) add
    by (auto simp: credit_merchant_balance_for_token_def Let_def validate_non_negative_def
        elim!: try_res_cases dest: accrue_error)
qed

lemma credit_treasury_outcome:
  assumes "credit_treasury i tok m f now (get_treasury s0) s = (r, t)" and "0 \<le> f" and "in_i128 f"
    and "finite_books s" and "f > 0 \<Longrightarrow> get_treasury s0 \<noteq> None"
  shows "r = Err Overflow \<or> r = Ok () \<and> finite_books t \<and> owed t tok' = owed s tok' + (if tok = tok' then f else 0)"
proof (cases "f > 0")
  case False
  with assms(1,2,4) show ?thesis by (auto simp: credit_treasury_def)
next
  case True
  then obtain tr where tr: "get_treasury s0 = Some tr" using assms(5) by auto
  obtain r1 t1 where c: "credit_merchant_balance_for_token tr tok f Interval s = (r1, t1)" by fastforce
  show ?thesis
  proof (cases "is_ok r1")
    case False
    with credit_error [OF c assms(2-4)] c assms(1) tr True show ?thesis
      by (auto simp: credit_treasury_def)
  next
    case True
    then have c: "credit_merchant_balance_for_token tr tok f Interval s = (Ok (), t1)"
      using c by (auto simp: is_ok_iff)
    have t: "r = Ok ()" "subs t = subs t1" "mer t = mer t1"
      using assms(1) \<open>f > 0\<close> by (auto simp: credit_treasury_def tr c)
    then have "owed t = owed t1" "finite_books t = finite_books t1"
      using owed_cong [of t t1] finite_books_cong [of t t1] by simp_all
    with owed_credit [OF assms(4) c] t(1) show ?thesis by auto
  qed
qed

lemma settle_interval_settled:
  assumes books: "finite_books s" and fee: "fee_safe s" and sub: "subs s i = Some sub" and ok: "sub_ok sub"
    and st: "status sub = Active \<or> status sub = GracePeriod"
    and c: "0 \<le> c" "c \<le> prepaid_balance sub"
  shows "ends (settled s) (settle_interval env i sub now key c (prepaid_balance sub - c) p a b n s)"
proof -
  let ?f = "fee_of s c"
  let ?sub = "sub\<lparr>prepaid_balance := prepaid_balance sub - c, last_payment_timestamp := a,
                lifetime_charged := lifetime_charged sub + c\<rparr>"
  have bps: "get_protocol_fee_bps s \<le> 10000" and big: "prepaid_balance sub * 10000 \<le> I128_MAX"
    using fee sub by (auto simp: fee_safe_def)
  then have c_max: "c * 10000 \<le> I128_MAX" using c(2) by linarith
  note f = fee_of_bounds [OF c(1) bps]
  have range: "in_i128 (c - ?f)" "in_i128 ?f" "0 \<le> c - ?f" "in_i128 c"
    using f c c_max by (auto simp: i128_range)
  have treasury: "?f > 0 \<Longrightarrow> get_treasury s \<noteq> None" by (simp add: fee_of_def split: if_splits)
  have lifetime: "safe_add (lifetime_charged sub) c = Err Overflow \<or> safe_add (lifetime_charged sub) c = Ok (lifetime_charged sub + c)"
    using ok c(1) range(4) I128_MAX_pos
    by (auto simp: safe_add_def checked_defs checked_i128_def i128_range sub_ok_def)
  obtain y where y: "settled_status ?sub = Ok y"
    using settled_status_total [of ?sub] st by auto
  obtain st' where y_def: "y = ?sub\<lparr>status := st'\<rparr>" by (rule settled_status_Ok [OF y])
  obtain r1 s1 where 1: "credit_merchant_balance_for_token (merchant sub) (token sub) (c - ?f) Interval s = (r1, s1)"
    by fastforce
  obtain r2 s2 where 2: "credit_treasury i (token sub) (c - ?f) ?f now (get_treasury s) s1 = (r2, s2)"
    by fastforce
  note step = settle_interval_def split_fee_exact [OF c(1) c_max bps] Let_def prod.case 1
  consider "r1 = Err Overflow" | "r1 = Ok ()" using credit_error [OF 1 range(3,1) books] by (auto simp: is_ok_iff)
  then show ?thesis
  proof cases
    case 1
    then show ?thesis unfolding step by (simp add: ends_def)
  next
    case r1: 2
    note o1 = owed_credit [OF books 1 [unfolded r1]]
    show ?thesis
    proof (cases "r2 = Err Overflow \<or> safe_add (lifetime_charged sub) c = Err Overflow")
      case True
      have "r2 = Err Overflow \<or> r2 = Ok ()" using credit_treasury_outcome [OF 2 f(1) range(2) o1(2) treasury] by blast
      with True show ?thesis unfolding step r1 by (auto simp: ends_def 2)
    next
      case False
      then have r2: "r2 = Ok ()" and books2: "finite_books s2"
        and o2: "owed s2 tok = owed s1 tok + (if token sub = tok then ?f else 0)" for tok
        using credit_treasury_outcome [OF 2 f(1) range(2) o1(2) treasury] by blast+
      have stored: "subs s2 i = Some sub"
        using sub credit_sbs [OF 1] treasury_sbs [OF 2] by simp
      have o3: "owed (put_sub i y s2) tok = owed s tok" and books3: "finite_books (put_sub i y s2)" for tok
        using owed_sub_change [OF books2 stored, of y "put_sub i y s2"] o2 [of tok] o1(1) [of tok]
        by (auto simp: y_def)
      then have "owed (put_sub i y s2) = owed s" by (intro ext)
      with record_charge_settled [OF books3]
      have "ends (settled s) (record_charge env i y now key c p a b n k (put_sub i y s2))" for k
        by (simp add: ends_def settled_def)
      with False lifetime show ?thesis unfolding step r1 by (auto simp: 2 r2 y)
    qed
  qed
qed

lemma charge_period_settled:
  assumes books: "finite_books s" and fee: "fee_safe s" and sub: "subs s i = Some sub" and ok: "sub_ok sub"
    and st: "status sub = Active \<or> status sub = GracePeriod"
  shows "ends (settled s) (charge_period env i sub now key c s)"
proof -
  have settle: "ends (settled s) (case safe_sub_balance (prepaid_balance sub) c of
        Ok new_balance \<Rightarrow> settle_interval env i sub now key c new_balance p a b n s
      | _ \<Rightarrow> charge_shortfall i sub now c s)" for p a b n
  proof (cases "safe_sub_balance (prepaid_balance sub) c")
    case (Ok nb)
    then have "0 \<le> c" "c \<le> prepaid_balance sub" "nb = prepaid_balance sub - c" by (simp_all add: ok_iff)
    with Ok settle_interval_settled [OF assms] show ?thesis by simp
  qed (use books sub in \<open>simp_all add: charge_shortfall_settled\<close>)
  have stay: "settled s r s" for r :: "charge_execution_result res"
    using books by (rule settled_same) simp_all
  show ?thesis
    unfolding charge_period_def Let_def
    by (intro ends_if settled_try_res settled_try_op cancel_at_cap_settled settle ends_pair stay books sub)
      (auto intro: settled_same)
qed

text \<open>Whatever the outcome of an interval charge, short of an overflowing counter, nothing is lost.\<close>

lemma charge_one_settled:
  assumes books: "finite_books s" and fee: "fee_safe s" and ok: "\<And>x. subs s i = Some x \<Longrightarrow> sub_ok x"
  shows "ends (settled s) (charge_one env i now key s)"
proof -
  have period: "ends (settled s2) (charge_period env i sub now key c s2)"
    if "resolve_charge_amount env i sub s = (Ok c, s2)" and sub: "subs s i = Some sub"
      and "\<not> (status sub \<noteq> Active \<and> status sub \<noteq> GracePeriod)" for sub c s2
  proof -
    note same = resolve_sbs [OF that(1)]
    then have "finite_books s2" "fee_safe s2"
      using books fee finite_books_cong [of s2 s] by (simp_all add: fee_safe_def get_protocol_fee_bps_def)
    with same that ok [OF sub] show ?thesis by (intro charge_period_settled) auto
  qed
  have stay: "settled t r t" if "finite_books t" for t and r :: "charge_execution_result res"
    using that by (rule settled_same) simp_all
  show ?thesis
    unfolding charge_one_def
    by (intro ends_if settled_try_res settled_try_op expiration_guard_settled resolve_settled cancel_at_cap_settled
        period ends_pair stay books)
      (auto simp: ok_iff dest: resolve_sbs intro: settled_same)
qed

section \<open>Usage charges\<close>

lemma usage_status_total:
  "status x = Active \<Longrightarrow> \<exists>y. usage_status x = Ok y"
  by (auto simp: usage_status_def ok_iff validate_cases)

lemma settle_usage_settled:
  assumes books: "finite_books s" and sub: "subs s i = Some sub" and st: "status sub = Active"
    and u: "0 \<le> u" "u \<le> prepaid_balance sub" "in_i128 u"
  shows "ends (settled s) (settle_usage env i sub u reference (prepaid_balance sub - u) pending s)"
proof -
  let ?sub = "sub\<lparr>prepaid_balance := prepaid_balance sub - u, lifetime_charged := pending\<rparr>"
  obtain y where y: "usage_status ?sub = Ok y"
    using usage_status_total [of ?sub] st by auto
  obtain st' where y_def: "y = ?sub\<lparr>status := st'\<rparr>" by (rule usage_status_Ok [OF y])
  obtain r1 s1 where 1: "credit_merchant_balance_for_token (merchant sub) (token sub) u Usage s = (r1, s1)"
    by fastforce
  consider "r1 = Err Overflow" | "r1 = Ok ()" using credit_error [OF 1 u(1,3) books] by (auto simp: is_ok_iff)
  then show ?thesis
  proof cases
    case 1
    then show ?thesis by (simp add: settle_usage_def \<open>credit_merchant_balance_for_token _ _ _ _ _ = _\<close> Let_def ends_def)
  next
    case r1: 2
    let ?t = "(put_sub i y s1)\<lparr>sbs := (sbs (put_sub i y s1))\<lparr>usage_ref_key :=
        (usage_ref_key (sbs (put_sub i y s1)))((i, reference) \<mapsto> True)\<rparr>\<rparr>"
    note o1 = owed_credit [OF books 1 [unfolded r1]]
    have stored: "subs s1 i = Some sub" using sub credit_sbs [OF 1] by simp
    have o2: "owed ?t tok = owed s tok" and books2: "finite_books ?t" for tok
      using owed_sub_change [OF o1(2) stored, of y ?t] o1(1) [of tok] by (auto simp: y_def)
    then have o2: "owed ?t = owed s" by (intro ext)
    have "ends (settled ?t) (try_op (append_statement env i u (merchant y) Usage now now ?t)
        (\<lambda>_ s4. (Ok UsageCharged, if k then cap_event i y now (publish tp ev s4) else publish tp ev s4)))" for now k tp ev
    proof (intro settled_try_op)
      show "ends (settled ?t) (append_statement env i u (merchant y) Usage now now ?t)"
        using books2 by (intro endsI, elim settled_same) (auto dest: append_sbs)
    qed (auto intro!: ends_intro settled_same)
    with o2 have "ends (settled s) (try_op (append_statement env i u (merchant y) Usage now now ?t)
        (\<lambda>_ s4. (Ok UsageCharged, if k then cap_event i y now (publish tp ev s4) else publish tp ev s4)))" for now k tp ev
      by (simp add: ends_def settled_def)
    then show ?thesis by (simp add: settle_usage_def 1 r1 Let_def y)
  qed
qed

lemma charge_usage_one_settled:
  assumes books: "finite_books s" and fee: "fee_safe s"
  shows "ends (settled s) (charge_usage_one env i u reference s)"
proof -
  have settle: "ends (settled s2) (case safe_sub_balance (prepaid_balance sub) u of
        Ok new_balance \<Rightarrow> settle_usage env i sub u reference new_balance pending s2
      | _ \<Rightarrow> usage_shortfall i sub u now s2)"
    if "subs s i = Some sub" "\<not> status sub \<noteq> Active" "\<not> u \<le> 0" "\<not> prepaid_balance sub < u"
      and "finite_books s2" "subs s2 = subs s" for sub s2 pending now
  proof (cases "safe_sub_balance (prepaid_balance sub) u")
    case (Ok nb)
    then have nb: "nb = prepaid_balance sub - u" by (simp add: ok_iff)
    have "prepaid_balance sub * 10000 \<le> I128_MAX" using fee that(1) by (auto simp: fee_safe_def)
    then have "in_i128 u" using that(3,4) by (auto simp: i128_range)
    with that show ?thesis
      unfolding Ok result.case nb by (intro settle_usage_settled) auto
  qed (use that in \<open>simp_all add: usage_shortfall_settled\<close>)
  have stay: "settled t r t" if "finite_books t" for t and r :: "usage_charge_result res"
    using that by (rule settled_same) simp_all
  have limit: "ends (settled t) (usage_limit_step i sub now u t)" if "finite_books t" for sub now t
    using that by (intro endsI, elim settled_same) (auto dest: usage_limit_step_same)
  have reject: "ends (settled t) (reject_usage i sub u now reference r t)" if "finite_books t" for sub now r t
    unfolding reject_usage_def using that by (intro ends_pair settled_same) simp_all
  show ?thesis
    unfolding charge_usage_one_def usage_within_limits_def Let_def
    by (intro ends_if settled_try_res settled_try_op expiration_guard_settled cancel_at_cap_settled limit reject
        ends_case_option settle ends_pair stay books)
      (auto simp: ok_iff dest: usage_limit_step_same)
qed

section \<open>The effect of an interval charge\<close>

text \<open>A charge that reached the end wrote exactly this.\<close>

lemma record_charge_Ok:
  assumes "record_charge env i sub now key c p a b n k s = (Ok r, t)"
  obtains s1 s2 where "append_statement env i c (merchant sub) Interval (n - interval_seconds sub) now s = (Ok (), s1)"
    and "write_period_snapshot
               \<lparr>ps_subscription_id = i, ps_period_index = p,
                ps_period_start = n - interval_seconds sub, ps_period_end = now,
                total_charged = c, ps_total_usage_units = 0,
                ps_status_flags = SNAPSHOT_FLAG_CLOSED OR SNAPSHOT_FLAG_INTERVAL_CHARGED,
                ps_finalized_at = now\<rparr> s1 = (Ok (), s2)"
    and "r = Charged" and "subs t = subs s" and "charged_period_key (sbs t) = (charged_period_key (sbs s))(i \<mapsto> p)"
    and "key \<noteq> None \<Longrightarrow> idem_key (sbs t) i = key"
    and "mer t = mer s" and "stm t = stm s1" and "snp t = snp s2"
proof -
  let ?tail = "\<lambda>s2. publish ''charged'' (LifecycleEv (SubscriptionChargedEvent i (subscriber sub) (merchant sub)
                (token sub) c (lifetime_charged sub) now a b)) (mark_charged i p key s2)"
  from assms obtain s1 s2 where 1: "append_statement env i c (merchant sub) Interval (n - interval_seconds sub) now s = (Ok (), s1)"
    and 2: "write_period_snapshot
               \<lparr>ps_subscription_id = i, ps_period_index = p,
                ps_period_start = n - interval_seconds sub, ps_period_end = now,
                total_charged = c, ps_total_usage_units = 0,
                ps_status_flags = SNAPSHOT_FLAG_CLOSED OR SNAPSHOT_FLAG_INTERVAL_CHARGED,
                ps_finalized_at = now\<rparr> s1 = (Ok (), s2)"
    and t: "r = Charged" "t = (if k then cap_event i sub now (?tail s2) else ?tail s2)"
    unfolding record_charge_def Let_def by (auto simp: ok_iff)
  have "key \<noteq> None \<Longrightarrow> idem_key (sbs t) i = key"
    unfolding t by (auto simp: mark_charged_def Let_def)
  then show thesis
    using that [OF 1 2] t append_sbs [OF 1] write_snapshot_sbs [OF 2] by simp
qed

text \<open>What the checks before a charge establish, and what the charge then does.\<close>

definition period_of :: "subscription \<Rightarrow> u64 \<Rightarrow> u64" where
  "period_of sub now = (now - start_time sub) div interval_seconds sub"

lemma settle_interval_Ok:
  assumes "settle_interval env i sub now key c nb p a b n s = (Ok r, t)" and "subs s i = Some sub"
  obtains s1 s2 s3 s4 y where
    "credit_merchant_balance_for_token (merchant sub) (token sub) (fst (split_fee s c)) Interval s = (Ok (), s1)"
    and "credit_treasury i (token sub) (fst (split_fee s c)) (snd (split_fee s c)) now (get_treasury s) s1 = (Ok (), s2)"
    and "settled_status (sub\<lparr>prepaid_balance := nb, last_payment_timestamp := a, lifetime_charged := lifetime_charged sub + c\<rparr>) = Ok y"
    and "append_statement env i c (merchant sub) Interval (n - interval_seconds sub) now (put_sub i y s2) = (Ok (), s3)"
    and "write_period_snapshot
               \<lparr>ps_subscription_id = i, ps_period_index = p,
                ps_period_start = n - interval_seconds sub, ps_period_end = now,
                total_charged = c, ps_total_usage_units = 0,
                ps_status_flags = SNAPSHOT_FLAG_CLOSED OR SNAPSHOT_FLAG_INTERVAL_CHARGED,
                ps_finalized_at = now\<rparr> s3 = (Ok (), s4)"
    and "r = Charged" and "subs t = (subs s)(i \<mapsto> y)" and "mer t = mer s2"
    and "charged_period_key (sbs t) = (charged_period_key (sbs s))(i \<mapsto> p)"
    and "key \<noteq> None \<Longrightarrow> idem_key (sbs t) i = key" and "stm t = stm s3" and "snp t = snp s4"
proof -
  from assms(1) obtain s1 s2 y where
    1: "credit_merchant_balance_for_token (merchant sub) (token sub) (fst (split_fee s c)) Interval s = (Ok (), s1)"
    and 2: "credit_treasury i (token sub) (fst (split_fee s c)) (snd (split_fee s c)) now (get_treasury s) s1 = (Ok (), s2)"
    and 3: "settled_status (sub\<lparr>prepaid_balance := nb, last_payment_timestamp := a, lifetime_charged := lifetime_charged sub + c\<rparr>) = Ok y"
    and 4: "record_charge env i y now key c p a b n (cap_exhausted y) (put_sub i y s2) = (Ok r, t)"
    by (auto simp: settle_interval_def Let_def ok_iff split_beta)
  obtain st where y: "y = sub\<lparr>prepaid_balance := nb, last_payment_timestamp := a,
      lifetime_charged := lifetime_charged sub + c, status := st\<rparr>"
    by (rule settled_status_Ok [OF 3]) simp
  then have "merchant y = merchant sub" "interval_seconds y = interval_seconds sub" by simp_all
  then show thesis
    using record_charge_Ok [OF 4] that [OF 1 2 3] credit_sbs [OF 1] treasury_sbs [OF 2] by simp metis
qed

lemma over_cap_cases:
  "(case lifetime_cap sub of
       Some cap \<Rightarrow> bind_res (if lifetime_charged sub \<ge> cap then Ok 0 else safe_sub cap (lifetime_charged sub))
         (\<lambda>remaining. Ok (remaining = 0 \<or> c > remaining))
     | None \<Rightarrow> Ok False) = Ok over \<Longrightarrow> \<not> over \<Longrightarrow>
   \<forall>cap. lifetime_cap sub = Some cap \<longrightarrow> c \<le> cap - lifetime_charged sub"
  by (auto simp: ok_iff split: option.splits if_splits)

text \<open>The checks of the billing period, and what is left to do once they are passed.\<close>

lemma charge_period_checks:
  assumes "charge_period env i sub now key c s = (Ok r, t)" and "\<not> (key \<noteq> None \<and> idem_key (sbs s) i = key)"
  obtains over where "interval_seconds sub \<noteq> 0"
    and "\<forall>q. charged_period_key (sbs s) i = Some q \<longrightarrow> q < period_of sub now"
    and "last_payment_timestamp sub + interval_seconds sub \<le> now"
    and "(case lifetime_cap sub of
       Some cap \<Rightarrow> bind_res (if lifetime_charged sub \<ge> cap then Ok 0 else safe_sub cap (lifetime_charged sub))
         (\<lambda>remaining. Ok (remaining = 0 \<or> c > remaining))
     | None \<Rightarrow> Ok False) = Ok over"
    and "(if over then try_op (cancel_at_cap i sub now s) (\<lambda>_ s1. (Ok ChargeLifetimeCapReached, s1))
        else case safe_sub_balance (prepaid_balance sub) c of
          Ok nb \<Rightarrow> settle_interval env i sub now key c nb (period_of sub now)
           (start_time sub + period_of sub now * interval_seconds sub)
           (start_time sub + period_of sub now * interval_seconds sub + interval_seconds sub)
           (last_payment_timestamp sub + interval_seconds sub) s
        | _ \<Rightarrow> charge_shortfall i sub now c s) = (Ok r, t)"
proof -
  from assms obtain over where pre: "interval_seconds sub \<noteq> 0"
      "\<not> (case charged_period_key (sbs s) i of Some stored \<Rightarrow> period_of sub now \<le> stored | None \<Rightarrow> False)"
      "last_payment_timestamp sub + interval_seconds sub \<le> now"
    and over: "(case lifetime_cap sub of
       Some cap \<Rightarrow> bind_res (if lifetime_charged sub \<ge> cap then Ok 0 else safe_sub cap (lifetime_charged sub))
         (\<lambda>remaining. Ok (remaining = 0 \<or> c > remaining))
     | None \<Rightarrow> Ok False) = Ok over"
    and rest: "(if over then try_op (cancel_at_cap i sub now s) (\<lambda>_ s1. (Ok ChargeLifetimeCapReached, s1))
        else case safe_sub_balance (prepaid_balance sub) c of
          Ok nb \<Rightarrow> settle_interval env i sub now key c nb (period_of sub now)
           (start_time sub + period_of sub now * interval_seconds sub)
           (start_time sub + period_of sub now * interval_seconds sub + interval_seconds sub)
           (last_payment_timestamp sub + interval_seconds sub) s
        | _ \<Rightarrow> charge_shortfall i sub now c s) = (Ok r, t)"
    unfolding charge_period_def Let_def period_of_def next_charge_time_def
    by (auto simp: try_res_Ok if_err_Ok if_trap_Ok ok_or_Ok checked_Some)
  have "\<forall>q. charged_period_key (sbs s) i = Some q \<longrightarrow> q < period_of sub now"
    using pre(2) by (auto split: option.splits)
  with that [OF pre(1) _ pre(3) over rest] show thesis by blast
qed

lemma charge_period_Charged:
  assumes "charge_period env i sub now key c s = (Ok Charged, t)"
    and "\<not> (key \<noteq> None \<and> idem_key (sbs s) i = key)"
  shows "interval_seconds sub \<noteq> 0"
    and "\<forall>q. charged_period_key (sbs s) i = Some q \<longrightarrow> q < period_of sub now"
    and "last_payment_timestamp sub + interval_seconds sub \<le> now"
    and "\<forall>cap. lifetime_cap sub = Some cap \<longrightarrow> c \<le> cap - lifetime_charged sub"
    and "0 \<le> c" and "c \<le> prepaid_balance sub"
    and "settle_interval env i sub now key c (prepaid_balance sub - c) (period_of sub now)
           (start_time sub + period_of sub now * interval_seconds sub)
           (start_time sub + period_of sub now * interval_seconds sub + interval_seconds sub)
           (last_payment_timestamp sub + interval_seconds sub) s = (Ok Charged, t)"
proof -
  have shortfall: "charge_shortfall i sub now c s \<noteq> (Ok Charged, t)"
    by (auto simp: charge_shortfall_def Let_def ok_iff)
  from assms obtain over where pre: "interval_seconds sub \<noteq> 0"
      "\<forall>q. charged_period_key (sbs s) i = Some q \<longrightarrow> q < period_of sub now"
      "last_payment_timestamp sub + interval_seconds sub \<le> now"
    and over: "(case lifetime_cap sub of
       Some cap \<Rightarrow> bind_res (if lifetime_charged sub \<ge> cap then Ok 0 else safe_sub cap (lifetime_charged sub))
         (\<lambda>remaining. Ok (remaining = 0 \<or> c > remaining))
     | None \<Rightarrow> Ok False) = Ok over"
    and rest: "(if over then try_op (cancel_at_cap i sub now s) (\<lambda>_ s1. (Ok ChargeLifetimeCapReached, s1))
        else case safe_sub_balance (prepaid_balance sub) c of
          Ok nb \<Rightarrow> settle_interval env i sub now key c nb (period_of sub now)
           (start_time sub + period_of sub now * interval_seconds sub)
           (start_time sub + period_of sub now * interval_seconds sub + interval_seconds sub)
           (last_payment_timestamp sub + interval_seconds sub) s
        | _ \<Rightarrow> charge_shortfall i sub now c s) = (Ok Charged, t)"
    by (rule charge_period_checks)
  have "\<not> over"
  proof
    assume over
    with rest show False by (auto simp: ok_iff)
  qed
  with rest shortfall obtain nb where nb: "safe_sub_balance (prepaid_balance sub) c = Ok nb"
    by (cases "safe_sub_balance (prepaid_balance sub) c") auto
  then have c: "0 \<le> c" "c \<le> prepaid_balance sub" "nb = prepaid_balance sub - c" by (simp_all add: ok_iff)
  show "interval_seconds sub \<noteq> 0" "last_payment_timestamp sub + interval_seconds sub \<le> now" by (fact pre)+
  show "\<forall>q. charged_period_key (sbs s) i = Some q \<longrightarrow> q < period_of sub now" by (fact pre)
  show "\<forall>cap. lifetime_cap sub = Some cap \<longrightarrow> c \<le> cap - lifetime_charged sub"
    using over \<open>\<not> over\<close> by (rule over_cap_cases)
  show "0 \<le> c" "c \<le> prepaid_balance sub" by (fact c)+
  show "settle_interval env i sub now key c (prepaid_balance sub - c) (period_of sub now)
           (start_time sub + period_of sub now * interval_seconds sub)
           (start_time sub + period_of sub now * interval_seconds sub + interval_seconds sub)
           (last_payment_timestamp sub + interval_seconds sub) s = (Ok Charged, t)"
    using rest \<open>\<not> over\<close> nb c(3) by simp
qed

lemma charge_one_Charged:
  assumes "charge_one env i now key s = (Ok Charged, t)" and "subs s i = Some sub"
    and "\<not> (key \<noteq> None \<and> idem_key (sbs s) i = key)"
  obtains c s1 where "resolve_charge_amount env i sub s = (Ok c, s1)"
    and "\<not> get_merchant_paused s (merchant sub)" and "\<not> is_expired sub now"
    and "status sub = Active \<or> status sub = GracePeriod"
    and "charge_period env i sub now key c s1 = (Ok Charged, t)"
    and "\<not> (key \<noteq> None \<and> idem_key (sbs s1) i = key)"
proof -
  from assms obtain c s1 where pre: "resolve_charge_amount env i sub s = (Ok c, s1)"
      "\<not> get_merchant_paused s (merchant sub)" "\<not> is_expired sub now"
      "status sub = Active \<or> status sub = GracePeriod" "charge_period env i sub now key c s1 = (Ok Charged, t)"
    by (auto simp: charge_one_def ok_iff split: if_splits)
  with assms(3) resolve_sbs [OF pre(1)] show thesis using that by simp
qed

lemma settled_status_eq:
  assumes "status x = Active \<or> status x = GracePeriod"
  shows "settled_status x = Ok (x\<lparr>status := (if cap_exhausted x then Cancelled else Active)\<rparr>)"
  using assms
  by (auto simp: settled_status_def Let_def validate_cases)

lemma credit_balance:
  assumes "credit_merchant_balance_for_token m tk amt k s = (Ok u, t)"
  shows "get_merchant_balance_by_token t m' tok = get_merchant_balance_by_token s m' tok
    + (if m' = m \<and> tok = tk then amt else 0)"
  using credit_Ok(3) [OF assms] by (auto simp: get_merchant_balance_by_token_def)

lemma credit_treasury_balance:
  assumes "credit_treasury i tk m f now (get_treasury s0) s = (Ok u, t)" and "0 \<le> f"
  shows "get_merchant_balance_by_token t m' tok = get_merchant_balance_by_token s m' tok
    + (if get_treasury s0 = Some m' \<and> tok = tk then f else 0)"
proof (cases "f > 0")
  case False
  with assms show ?thesis by (auto simp: credit_treasury_def)
next
  case True
  show ?thesis
  proof (cases "get_treasury s0")
    case None
    with assms True show ?thesis by (auto simp: credit_treasury_def)
  next
    case (Some tr)
    with assms True obtain s1 where c: "credit_merchant_balance_for_token tr tk f Interval s = (Ok (), s1)"
      and t: "mer t = mer s1"
      by (auto simp: credit_treasury_def ok_iff)
    from t have "get_merchant_balance_by_token t m' tok = get_merchant_balance_by_token s1 m' tok"
      by (simp add: get_merchant_balance_by_token_def)
    with credit_balance [OF c, of m' tok] Some show ?thesis by simp
  qed
qed

text \<open>The amount a charge resolves to is split exactly.\<close>

lemma charged_fees:
  assumes "fee_safe s" and "subs s i = Some x" and "resolve_charge_amount env i x s = (Ok c, s1)"
    and "0 \<le> c" and "c \<le> prepaid_balance x"
  shows "split_fee s1 c = (c - fee_of s c, fee_of s c)" and "get_treasury s1 = get_treasury s"
    and "get_protocol_fee_bps s \<le> 10000"
proof -
  show treasury: "get_treasury s1 = get_treasury s" and bps: "get_protocol_fee_bps s \<le> 10000"
    using resolve_sbs [OF assms(3)] assms(1) by (simp_all add: get_treasury_def fee_safe_def)
  have "c * 10000 \<le> I128_MAX" using assms(1,2,5) by (fastforce simp: fee_safe_def)
  from split_fee_exact [OF assms(4) this bps] treasury resolve_sbs [OF assms(3)]
  show "split_fee s1 c = (c - fee_of s c, fee_of s c)"
    by (simp add: split_fee_def get_protocol_fee_bps_def cong: if_cong)
qed

text \<open>The stores a taken charge writes, each exactly.\<close>

definition charged_keys :: "u32 \<Rightarrow> u64 \<Rightarrow> bytes32 option \<Rightarrow> sub_store \<Rightarrow> sub_store" where
  "charged_keys i p key b = b\<lparr>charged_period_key := (charged_period_key b)(i \<mapsto> p),
     idem_key := (case key of None \<Rightarrow> idem_key b | Some k \<Rightarrow> (idem_key b)(i \<mapsto> k))\<rparr>"

definition interval_snapshot :: "u32 \<Rightarrow> u64 \<Rightarrow> u64 \<Rightarrow> u64 \<Rightarrow> i128 \<Rightarrow> billing_period_snapshot" where
  "interval_snapshot i p from now c =
     \<lparr>ps_subscription_id = i, ps_period_index = p, ps_period_start = from, ps_period_end = now,
      total_charged = c, ps_total_usage_units = 0,
      ps_status_flags = SNAPSHOT_FLAG_CLOSED OR SNAPSHOT_FLAG_INTERVAL_CHARGED, ps_finalized_at = now\<rparr>"

lemma append_stm_cong: "stm s = stm s' \<Longrightarrow> stm (snd (append_statement env i u m k a b s)) = stm (snd (append_statement env i u m k a b s'))"
  by (simp add: append_statement_def get_total_statements_def Let_def ok_or_def split: option.splits)

lemma write_snp_cong: "snp s = snp s' \<Longrightarrow> snp (snd (write_period_snapshot x s)) = snp (snd (write_period_snapshot x s'))"
  by (simp add: write_period_snapshot_def period_indices_def Let_def split: option.splits)

lemma record_charge_stores:
  assumes "record_charge env i sub now key c p a b n k s = (Ok r, t)"
  shows "sbs t = charged_keys i p key (sbs s)"
    and "stm t = stm (snd (append_statement env i c (merchant sub) Interval (n - interval_seconds sub) now s))"
    and "snp t = snp (snd (write_period_snapshot (interval_snapshot i p (n - interval_seconds sub) now c) s))"
proof -
  let ?snap = "interval_snapshot i p (n - interval_seconds sub) now c"
  let ?tail = "\<lambda>s2. publish ''charged'' (LifecycleEv (SubscriptionChargedEvent i (subscriber sub) (merchant sub)
                (token sub) c (lifetime_charged sub) now a b)) (mark_charged i p key s2)"
  from assms obtain s1 s2 where 1: "append_statement env i c (merchant sub) Interval (n - interval_seconds sub) now s = (Ok (), s1)"
    and 2: "write_period_snapshot ?snap s1 = (Ok (), s2)"
    and t: "t = (if k then cap_event i sub now (?tail s2) else ?tail s2)"
    unfolding record_charge_def Let_def interval_snapshot_def by (auto simp: ok_iff)
  have mark: "sbs (mark_charged i p key s2) = charged_keys i p key (sbs s2)" "stm (mark_charged i p key s2) = stm s2"
    "snp (mark_charged i p key s2) = snp s2"
    by (simp_all add: mark_charged_def charged_keys_def Let_def split: option.split)
  have "snp s1 = snp s" by (subst append_Ok(5) [OF 1]) simp
  moreover have "stm s2 = stm s1"
    using 2 by (auto simp: write_period_snapshot_def Let_def split: option.splits if_splits)
  ultimately show "sbs t = charged_keys i p key (sbs s)"
    and "stm t = stm (snd (append_statement env i c (merchant sub) Interval (n - interval_seconds sub) now s))"
    and "snp t = snp (snd (write_period_snapshot ?snap s))"
    using append_sbs [OF 1] write_snapshot_sbs [OF 2] 1 2 write_snp_cong [of s1 s ?snap] by (simp_all add: t mark)
qed

lemma treasury_stores:
  assumes "credit_treasury i tok m f now tr s = (Ok u, t)"
  shows "t = s\<lparr>mer := mer t, evlog := evlog t\<rparr>"
    and "merchant_paused_key (mer t) = merchant_paused_key (mer s)" and "merchant_config_key (mer t) = merchant_config_key (mer s)"
  using assms credit_Ok(7,8,9)
  by (auto simp: credit_treasury_def ok_iff split: if_splits option.splits)

lemma settle_interval_stores:
  assumes "settle_interval env i sub now key c nb p a b n s = (Ok r, t)"
  shows "sbs t = charged_keys i p key ((sbs s)\<lparr>sub_key := subs t\<rparr>)"
    and "stm t = stm (snd (append_statement env i c (merchant sub) Interval (n - interval_seconds sub) now s))"
    and "snp t = snp (snd (write_period_snapshot (interval_snapshot i p (n - interval_seconds sub) now c) s))"
    and "merchant_paused_key (mer t) = merchant_paused_key (mer s)" and "merchant_config_key (mer t) = merchant_config_key (mer s)"
proof -
  from assms obtain s1 s2 y where
    1: "credit_merchant_balance_for_token (merchant sub) (token sub) (fst (split_fee s c)) Interval s = (Ok (), s1)"
    and 2: "credit_treasury i (token sub) (fst (split_fee s c)) (snd (split_fee s c)) now (get_treasury s) s1 = (Ok (), s2)"
    and 3: "settled_status (sub\<lparr>prepaid_balance := nb, last_payment_timestamp := a, lifetime_charged := lifetime_charged sub + c\<rparr>) = Ok y"
    and 4: "record_charge env i y now key c p a b n (cap_exhausted y) (put_sub i y s2) = (Ok r, t)"
    by (auto simp: settle_interval_def Let_def ok_iff split_beta)
  obtain st where y: "y = sub\<lparr>prepaid_balance := nb, last_payment_timestamp := a,
      lifetime_charged := lifetime_charged sub + c, status := st\<rparr>"
    by (rule settled_status_Ok [OF 3]) simp
  have "sbs s1 = sbs s" "stm s1 = stm s" "snp s1 = snp s"
    using credit_Ok(9) [OF 1] by (metis vault.select_convs(3,5,6) vault.surjective vault.update_convs(2))+
  moreover have "sbs s2 = sbs s1" "stm s2 = stm s1" "snp s2 = snp s1"
    by (subst treasury_stores(1) [OF 2], simp)+
  ultimately have same: "sbs s2 = sbs s" "stm s2 = stm s" "snp s2 = snp s" by simp_all
  note rec = record_charge_stores [OF 4]
  from rec(1) have "subs t = subs (put_sub i y s2)" by (simp add: charged_keys_def)
  with rec(1) same show "sbs t = charged_keys i p key ((sbs s)\<lparr>sub_key := subs t\<rparr>)" by simp
  show "stm t = stm (snd (append_statement env i c (merchant sub) Interval (n - interval_seconds sub) now s))"
    using rec(2) append_stm_cong [of "put_sub i y s2" s] same by (simp add: y)
  show "snp t = snp (snd (write_period_snapshot (interval_snapshot i p (n - interval_seconds sub) now c) s))"
    using rec(3) write_snp_cong [of "put_sub i y s2" s] same by (simp add: y)
  have "mer t = mer s2" by (rule record_charge_Ok [OF 4]) simp
  with treasury_stores(2,3) [OF 2] credit_Ok(7,8) [OF 1]
  show "merchant_paused_key (mer t) = merchant_paused_key (mer s)" "merchant_config_key (mer t) = merchant_config_key (mer s)"
    by simp_all
qed

lemma frame_equation:
  "charge_frame s t \<Longrightarrow> t = s\<lparr>mer := mer t, sbs := sbs t, stm := stm t, snp := snp t, evlog := evlog t\<rparr>"
  by (rule vault.equality) (simp_all add: charge_frame_def)

lemma charge_one_stores:
  assumes "charge_one env i now key s = (Ok Charged, t)" and "subs s i = Some x"
    and "\<not> (key \<noteq> None \<and> idem_key (sbs s) i = key)" and "fst (resolve_charge_amount env i x s) = Ok c"
  shows "t = s\<lparr>mer := mer t, sbs := charged_keys i (period_of x now) key ((sbs s)\<lparr>sub_key := subs t\<rparr>),
        stm := stm (snd (append_statement env i c (merchant x) Interval (last_payment_timestamp x) now s)),
        snp := snp (snd (write_period_snapshot (interval_snapshot i (period_of x now) (last_payment_timestamp x) now c) s)),
        evlog := evlog t\<rparr>"
    and "merchant_paused_key (mer t) = merchant_paused_key (mer s)" and "merchant_config_key (mer t) = merchant_config_key (mer s)"
proof -
  obtain s1 where r: "resolve_charge_amount env i x s = (Ok c, s1)"
    and p: "charge_period env i x now key c s1 = (Ok Charged, t)" "\<not> (key \<noteq> None \<and> idem_key (sbs s1) i = key)"
    by (rule charge_one_Charged [OF assms(1-3)]) (use assms(4) in auto)
  note same = resolve_sbs [OF r]
  note stores = settle_interval_stores [OF charge_period_Charged(7) [OF p]]
  have "s1 = s\<lparr>evlog := evlog s1\<rparr>" using endsD [OF resolve_frame r] by simp
  then have "stm s1 = stm s" "snp s1 = snp s" by (metis vault.select_convs(5,6) vault.surjective vault.update_convs(12))+
  moreover have "charge_frame s t" by (rule charge_steps.keeps_result [OF charge_one_keeps assms(1)])
  note frame_equation [OF this]
  ultimately show "t = s\<lparr>mer := mer t, sbs := charged_keys i (period_of x now) key ((sbs s)\<lparr>sub_key := subs t\<rparr>),
        stm := stm (snd (append_statement env i c (merchant x) Interval (last_payment_timestamp x) now s)),
        snp := snp (snd (write_period_snapshot (interval_snapshot i (period_of x now) (last_payment_timestamp x) now c) s)),
        evlog := evlog t\<rparr>"
    using stores(1-3) same append_stm_cong [of s1 s] write_snp_cong [of s1 s] by simp
  show "merchant_paused_key (mer t) = merchant_paused_key (mer s)" "merchant_config_key (mer t) = merchant_config_key (mer s)"
    using stores(4,5) same by simp_all
qed


section \<open>A concrete charge\<close>

lemma demo_subs_books: "finite_books demo_subs" "fee_safe demo_subs" "sub_ok demo_sub"
  by (auto simp: finite_books_def fee_safe_def sub_ok_def demo_sub_def vault_init_def get_protocol_fee_bps_def
      demo_vault_adm I128_MAX_def split: if_splits)

lemmas charge_evaluation =
  charge_one_def get_subscription_def get_merchant_paused_def get_merchant_config_def demo_sub_def
  vault_init_def is_expired_def expiration_guard_def resolve_charge_amount_def get_oracle_config_def
  demo_vault_adm cap_exhausted_def charge_period_def next_charge_time_def checked_defs U64_MAX_def
  checked_i128_def in_i128_def I128_MIN_def I128_MAX_def safe_sub_def safe_sub_balance_def
  validate_non_negative_def settle_interval_def split_fee_def get_protocol_fee_bps_def
  credit_merchant_balance_for_token_def get_merchant_balance_by_token_def safe_add_def merchant_writes
  get_merchant_token_earnings_def credit_treasury_def settled_status_def
  validate_status_transition_def record_charge_def append_statement_def get_total_statements_def
  write_period_snapshot_def U32_MAX_def

lemma demo_charge: "fst (charge_one demo_env 0 1000 None demo_subs) = Ok Charged"
  by (simp add: charge_evaluation Let_def)


end
