(* ===== verification/Usage_Books.thy ===== *)
theory Usage_Books
  imports Charge_Books
begin

text \<open>
  The exact effect of a metered charge, its limits and its replay protection.
\<close>

section \<open>Limits\<close>

text \<open>
  What the three limits promise, read off the state of the last accepted usage: the calls counted so
  far in the window that \<open>now\<close> falls into, and the units used so far in its billing period.
\<close>

definition window_over :: "usage_limits \<Rightarrow> u64 \<Rightarrow> usage_state \<Rightarrow> bool" where
  "window_over limits now st \<longleftrightarrow> saturating_add_u64 (window_start_timestamp st) (rate_window_secs limits) \<le> now"

definition calls_so_far :: "usage_limits \<Rightarrow> u64 \<Rightarrow> usage_state \<Rightarrow> u32" where
  "calls_so_far limits now st = (if window_over limits now st then 0 else window_call_count st)"

definition units_so_far :: "subscription \<Rightarrow> u64 \<Rightarrow> usage_state \<Rightarrow> i128" where
  "units_so_far sub now st = (if period_of sub now > usage_state.period_index st then 0 else current_period_usage_units st)"

definition burst_ok :: "usage_limits \<Rightarrow> u64 \<Rightarrow> usage_state \<Rightarrow> bool" where
  "burst_ok limits now st \<longleftrightarrow> burst_min_interval_secs limits \<le> now - last_usage_timestamp st"

definition rate_ok :: "usage_limits \<Rightarrow> u64 \<Rightarrow> usage_state \<Rightarrow> bool" where
  "rate_ok limits now st \<longleftrightarrow> (\<forall>m. rate_limit_max_calls limits = Some m \<longrightarrow> calls_so_far limits now st < m)"

definition units_ok :: "usage_limits \<Rightarrow> subscription \<Rightarrow> u64 \<Rightarrow> i128 \<Rightarrow> usage_state \<Rightarrow> bool" where
  "units_ok limits sub now u st \<longleftrightarrow>
     (\<forall>cap. usage_cap_units limits = Some cap \<longrightarrow> saturating_add (units_so_far sub now st) u \<le> cap)"

definition counted :: "usage_limits \<Rightarrow> subscription \<Rightarrow> u64 \<Rightarrow> i128 \<Rightarrow> usage_state \<Rightarrow> usage_state \<Rightarrow> bool" where
  "counted limits sub now u st st' \<longleftrightarrow> last_usage_timestamp st' = now
     \<and> (rate_limit_max_calls limits \<noteq> None \<longrightarrow>
          window_call_count st' = saturating_add_u32 (calls_so_far limits now st) 1 \<and>
          window_start_timestamp st' = (if window_over limits now st then now else window_start_timestamp st))
     \<and> (usage_cap_units limits \<noteq> None \<longrightarrow>
          current_period_usage_units st' = saturating_add (units_so_far sub now st) u \<and>
          usage_state.period_index st' = max (usage_state.period_index st) (period_of sub now))"

definition usage_state_of :: "vault \<Rightarrow> u32 \<Rightarrow> subscription \<Rightarrow> u64 \<Rightarrow> usage_state" where
  "usage_state_of s i sub now = unwrap_or (usage_state_key (sbs s) i) (initial_usage_state sub now)"

abbreviation put_usage_state :: "u32 \<Rightarrow> usage_state \<Rightarrow> vault \<Rightarrow> vault" where
  "put_usage_state i st s \<equiv> s\<lparr>sbs := (sbs s)\<lparr>usage_state_key := (usage_state_key (sbs s))(i \<mapsto> st)\<rparr>\<rparr>"

lemma check_burst_cases: "check_burst limits now st = (if burst_ok limits now st then Inr st else Inl UsageBurstLimitExceeded)"
  by (auto simp: check_burst_def burst_ok_def)

definition roll_window :: "usage_limits \<Rightarrow> u64 \<Rightarrow> usage_state \<Rightarrow> usage_state" where
  "roll_window limits now st =
     (if rate_limit_max_calls limits \<noteq> None \<and> window_over limits now st
      then st\<lparr>window_start_timestamp := now, window_call_count := 0\<rparr> else st)"

definition roll_period :: "usage_limits \<Rightarrow> subscription \<Rightarrow> u64 \<Rightarrow> usage_state \<Rightarrow> usage_state" where
  "roll_period limits sub now st =
     (if usage_cap_units limits \<noteq> None \<and> period_of sub now > usage_state.period_index st
      then st\<lparr>period_index := period_of sub now, current_period_usage_units := 0\<rparr> else st)"

lemma check_rate_cases:
  "check_rate limits now st = (if rate_ok limits now st then Inr (roll_window limits now st) else Inl UsageRateLimitExceeded)"
  by (auto simp: check_rate_def rate_ok_def roll_window_def calls_so_far_def window_over_def Let_def not_less split: option.split)

lemma check_units_cases:
  "check_units limits sub now u st = (if units_ok limits sub now u st then Inr (roll_period limits sub now st) else Inl UsageUsageCapExceeded)"
  by (auto simp: check_units_def units_ok_def roll_period_def units_so_far_def period_of_def Let_def not_less split: option.split)

lemma units_after_window [simp]: "units_ok limits sub now u (roll_window limits now st) = units_ok limits sub now u st"
  by (simp add: units_ok_def units_so_far_def roll_window_def)

lemma counted_rolled: "counted limits sub now u st (count_usage now u (roll_period limits sub now (roll_window limits now st)))"
  by (simp add: counted_def count_usage_def roll_period_def roll_window_def calls_so_far_def units_so_far_def max_def)

lemma limit_step_cases:
  assumes "usage_limits_key (sbs s) i = Some limits" and "interval_seconds sub \<noteq> 0"
    and "st = usage_state_of s i sub now"
  shows "\<exists>st'. counted limits sub now u st st' \<and> usage_limit_step i sub now u s =
    (if \<not> burst_ok limits now st then (Ok (Some UsageBurstLimitExceeded), s)
     else if \<not> rate_ok limits now st then (Ok (Some UsageRateLimitExceeded), s)
     else if \<not> units_ok limits sub now u st then (Ok (Some UsageUsageCapExceeded), s)
     else (Ok None, put_usage_state i st' s))"
  using assms
  by (intro exI [of _ "count_usage now u (roll_period limits sub now (roll_window limits now st))"])
    (simp add: counted_rolled usage_limit_step_def usage_state_of_def apply_limits_def check_burst_cases check_rate_cases
      check_units_cases)

subsection \<open>Sequences of usages\<close>

text \<open>The limits on a sequence of usages of one subscription, each at its time; \<open>None\<close> when one is not accepted.\<close>

fun usage_run :: "u32 \<Rightarrow> subscription \<Rightarrow> (u64 \<times> i128) list \<Rightarrow> vault \<Rightarrow> vault option" where
  "usage_run i sub [] s = Some s"
| "usage_run i sub ((now, u) # us) s =
    (case usage_limit_step i sub now u s of (Ok None, t) \<Rightarrow> usage_run i sub us t | _ \<Rightarrow> None)"

lemma usage_run_Cons:
  assumes "usage_run i sub ((now, u) # us) s = Some t" and "usage_limits_key (sbs s) i = Some limits"
    and "interval_seconds sub \<noteq> 0" and "usage_state_key (sbs s) i = Some st"
  obtains st' where "burst_ok limits now st" and "rate_ok limits now st" and "units_ok limits sub now u st"
    and "counted limits sub now u st st'" and "usage_run i sub us (put_usage_state i st' s) = Some t"
proof -
  have "st = usage_state_of s i sub now" using assms(4) by (simp add: usage_state_of_def)
  from limit_step_cases [OF assms(2,3) this, of u] assms(1) show thesis
    by (auto intro: that split: if_splits)
qed

lemma usage_run_burst:
  assumes "usage_limits_key (sbs s) i = Some limits" and "interval_seconds sub \<noteq> 0"
    and "usage_state_key (sbs s) i = Some st" and "usage_run i sub us s = Some t" and "0 < burst_min_interval_secs limits"
  shows "sorted_wrt (\<lambda>a b. burst_min_interval_secs limits \<le> b - a) (last_usage_timestamp st # map fst us)"
  using assms
proof (induction us arbitrary: s st)
  case (Cons c us)
  obtain now u where c: "c = (now, u)" by fastforce
  from Cons.prems obtain st' where step: "burst_ok limits now st" "counted limits sub now u st st'"
    and run: "usage_run i sub us (put_usage_state i st' s) = Some t"
    unfolding c by (rule_tac usage_run_Cons)
  have "sorted_wrt (\<lambda>a b. burst_min_interval_secs limits \<le> b - a) (now # map fst us)"
    using Cons.IH [of "put_usage_state i st' s" st'] Cons.prems run step(2) by (simp add: counted_def)
  then show ?case using step(1) Cons.prems(5) by (fastforce simp: c burst_ok_def)
qed simp

lemma usage_run_calls:
  assumes "usage_limits_key (sbs s) i = Some limits" and "interval_seconds sub \<noteq> 0"
    and "usage_state_key (sbs s) i = Some st" and "usage_run i sub us s = Some t"
    and "rate_limit_max_calls limits = Some m" and "m \<le> U32_MAX"
    and "\<forall>c \<in> set us. fst c < saturating_add_u64 (window_start_timestamp st) (rate_window_secs limits)"
    and "window_call_count st \<le> m"
  shows "window_call_count st + length us \<le> m"
  using assms
proof (induction us arbitrary: s st)
  case (Cons c us)
  obtain now u where c: "c = (now, u)" by fastforce
  from Cons.prems obtain st' where step: "rate_ok limits now st" "counted limits sub now u st st'"
    and run: "usage_run i sub us (put_usage_state i st' s) = Some t"
    unfolding c by (rule_tac usage_run_Cons)
  have "\<not> window_over limits now st" using Cons.prems(7) by (simp add: c window_over_def)
  with step Cons.prems(5,6) have st': "window_call_count st < m" "window_call_count st' = window_call_count st + 1"
      "window_start_timestamp st' = window_start_timestamp st"
    by (auto simp: rate_ok_def calls_so_far_def counted_def saturating_add_u32_def)
  have "window_call_count st' + length us \<le> m"
    using Cons.IH [of "put_usage_state i st' s" st'] Cons.prems run st' by simp
  then show ?case by (simp add: st'(2))
qed simp

lemma usage_run_units:
  assumes "usage_limits_key (sbs s) i = Some limits" and "interval_seconds sub \<noteq> 0"
    and "usage_state_key (sbs s) i = Some st" and "usage_run i sub us s = Some t"
    and "usage_cap_units limits = Some cap" and "cap < I128_MAX"
    and "\<forall>(now, u) \<in> set us. 0 \<le> u \<and> period_of sub now \<le> usage_state.period_index st"
    and "0 \<le> current_period_usage_units st" and "current_period_usage_units st \<le> cap"
  shows "current_period_usage_units st + sum_list (map snd us) \<le> cap"
  using assms
proof (induction us arbitrary: s st)
  case (Cons c us)
  obtain now u where c: "c = (now, u)" by fastforce
  from Cons.prems obtain st' where step: "units_ok limits sub now u st" "counted limits sub now u st st'"
    and run: "usage_run i sub us (put_usage_state i st' s) = Some t"
    unfolding c by (rule_tac usage_run_Cons)
  have same: "period_of sub now \<le> usage_state.period_index st" and u: "0 \<le> u" using Cons.prems(7) by (simp_all add: c)
  with step Cons.prems(5) have "saturating_add (current_period_usage_units st) u \<le> cap"
    and st': "current_period_usage_units st' = saturating_add (current_period_usage_units st) u"
      "usage_state.period_index st' = usage_state.period_index st"
    by (auto simp: units_ok_def units_so_far_def counted_def max_def)
  moreover from this(1) Cons.prems(6,8) u have "saturating_add (current_period_usage_units st) u = current_period_usage_units st + u"
    by (auto simp: saturating_add_def clamp_i128_def I128_MIN_def split: if_splits)
  ultimately have "current_period_usage_units st' + sum_list (map snd us) \<le> cap"
    using Cons.IH [of "put_usage_state i st' s" st'] Cons.prems run u by simp
  with st' \<open>saturating_add (current_period_usage_units st) u = current_period_usage_units st + u\<close> show ?case by (simp add: c)
qed simp

text \<open>C20. The usage limits of a subscription, step by step and over sequences of usages. A usage is accepted
  exactly if the burst interval has passed since the last one, fewer calls than the limit have been
  counted in the window of \<open>now\<close>, and the units of the billing period, this usage included, stay within
  the cap; a refusal names the first of these that fails and writes nothing; an acceptance records its
  time, counts its call in the window, which starts anew only when the old one is over, and adds its
  units to the period. So in any sequence of accepted usages two are never closer than the burst
  interval, those in one window are at most as many as its limit, and those in one period use
  together at most the cap.\<close>

theorem usage_limits_enforced:
  assumes "usage_limits_key (sbs s) i = Some limits" and "interval_seconds sub \<noteq> 0"
  shows "(\<exists>st'. counted limits sub now u (usage_state_of s i sub now) st' \<and> usage_limit_step i sub now u s =
      (if \<not> burst_ok limits now (usage_state_of s i sub now) then (Ok (Some UsageBurstLimitExceeded), s)
       else if \<not> rate_ok limits now (usage_state_of s i sub now) then (Ok (Some UsageRateLimitExceeded), s)
       else if \<not> units_ok limits sub now u (usage_state_of s i sub now) then (Ok (Some UsageUsageCapExceeded), s)
       else (Ok None, put_usage_state i st' s)))
    \<and> (\<forall>st us t. usage_state_key (sbs s) i = Some st \<and> usage_run i sub us s = Some t \<longrightarrow>
        (0 < burst_min_interval_secs limits \<longrightarrow>
           sorted_wrt (\<lambda>a b. burst_min_interval_secs limits \<le> b - a) (last_usage_timestamp st # map fst us))
        \<and> (\<forall>m. rate_limit_max_calls limits = Some m \<and> m \<le> U32_MAX \<and> window_call_count st \<le> m
             \<and> (\<forall>c \<in> set us. fst c < saturating_add_u64 (window_start_timestamp st) (rate_window_secs limits))
             \<longrightarrow> window_call_count st + length us \<le> m)
        \<and> (\<forall>cap. usage_cap_units limits = Some cap \<and> cap < I128_MAX
             \<and> 0 \<le> current_period_usage_units st \<and> current_period_usage_units st \<le> cap
             \<and> (\<forall>(now, u) \<in> set us. 0 \<le> u \<and> period_of sub now \<le> usage_state.period_index st)
             \<longrightarrow> current_period_usage_units st + sum_list (map snd us) \<le> cap))"
proof (rule conjI, rule limit_step_cases [OF assms refl], intro allI impI, elim conjE)
  fix st us t
  assume run: "usage_state_key (sbs s) i = Some st" "usage_run i sub us s = Some t"
  note facts = usage_run_burst [OF assms run] usage_run_calls [OF assms run] usage_run_units [OF assms run]
  show "(0 < burst_min_interval_secs limits \<longrightarrow>
           sorted_wrt (\<lambda>a b. burst_min_interval_secs limits \<le> b - a) (last_usage_timestamp st # map fst us))
        \<and> (\<forall>m. rate_limit_max_calls limits = Some m \<and> m \<le> U32_MAX \<and> window_call_count st \<le> m
             \<and> (\<forall>c \<in> set us. fst c < saturating_add_u64 (window_start_timestamp st) (rate_window_secs limits))
             \<longrightarrow> window_call_count st + length us \<le> m)
        \<and> (\<forall>cap. usage_cap_units limits = Some cap \<and> cap < I128_MAX
             \<and> 0 \<le> current_period_usage_units st \<and> current_period_usage_units st \<le> cap
             \<and> (\<forall>(now, u) \<in> set us. 0 \<le> u \<and> period_of sub now \<le> usage_state.period_index st)
             \<longrightarrow> current_period_usage_units st + sum_list (map snd us) \<le> cap)"
    using facts by blast
qed

section \<open>Effect\<close>

lemma settle_usage_Ok:
  assumes "settle_usage env i sub u reference nb pending s = (Ok r, t)"
  obtains s1 s3 y where "credit_merchant_balance_for_token (merchant sub) (token sub) u Usage s = (Ok (), s1)"
    and "usage_status (sub\<lparr>prepaid_balance := nb, lifetime_charged := pending\<rparr>) = Ok y"
    and "r = UsageCharged" and "subs t = (subs s)(i \<mapsto> y)" and "mer t = mer s1"
    and "usage_ref_key (sbs t) = (usage_ref_key (sbs s))((i, reference) \<mapsto> True)"
proof -
  let ?put = "\<lambda>y s1. (put_sub i y s1)\<lparr>sbs := (sbs (put_sub i y s1))\<lparr>usage_ref_key :=
      (usage_ref_key (sbs (put_sub i y s1)))((i, reference) \<mapsto> True)\<rparr>\<rparr>"
  from assms obtain s1 s3 y where 1: "credit_merchant_balance_for_token (merchant sub) (token sub) u Usage s = (Ok (), s1)"
    and 2: "usage_status (sub\<lparr>prepaid_balance := nb, lifetime_charged := pending\<rparr>) = Ok y"
    and 3: "append_statement env i u (merchant y) Usage (ledger_timestamp env) (ledger_timestamp env) (?put y s1) = (Ok (), s3)"
    and t: "r = UsageCharged" "sbs t = sbs s3" "mer t = mer s3"
    by (auto simp: settle_usage_def Let_def ok_iff split: if_splits)
  from append_sbs [OF 3] credit_sbs [OF 1] t show thesis
    by (intro that [OF 1 2]) simp_all
qed

lemma usage_status_eq:
  "status x = Active \<Longrightarrow> usage_status x = Ok (x\<lparr>status :=
     (if cap_exhausted x then Cancelled else if prepaid_balance x = 0 then InsufficientBalance else Active)\<rparr>)"
  by (simp add: usage_status_def validate_cases)

lemma rejection_reason:
  "usage_limit_step i sub now u s = (Ok (Some r), t) \<Longrightarrow> r \<noteq> UsageCharged"
  by (auto simp: usage_limit_step_def apply_limits_def check_burst_def check_rate_def check_units_def Let_def
      split: option.splits sum.splits if_splits)

lemma within_limits_charged:
  assumes "usage_within_limits env i x u reference s = (Ok UsageCharged, t)"
  obtains s2 where "usage_limit_step i x (ledger_timestamp env) u s = (Ok None, s2)"
    and "(if (case lifetime_cap x of Some cap \<Rightarrow> lifetime_charged x + u > cap | None \<Rightarrow> False)
             then try_op (cancel_at_cap i x (ledger_timestamp env) s2) (\<lambda>_ s3. (Ok UsageCharged, s3))
             else case safe_sub_balance (prepaid_balance x) u of
                 Ok new_balance \<Rightarrow> settle_usage env i x u reference new_balance (lifetime_charged x + u) s2
               | _ \<Rightarrow> usage_shortfall i x u (ledger_timestamp env) s2) = (Ok UsageCharged, t)"
proof -
  from assms obtain rejected s2 where lim: "usage_limit_step i x (ledger_timestamp env) u s = (Ok rejected, s2)"
    unfolding usage_within_limits_def Let_def by (auto simp: try_op_Ok)
  have "rejected = None"
    using assms rejection_reason [of i x "ledger_timestamp env" u s _ s2] lim
    by (cases rejected) (auto simp: usage_within_limits_def reject_usage_def)
  with assms lim show thesis
    by (intro that [of s2]) (auto simp: usage_within_limits_def Let_def try_res_Ok safe_add_Ok)
qed

definition over_cap :: "subscription \<Rightarrow> i128 \<Rightarrow> bool" where
  "over_cap x u = (case lifetime_cap x of Some cap \<Rightarrow> lifetime_charged x + u > cap | None \<Rightarrow> False)"

text \<open>The money side of a charge within its limits.\<close>

lemma usage_settlement:
  assumes "usage_within_limits env i x u reference s = (Ok UsageCharged, t)"
    and "status x = Active" and "0 < u" and "u \<le> prepaid_balance x" and "prepaid_balance x * 10000 \<le> I128_MAX"
  shows "let y = x\<lparr>prepaid_balance := prepaid_balance x - u, lifetime_charged := lifetime_charged x + u\<rparr>
    in if over_cap x u
       then subs t = (subs s)(i \<mapsto> x\<lparr>status := Cancelled\<rparr>) \<and> mer t = mer s
       else subs t = (subs s)(i \<mapsto> y\<lparr>status := (if cap_exhausted y then Cancelled
               else if prepaid_balance y = 0 then InsufficientBalance else Active)\<rparr>)
         \<and> (\<forall>m tok. get_merchant_balance_by_token t m tok = get_merchant_balance_by_token s m tok
              + (if m = merchant x \<and> tok = token x then u else 0))
         \<and> usage_ref_key (sbs t) (i, reference) = Some True"
proof -
  let ?now = "ledger_timestamp env"
  let ?over = "over_cap x u"
  from assms(1) obtain s2 where lim: "usage_limit_step i x ?now u s = (Ok None, s2)"
    and rest: "(if ?over then try_op (cancel_at_cap i x ?now s2) (\<lambda>_ s3. (Ok UsageCharged, s3))
             else case safe_sub_balance (prepaid_balance x) u of
                 Ok new_balance \<Rightarrow> settle_usage env i x u reference new_balance (lifetime_charged x + u) s2
               | _ \<Rightarrow> usage_shortfall i x u ?now s2) = (Ok UsageCharged, t)"
    by (rule within_limits_charged) (simp add: over_cap_def)
  note same = usage_limit_step_same [OF lim]
  have "in_i128 u" "in_i128 (prepaid_balance x - u)" using assms(3-5) by (auto simp: i128_range)
  then have sub_bal: "safe_sub_balance (prepaid_balance x) u = Ok (prepaid_balance x - u)"
    using assms(3,4) by (simp add: ok_iff)
  show ?thesis
  proof (cases ?over)
    case True
    with rest [unfolded if_P [OF True]] same show ?thesis
      by (auto simp: cancel_at_cap_def Let_def ok_iff)
  next
    case False
    have "settle_usage env i x u reference (prepaid_balance x - u) (lifetime_charged x + u) s2 = (Ok UsageCharged, t)"
      by (rule rest [unfolded if_not_P [OF False] sub_bal result.case])
    then obtain s1 s3 y where c: "credit_merchant_balance_for_token (merchant x) (token x) u Usage s2 = (Ok (), s1)"
      and y: "usage_status (x\<lparr>prepaid_balance := prepaid_balance x - u, lifetime_charged := lifetime_charged x + u\<rparr>) = Ok y"
      and "subs t = (subs s2)(i \<mapsto> y)" "mer t = mer s1"
      and "usage_ref_key (sbs t) = (usage_ref_key (sbs s2))((i, reference) \<mapsto> True)"
      by (rule settle_usage_Ok)
    with assms(2) same credit_balance [OF c] False show ?thesis
      by (auto simp: usage_status_eq Let_def get_merchant_balance_by_token_def)
  qed
qed

text \<open>C13. A usage charge that reports success needs an unpaused merchant, an active, unexpired
  subscription with usage enabled, a positive amount covered by the balance and a new reference. If
  the amount would pass the lifetime cap the subscription is only cancelled; otherwise the amount moves
  from the prepaid balance to the merchant, free of protocol fee, counts toward the lifetime total, uses the reference up,
  and leaves the subscription cancelled at the cap, underfunded at a zero balance, or active. The total
  owed never changes.\<close>

theorem usage_charge_effect:
  assumes "finite_books s" and "fee_safe s" and "subs s i = Some x"
    and "charge_usage_one env i u reference s = (Ok UsageCharged, t)"
  shows "\<not> get_merchant_paused s (merchant x) \<and> \<not> is_expired x (ledger_timestamp env)
    \<and> status x = Active \<and> usage_enabled x \<and> 0 < u \<and> u \<le> prepaid_balance x
    \<and> usage_ref_key (sbs s) (i, reference) = None
    \<and> (let y = x\<lparr>prepaid_balance := prepaid_balance x - u, lifetime_charged := lifetime_charged x + u\<rparr>
       in if over_cap x u
          then subs t = (subs s)(i \<mapsto> x\<lparr>status := Cancelled\<rparr>) \<and> mer t = mer s
          else subs t = (subs s)(i \<mapsto> y\<lparr>status := (if cap_exhausted y then Cancelled
                  else if prepaid_balance y = 0 then InsufficientBalance else Active)\<rparr>)
            \<and> (\<forall>m tok. get_merchant_balance_by_token t m tok = get_merchant_balance_by_token s m tok
                 + (if m = merchant x \<and> tok = token x then u else 0))
            \<and> usage_ref_key (sbs t) (i, reference) = Some True)
    \<and> owed t = owed s"
proof -
  from assms(3,4) have pre: "\<not> get_merchant_paused s (merchant x)" "\<not> is_expired x (ledger_timestamp env)"
      "status x = Active" "usage_enabled x" "0 < u" "u \<le> prepaid_balance x" "usage_ref_key (sbs s) (i, reference) = None"
    and tail: "usage_within_limits env i x u reference s = (Ok UsageCharged, t)"
    unfolding charge_usage_one_def Let_def
    by (auto simp: ok_iff reject_usage_def split: if_splits)
  have "prepaid_balance x * 10000 \<le> I128_MAX" using assms(2,3) by (auto simp: fee_safe_def)
  note effect = usage_settlement [OF tail pre(3,5,6) this]
  have "owed t = owed s"
    using endsD [OF charge_usage_one_settled [OF assms(1,2)] assms(4)] by (simp add: settled_def)
  then show ?thesis using effect pre by (cases "over_cap x u") (simp_all add: Let_def cong: if_cong)
qed

text \<open>C21. A usage reference is good for one charge: once recorded for a subscription, a call with it
  never reports a charge again, and moves no money whatever the outcome.\<close>

theorem usage_reference_once:
  assumes "usage_ref_key (sbs s) (i, reference) \<noteq> None"
    and "charge_usage_one env i u reference s = (r, t)"
  shows "r \<noteq> Ok UsageCharged \<and> mer t = mer s \<and> usage_ref_key (sbs t) (i, reference) \<noteq> None
    \<and> (\<forall>j. map_option prepaid_balance (subs t j) = map_option prepaid_balance (subs s j))"
  using assms
  by (auto simp: charge_usage_one_def Let_def expiration_guard_def cancel_at_cap_def reject_usage_def get_subscription_def
      ok_or_def validate_cases split: if_splits option.splits)

section \<open>A concrete usage\<close>

lemma demo_usage: "fst (charge_usage_one demo_env 0 5 ''u1'' demo_subs) = Ok UsageCharged"
  by (simp add: charge_usage_one_def usage_within_limits_def usage_limit_step_def settle_usage_def usage_status_def
      charge_evaluation Let_def)

theorem usage_charge_effect_witness:
  "let t = snd (charge_usage_one demo_env 0 5 ''u1'' demo_subs)
   in map_option prepaid_balance (subs t 0) = Some 20 \<and> get_merchant_balance_by_token t (Address 4) (Address 9) = 5
      \<and> usage_ref_key (sbs t) (0, ''u1'') = Some True \<and> owed t = owed demo_subs"
proof -
  obtain t where t: "charge_usage_one demo_env 0 5 ''u1'' demo_subs = (Ok UsageCharged, t)"
    using demo_usage by (metis prod.collapse)
  have sub: "subs demo_subs 0 = Some demo_sub" by simp
  have "\<not> over_cap demo_sub 5" by (simp add: over_cap_def demo_sub_def)
  with usage_charge_effect [OF demo_subs_books(1,2) sub t] show ?thesis
    unfolding t by (simp add: Let_def demo_sub_def get_merchant_balance_by_token_def vault_init_def)
qed

theorem usage_reference_once_witness:
  "let s = demo_subs\<lparr>sbs := (sbs demo_subs)\<lparr>usage_ref_key := [(0, ''u1'') \<mapsto> True]\<rparr>\<rparr>
   in map_option prepaid_balance (subs (snd (charge_usage_one demo_env 0 5 ''u1'' s)) 0) = Some 25"
proof -
  let ?s = "demo_subs\<lparr>sbs := (sbs demo_subs)\<lparr>usage_ref_key := [(0, ''u1'') \<mapsto> True]\<rparr>\<rparr>"
  obtain r t where t: "charge_usage_one demo_env 0 5 ''u1'' ?s = (r, t)" by fastforce
  have "usage_ref_key (sbs ?s) (0, ''u1'') \<noteq> None" by simp
  from usage_reference_once [OF this t] show ?thesis
    unfolding Let_def t by (simp add: demo_sub_def)
qed

end
