(* ===== verification/Subscription_Laws.thy ===== *)
theory Subscription_Laws
  imports Plans Charge_Books
begin

text \<open>
  What the operations of \<open>subscription.rs\<close> do when they succeed, and when that is. Money moves are
  stated over the token balances that a standard token leaves behind.
\<close>

section \<open>Deposits\<close>

definition recovered :: "subscription \<Rightarrow> subscription" where
  "recovered sub = (if (status sub = InsufficientBalance \<or> status sub = GracePeriod) \<and> amount sub \<le> prepaid_balance sub
                    then sub\<lparr>status := Active\<rparr> else sub)"

lemma recovered_fields [simp]:
  "subscriber (recovered x) = subscriber x" "merchant (recovered x) = merchant x" "token (recovered x) = token x"
  "amount (recovered x) = amount x" "interval_seconds (recovered x) = interval_seconds x"
  "prepaid_balance (recovered x) = prepaid_balance x" "lifetime_cap (recovered x) = lifetime_cap x"
  "lifetime_charged (recovered x) = lifetime_charged x" "start_time (recovered x) = start_time x"
  "expires_at (recovered x) = expires_at x"
  by (simp_all add: recovered_def)

lemma recover_after_deposit_frame:
  "recover_after_deposit env i x s = s\<lparr>sbs := sbs (recover_after_deposit env i x s), evlog := evlog (recover_after_deposit env i x s)\<rparr>"
  by (simp add: recover_after_deposit_def publish_def put_sub_def)

lemma recover_after_deposit_subs:
  "subs s i = Some x \<Longrightarrow> subs (recover_after_deposit env i x s) = (subs s)(i \<mapsto> recovered x)"
  by (auto simp: recover_after_deposit_def recovered_def)

lemma recover_after_deposit_simps [simp]:
  "mer (recover_after_deposit env i x s) = mer s" "adm (recover_after_deposit env i x s) = adm s"
  "pln (recover_after_deposit env i x s) = pln s" "tokens (recover_after_deposit env i x s) = tokens s"
  "total_accounted_key (recover_after_deposit env i x s) = total_accounted_key s"
  "lock_key (recover_after_deposit env i x s) = lock_key s" "stm (recover_after_deposit env i x s) = stm s"
  "snp (recover_after_deposit env i x s) = snp s" "met (recover_after_deposit env i x s) = met s"
  "bil (recover_after_deposit env i x s) = bil s" "blocklist_key (recover_after_deposit env i x s) = blocklist_key s"
  by (simp_all add: recover_after_deposit_def)

lemma recover_after_deposit_sbs:
  "\<exists>m. sbs (recover_after_deposit env i x s) = (sbs s)\<lparr>sub_key := m\<rparr>"
  by (cases "(status x = InsufficientBalance \<or> status x = GracePeriod) \<and> prepaid_balance x \<ge> amount x")
    (auto simp: recover_after_deposit_def intro: exI [of _ "subs s"])

lemma deposit_Ok:
  assumes "do_deposit_funds env i subr amt s = (Ok (), t)"
  obtains x l where "authorized env subr" and "\<not> is_blocklisted s subr" and "subs s i = Some x"
    and "subscriber x = subr" and "\<not> get_merchant_paused s (merchant x)" and "\<not> is_expired x (ledger_timestamp env)"
    and "\<forall>n. min_topup_key (adm s) = Some n \<longrightarrow> n \<le> amt" and "0 \<le> amt"
    and "enforce_credit_limit_for_delta s subr (token x) amt = Ok ()" and "enforce_deposit_cap x amt = Ok ()"
    and "in_i128 (prepaid_balance x + amt)"
    and "token_transfer env (token x) subr (current_contract_address env) amt (tokens s) = Some l"
    and "tokens t = l"
    and "subs t = (subs s)(i \<mapsto> recovered (x\<lparr>prepaid_balance := prepaid_balance x + amt\<rparr>))"
    and "mer t = mer s" and "adm t = adm s" and "pln t = pln s" and "lock_key t = lock_key s"
    and "sbs t = (sbs s)\<lparr>sub_key := subs t\<rparr>"
    and "\<forall>tok. get_total_accounted t tok = get_total_accounted s tok + (if tok = token x then amt else 0)"
proof -
  let ?env = "current_contract_address env"
  from assms obtain x l u where facts: "authorized env subr" "\<not> is_blocklisted s subr" "subs s i = Some x"
    "subscriber x = subr" "\<not> get_merchant_paused s (merchant x)" "\<not> is_expired x (ledger_timestamp env)"
    "\<forall>n. min_topup_key (adm s) = Some n \<longrightarrow> n \<le> amt" "0 \<le> amt"
    "enforce_credit_limit_for_delta s subr (token x) amt = Ok ()" "enforce_deposit_cap x amt = Ok ()"
    "in_i128 (prepaid_balance x + amt)"
    and tr: "token_transfer env (token x) subr ?env amt (tokens s) = Some l"
    and add: "add_total_accounted (token x) amt
        ((put_sub i (x\<lparr>prepaid_balance := prepaid_balance x + amt\<rparr>) s)\<lparr>tokens := l\<rparr>) = (Ok (), u)"
    and t: "t = recover_after_deposit env i (x\<lparr>prepaid_balance := prepaid_balance x + amt\<rparr>)
        (publish ''deposited'' (LifecycleEv (FundsDepositedEvent i subr (token x) amt (prepaid_balance x + amt)
           (ledger_timestamp env))) u)"
    by (auto simp: do_deposit_funds_def ok_iff get_min_topup_def Let_def)
  have u: "subs u = (subs s)(i \<mapsto> x\<lparr>prepaid_balance := prepaid_balance x + amt\<rparr>)" "tokens u = l" "mer u = mer s"
      "adm u = adm s" "pln u = pln s" "lock_key u = lock_key s" "sbs u = (sbs s)\<lparr>sub_key := subs u\<rparr>"
    using add by (auto simp: add_total_accounted_Ok split: if_splits)
  have acc: "get_total_accounted t tok = get_total_accounted s tok + (if tok = token x then amt else 0)" for tok
    using accounted.increase_reading [OF add, of tok] facts(8) t by (simp add: get_total_accounted_def)
  have subs_t: "subs t = (subs s)(i \<mapsto> recovered (x\<lparr>prepaid_balance := prepaid_balance x + amt\<rparr>))"
    unfolding t using u(1) by (subst recover_after_deposit_subs) simp_all
  show ?thesis
  proof (rule that [OF facts tr _ subs_t])
    show "tokens t = l" "mer t = mer s" "adm t = adm s" "pln t = pln s" "lock_key t = lock_key s"
      unfolding t using u by simp_all
    obtain m where "sbs t = (sbs u)\<lparr>sub_key := m\<rparr>"
      using recover_after_deposit_sbs [of env i _ "publish _ _ u"] unfolding t by fastforce
    then show "sbs t = (sbs s)\<lparr>sub_key := subs t\<rparr>" using u(7) by (metis sub_store.select_convs(2) sub_store.surjective sub_store.update_convs(2))
    show "\<forall>tok. get_total_accounted t tok = get_total_accounted s tok + (if tok = token x then amt else 0)"
      using acc by blast
  qed
qed

lemma deposit_cap_room:
  assumes "enforce_deposit_cap x amt = Ok ()" and "sub_ok x" and "lifetime_cap x = Some cap" and "cap \<le> I128_MAX"
    and "prepaid_balance x \<le> I128_MAX"
  shows "lifetime_charged x + prepaid_balance x + amt \<le> cap"
proof -
  have r: "0 \<le> lifetime_charged x" "lifetime_charged x \<le> cap" "0 \<le> prepaid_balance x"
    using assms(2,3) by (simp_all add: sub_ok_def)
  then have "saturating_sub cap (lifetime_charged x) = cap - lifetime_charged x"
    using assms(4) I128_MAX_pos by (simp add: saturating_sub_def clamp_i128_def I128_MIN_eq)
  moreover have "saturating_sub (cap - lifetime_charged x) (prepaid_balance x) = cap - lifetime_charged x - prepaid_balance x"
    using r assms(4,5) I128_MAX_pos by (simp add: saturating_sub_def clamp_i128_def I128_MIN_eq)
  ultimately show ?thesis
    using assms(1,3) by (simp add: enforce_deposit_cap_def split: if_splits)
qed


section \<open>Creation\<close>

lemma store_new_simps [simp]:
  "subs (store_new_subscription i n x s) = (subs s)(i \<mapsto> x)"
  "next_id_key (sbs (store_new_subscription i n x s)) = Some n"
  "merchant_index (store_new_subscription i n x s) m = merchant_index s m @ (if m = merchant x then [i] else [])"
  "token_index (store_new_subscription i n x s) tok = token_index s tok @ (if tok = token x then [i] else [])"
  "mer (store_new_subscription i n x s) = mer s" "adm (store_new_subscription i n x s) = adm s"
  "pln (store_new_subscription i n x s) = pln s" "tokens (store_new_subscription i n x s) = tokens s"
  "total_accounted_key (store_new_subscription i n x s) = total_accounted_key s"
  "lock_key (store_new_subscription i n x s) = lock_key s" "stm (store_new_subscription i n x s) = stm s"
  "snp (store_new_subscription i n x s) = snp s" "met (store_new_subscription i n x s) = met s"
  "bil (store_new_subscription i n x s) = bil s" "blocklist_key (store_new_subscription i n x s) = blocklist_key s"
  by (simp_all add: store_new_subscription_def merchant_index_def token_index_def)

lemma index_publish [simp]:
  "merchant_index (publish tp ev s) m = merchant_index s m" "token_index (publish tp ev s) tok = token_index s tok"
  by (simp_all add: merchant_index_def token_index_def)

lemma new_subscription_simps [simp]:
  "subscriber (new_subscription env u m tok amt iv en cap ex) = u"
  "merchant (new_subscription env u m tok amt iv en cap ex) = m"
  "token (new_subscription env u m tok amt iv en cap ex) = tok"
  "amount (new_subscription env u m tok amt iv en cap ex) = amt"
  "interval_seconds (new_subscription env u m tok amt iv en cap ex) = iv"
  "status (new_subscription env u m tok amt iv en cap ex) = Active"
  "prepaid_balance (new_subscription env u m tok amt iv en cap ex) = 0"
  "lifetime_cap (new_subscription env u m tok amt iv en cap ex) = cap"
  "lifetime_charged (new_subscription env u m tok amt iv en cap ex) = 0"
  "expires_at (new_subscription env u m tok amt iv en cap ex) = ex"
  by (simp_all add: new_subscription_def)

lemma validate_interval_Ok [ok_iff]:
  "validate_interval iv = Ok u \<longleftrightarrow> 60 \<le> iv \<and> iv \<le> 31536000"
  by (auto simp: validate_interval_def MIN_SUBSCRIPTION_INTERVAL_SECONDS_def MAX_SUBSCRIPTION_INTERVAL_SECONDS_def)

lemma create_Ok:
  assumes "do_create_subscription_with_token env u m tok amt iv en cap ex s = (Ok i, t)"
  shows "authorized env u" and "\<not> is_blocklisted s u" and "0 < amt" and "60 \<le> iv" and "iv \<le> 31536000"
    and "is_token_accepted s tok" and "\<forall>c. resolve_cap s m cap = Some c \<longrightarrow> 0 < c \<and> amt \<le> c"
    and "enforce_credit_limit_for_delta s u tok amt = Ok ()"
    and "i = next_id_of s" and "i < U32_MAX"
    and "\<exists>tp ev. t = publish tp ev
      (store_new_subscription i (i + 1) (new_subscription env u m tok amt iv en (resolve_cap s m cap) ex) s)"
  using assms
  by (auto simp: do_create_subscription_with_token_def ok_iff Let_def MAX_SUBSCRIPTION_ID_def not_le not_less
      split: option.splits if_splits)

section \<open>Money back to the subscriber\<close>

lemma subscriber_withdraw_Ok:
  assumes "do_withdraw_subscriber_funds env i u s = (Ok (), t)"
  obtains x l where "authorized env u" and "subs s i = Some x" and "subscriber x = u" and "0 < prepaid_balance x"
    and "status x \<in> {Cancelled, Expired, Archived} \<or> is_expired x (ledger_timestamp env)"
    and "token_transfer env (token x) (current_contract_address env) u (prepaid_balance x) (tokens s) = Some l"
    and "tokens t = l" and "subs t = (subs s)(i \<mapsto> x\<lparr>prepaid_balance := 0\<rparr>)"
    and "mer t = mer s" and "adm t = adm s" and "pln t = pln s" and "lock_key t = lock_key s"
    and "sbs t = (sbs s)\<lparr>sub_key := subs t\<rparr>"
    and "\<forall>tok. get_total_accounted t tok = get_total_accounted s tok - (if tok = token x then prepaid_balance x else 0)"
proof -
  from assms obtain x l w where f: "authorized env u" "subs s i = Some x" "subscriber x = u" "0 < prepaid_balance x"
    "status x \<in> {Cancelled, Expired, Archived} \<or> is_expired x (ledger_timestamp env)"
    "token_transfer env (token x) (current_contract_address env) u (prepaid_balance x) (tokens s) = Some l"
    and sub: "sub_total_accounted (token x) (prepaid_balance x)
        ((put_sub i (x\<lparr>prepaid_balance := 0\<rparr>) s)\<lparr>tokens := l\<rparr>) = (Ok (), w)"
    and t: "t = publish ''sub_withdrawn'' (FundsEv (SubscriberWithdrawalEvent i u (token x) (prepaid_balance x)
        (ledger_timestamp env))) w"
    by (auto simp: do_withdraw_subscriber_funds_def ok_iff Let_def)
  have "\<forall>tok. get_total_accounted w tok = get_total_accounted s tok - (if tok = token x then prepaid_balance x else 0)"
    using accounted.decrease_reading [OF sub] f(4) by (simp add: get_total_accounted_def)
  moreover have "tokens w = l" "mer w = mer s" "adm w = adm s" "pln w = pln s" "lock_key w = lock_key s"
    "sbs w = (sbs s)\<lparr>sub_key := (subs s)(i \<mapsto> x\<lparr>prepaid_balance := 0\<rparr>)\<rparr>"
    using sub by (auto simp: sub_total_accounted_Ok split: if_splits)
  ultimately show ?thesis using f t by (intro that [of x l]) (auto simp: get_total_accounted_def)
qed

lemma partial_refund_Ok:
  assumes "do_partial_refund env a i u amt s = (Ok (), t)"
  obtains x l where "authorized env a" and "admin_key (adm s) = Some a" and "subs s i = Some x" and "subscriber x = u"
    and "0 < amt" and "amt \<le> prepaid_balance x"
    and "token_transfer env (token x) (current_contract_address env) u amt (tokens s) = Some l"
    and "tokens t = l" and "subs t = (subs s)(i \<mapsto> x\<lparr>prepaid_balance := prepaid_balance x - amt\<rparr>)"
    and "mer t = mer s" and "adm t = adm s" and "pln t = pln s" and "lock_key t = lock_key s"
    and "sbs t = (sbs s)\<lparr>sub_key := subs t\<rparr>"
    and "\<forall>tok. get_total_accounted t tok = get_total_accounted s tok - (if tok = token x then amt else 0)"
proof -
  from assms obtain x l w where f: "authorized env a" "admin_key (adm s) = Some a" "subs s i = Some x"
    "subscriber x = u" "0 < amt" "amt \<le> prepaid_balance x"
    "token_transfer env (token x) (current_contract_address env) u amt (tokens s) = Some l"
    and sub: "sub_total_accounted (token x) amt
        ((put_sub i (x\<lparr>prepaid_balance := prepaid_balance x - amt\<rparr>) s)\<lparr>tokens := l\<rparr>) = (Ok (), w)"
    and t: "t = publish ''partial_refund'' (RefundEv (PartialRefundEvent i u (token x) amt (ledger_timestamp env))) w"
    by (auto simp: do_partial_refund_def ok_iff Let_def)
  have "\<forall>tok. get_total_accounted w tok = get_total_accounted s tok - (if tok = token x then amt else 0)"
    using accounted.decrease_reading [OF sub] f(5) by (simp add: get_total_accounted_def)
  moreover have "tokens w = l" "mer w = mer s" "adm w = adm s" "pln w = pln s" "lock_key w = lock_key s"
    "sbs w = (sbs s)\<lparr>sub_key := (subs s)(i \<mapsto> x\<lparr>prepaid_balance := prepaid_balance x - amt\<rparr>)\<rparr>"
    using sub by (auto simp: sub_total_accounted_Ok split: if_splits)
  ultimately show ?thesis using f t by (intro that [of x l]) (auto simp: get_total_accounted_def)
qed

text \<open>C15. A subscriber withdraws from its own cancelled, expired or archived subscription only, and gets
  exactly the whole prepaid balance: the vault pays it out once, owes and accounts that much less, and
  a second withdrawal finds nothing.\<close>

theorem withdraw_pays_prepaid_once:
  assumes "do_withdraw_subscriber_funds env i u s = (Ok (), t)" and "sep41 (token_transfer env)" and "finite_books s"
  shows "\<exists>x. subs s i = Some x \<and> subscriber x = u \<and> authorized env u \<and>
    (status x \<in> {Cancelled, Expired, Archived} \<or> is_expired x (ledger_timestamp env)) \<and>
    0 < prepaid_balance x \<and> prepaid_balance x \<le> tokens s (token x) (current_contract_address env) \<and>
    subs t = (subs s)(i \<mapsto> x\<lparr>prepaid_balance := 0\<rparr>) \<and>
    tokens t = moved (token x) (current_contract_address env) u (prepaid_balance x) (tokens s) \<and>
    (\<forall>tok. owed t tok = owed s tok - (if tok = token x then prepaid_balance x else 0)) \<and>
    (\<forall>tok. get_total_accounted t tok = get_total_accounted s tok - (if tok = token x then prepaid_balance x else 0)) \<and>
    fst (do_withdraw_subscriber_funds env i u t) = Err InvalidAmount"
proof -
  obtain x l where f: "authorized env u" and sub: "subs s i = Some x" and g: "subscriber x = u" "0 < prepaid_balance x"
      "status x \<in> {Cancelled, Expired, Archived} \<or> is_expired x (ledger_timestamp env)"
    and tr: "token_transfer env (token x) (current_contract_address env) u (prepaid_balance x) (tokens s) = Some l"
    and tl: "tokens t = l" and t: "subs t = (subs s)(i \<mapsto> x\<lparr>prepaid_balance := 0\<rparr>)" "mer t = mer s"
    and acc: "\<forall>tok. get_total_accounted t tok = get_total_accounted s tok - (if tok = token x then prepaid_balance x else 0)"
    using assms(1) by (rule subscriber_withdraw_Ok)
  have "owed t tok = owed s tok + (if token x = tok then 0 - prepaid_balance x else 0)" for tok
    using owed_sub_change(1) [OF assms(3) sub _ t(1), of tok] t(2) by simp
  then have "\<forall>tok. owed t tok = owed s tok - (if tok = token x then prepaid_balance x else 0)" by auto
  moreover have "fst (do_withdraw_subscriber_funds env i u t) = Err InvalidAmount"
    using f g t(1) by (simp add: do_withdraw_subscriber_funds_def require_auth_def get_subscription_def)
  ultimately show ?thesis
    using f sub g t(1) acc tl sep41D [OF assms(2) tr] by (intro exI [of _ x]) simp
qed

end
