(* ===== verification/Lifecycle_Laws.thy ===== *)
theory Lifecycle_Laws
  imports Subscription_Laws
begin

text \<open>
  Status changes by the parties, one-off charges, and the credit limit: when they succeed and what
  they leave behind.
\<close>

section \<open>The parties' own operations\<close>

text \<open>Who may change the status of a subscription: a signed party to one that has not expired.\<close>

definition party :: "env \<Rightarrow> u32 \<Rightarrow> address \<Rightarrow> vault \<Rightarrow> subscription \<Rightarrow> bool" where
  "party env i a s x \<longleftrightarrow> authorized env a \<and> subs s i = Some x \<and> \<not> is_expired x (ledger_timestamp env)
     \<and> (a = subscriber x \<or> a = merchant x)"

lemma party_guard_Ok [ok_iff]: "party_guard env i a s = Ok x \<longleftrightarrow> party env i a s x"
  by (auto simp: party_guard_def party_def ok_iff)

lemma cancel_Ok:
  "do_cancel_subscription env i a s = (Ok u, t) \<longleftrightarrow>
     (\<exists>x. party env i a s x \<and> can_transition (status x) Cancelled \<and>
       t = publish ''subscription_cancelled'' (LifecycleEv (SubscriptionCancelledEvent i (subscriber x) (merchant x)
             (token x) a (prepaid_balance x) (ledger_timestamp env))) (put_sub i (x\<lparr>status := Cancelled\<rparr>) s))"
  by (auto simp: do_cancel_subscription_def ok_iff simp del: can_transition_targets)

lemma pause_Ok:
  "do_pause_subscription env i a s = (Ok u, t) \<longleftrightarrow>
     (\<exists>x. party env i a s x \<and> can_transition (status x) Paused \<and>
       t = (if status x = Paused then s else publish ''sub_paused'' (LifecycleEv (SubscriptionPausedEvent i
             (subscriber x) (merchant x) a (ledger_timestamp env))) (put_sub i (x\<lparr>status := Paused\<rparr>) s)))"
  by (auto simp: do_pause_subscription_def ok_iff simp del: can_transition_targets split: if_splits)

lemma resume_Ok:
  "do_resume_subscription env i a s = (Ok u, t) \<longleftrightarrow>
     (\<exists>x. party env i a s x \<and> (a = subscriber x \<longrightarrow> \<not> is_blocklisted s a) \<and> can_transition (status x) Active \<and>
       (status x = InsufficientBalance \<or> status x = GracePeriod \<longrightarrow> amount x \<le> prepaid_balance x) \<and>
       t = (if status x = Active then s else publish ''sub_resumed'' (LifecycleEv (SubscriptionResumedEvent i
             (subscriber x) (merchant x) a (Some (status x)) (ledger_timestamp env)))
             (put_sub i (x\<lparr>status := Active\<rparr>) s)))"
proof -
  have body: "(try_res (if a = subscriber x then require_not_blocklisted s (subscriber x) else Ok ()) s (\<lambda>_.
       try_res (validate_status_transition (status x) Active) s (\<lambda>_.
       if status x = Active then (Ok (), s)
       else if (status x = InsufficientBalance \<or> status x = GracePeriod) \<and> prepaid_balance x < amount x
       then (Err InsufficientBalanceErr, s) else (Ok (), v))) = (Ok u, t)) \<longleftrightarrow>
     (a = subscriber x \<longrightarrow> \<not> is_blocklisted s a) \<and> can_transition (status x) Active \<and>
       (status x = InsufficientBalance \<or> status x = GracePeriod \<longrightarrow> amount x \<le> prepaid_balance x) \<and>
       t = (if status x = Active then s else v)" for x v
    by (cases "a = subscriber x"; cases "can_transition (status x) Active"; cases "is_blocklisted s (subscriber x)")
      (auto simp: require_not_blocklisted_def validate_cases not_less simp del: can_transition_targets)
  show ?thesis
    unfolding do_resume_subscription_def by (subst try_res_Ok) (simp only: party_guard_Ok body)
qed

definition set_status_only :: "u32 \<Rightarrow> subscription_status \<Rightarrow> vault \<Rightarrow> vault \<Rightarrow> bool" where
  "set_status_only i st s t \<longleftrightarrow> (\<exists>x. subs s i = Some x \<and> subs t = (subs s)(i \<mapsto> x\<lparr>status := st\<rparr>)) \<and>
     mer t = mer s \<and> tokens t = tokens s \<and> total_accounted_key t = total_accounted_key s \<and> adm t = adm s"

lemma set_status_only_put:
  "subs s i = Some x \<Longrightarrow> set_status_only i st s (publish tp ev (put_sub i (x\<lparr>status := st\<rparr>) s))"
  "subs s i = Some x \<Longrightarrow> status x = st \<Longrightarrow> set_status_only i st s s"
  by (auto simp: set_status_only_def)

lemma status_set_effect:
  "do_cancel_subscription env i a s = (Ok u, t) \<Longrightarrow> set_status_only i Cancelled s t"
  "do_pause_subscription env i a s = (Ok u, t) \<Longrightarrow> set_status_only i Paused s t"
  "do_resume_subscription env i a s = (Ok u, t) \<Longrightarrow> set_status_only i Active s t"
  unfolding cancel_Ok pause_Ok resume_Ok party_def
  by (elim exE conjE, simp add: set_status_only_put)+

text \<open>C23. A subscription that has not expired is cancelled, paused or resumed by its subscriber or its
  merchant, signed, and by nobody else: cancelled from any live status, paused when active, resumed
  when paused, or, if short of funds, once a charge is covered again, and not by a barred subscriber.
  Success sets exactly the status and moves no money.\<close>

theorem party_operations:
  "((\<exists>t. do_cancel_subscription env i a s = (Ok (), t)) \<longleftrightarrow>
      (\<exists>x. party env i a s x \<and> (live (status x) \<or> status x = Cancelled))) \<and>
   ((\<exists>t. do_pause_subscription env i a s = (Ok (), t)) \<longleftrightarrow>
      (\<exists>x. party env i a s x \<and> status x \<in> {Active, Paused})) \<and>
   ((\<exists>t. do_resume_subscription env i a s = (Ok (), t)) \<longleftrightarrow>
      (\<exists>x. party env i a s x \<and> (a = subscriber x \<longrightarrow> \<not> is_blocklisted s a) \<and>
         (status x \<in> {Active, Paused} \<or>
          status x \<in> {InsufficientBalance, GracePeriod} \<and> amount x \<le> prepaid_balance x))) \<and>
   (\<forall>t. do_cancel_subscription env i a s = (Ok (), t) \<longrightarrow> set_status_only i Cancelled s t) \<and>
   (\<forall>t. do_pause_subscription env i a s = (Ok (), t) \<longrightarrow> set_status_only i Paused s t) \<and>
   (\<forall>t. do_resume_subscription env i a s = (Ok (), t) \<longrightarrow> set_status_only i Active s t)"
proof (intro conjI)
  show "(\<exists>t. do_cancel_subscription env i a s = (Ok (), t)) \<longleftrightarrow>
      (\<exists>x. party env i a s x \<and> (live (status x) \<or> status x = Cancelled))"
    by (auto simp: cancel_Ok live_def)
  show "(\<exists>t. do_pause_subscription env i a s = (Ok (), t)) \<longleftrightarrow>
      (\<exists>x. party env i a s x \<and> status x \<in> {Active, Paused})"
    by (auto simp: pause_Ok)
  show "(\<exists>t. do_resume_subscription env i a s = (Ok (), t)) \<longleftrightarrow>
      (\<exists>x. party env i a s x \<and> (a = subscriber x \<longrightarrow> \<not> is_blocklisted s a) \<and>
         (status x \<in> {Active, Paused} \<or>
          status x \<in> {InsufficientBalance, GracePeriod} \<and> amount x \<le> prepaid_balance x))"
    unfolding resume_Ok can_transition_targets by auto
qed (simp_all add: status_set_effect)

lemma cleanup_Ok:
  assumes "do_cleanup_subscription env i a s = (Ok u, t)"
  obtains x where "authorized env a" and "subs s i = Some x"
    and "status x = Cancelled \<or> is_expired x (ledger_timestamp env)"
    and "t = s \<and> status x = Archived \<or> (\<exists>tp ev. t = publish tp ev (put_sub i (x\<lparr>status := Archived\<rparr>) s))"
    and "status_path (status x) Archived"
proof -
  from assms obtain x where f: "authorized env a" "subs s i = Some x"
      "status x = Cancelled \<or> is_expired x (ledger_timestamp env)"
    and t: "t = s \<and> status x = Archived \<or> t = publish ''subscription_archived''
          (LifecycleEv (SubscriptionArchivedEvent i (ledger_timestamp env))) (put_sub i (x\<lparr>status := Archived\<rparr>) s)"
    by (auto simp: do_cleanup_subscription_def Let_def ok_iff split: if_splits)
  then show ?thesis by (intro that) auto
qed

section \<open>One-off charges\<close>

lemma cap_reach_frame [simp]:
  "sbs (cap_reach_event i sub now s) = sbs s" "mer (cap_reach_event i sub now s) = mer s" "adm (cap_reach_event i sub now s) = adm s"
  "stm (cap_reach_event i sub now s) = stm s" "snp (cap_reach_event i sub now s) = snp s" "tokens (cap_reach_event i sub now s) = tokens s"
  "total_accounted_key (cap_reach_event i sub now s) = total_accounted_key s"
  by (simp_all add: cap_reach_event_def split: option.split)

lemma frame_cap_reach: "charge_frame s t \<Longrightarrow> charge_frame s (cap_reach_event i sub now t)"
  by (auto simp: cap_reach_event_def intro: frame_publish split: option.split)

lemma one_off_Ok:
  assumes "do_charge_one_off env i m amt s = (Ok (), t)"
  obtains x s1 s2 s3 y where "authorized env m" and "subs s i = Some x" and "merchant x = m"
    and "\<not> is_expired x (ledger_timestamp env)" and "status x = Active \<or> status x = Paused"
    and "0 < amt" and "amt \<le> prepaid_balance x"
    and "\<forall>cap. lifetime_cap x = Some cap \<longrightarrow> lifetime_charged x + amt \<le> cap"
    and "y = x\<lparr>lifetime_charged := lifetime_charged x + amt, prepaid_balance := prepaid_balance x - amt,
          status := if lifetime_cap x = Some (lifetime_charged x + amt) then Cancelled else status x\<rparr>"
    and "credit_merchant_balance_for_token m (token x) amt OneOff s = (Ok (), s1)"
    and "append_statement env i amt m OneOff (ledger_timestamp env) (ledger_timestamp env) (put_sub i y s2) = (Ok (), s3)"
    and "s2 = s1 \<or> s2 = cap_reach_event i y (ledger_timestamp env) s1" and "\<exists>tp ev. t = publish tp ev s3"
proof -
  let ?now = "ledger_timestamp env"
  from assms obtain x where f: "authorized env m" "subs s i = Some x" "merchant x = m" "\<not> is_expired x ?now"
      "status x = Active \<or> status x = Paused" "0 < amt" "amt \<le> prepaid_balance x"
    and cap: "\<forall>cap. lifetime_cap x = Some cap \<longrightarrow> lifetime_charged x + amt \<le> cap"
    and run: "settle_one_off env i x amt (lifetime_charged x + amt) s = (Ok (), t)"
    by (auto simp: do_charge_one_off_def ok_iff Let_def split: option.splits if_splits)
  define y where "y = x\<lparr>lifetime_charged := lifetime_charged x + amt, prepaid_balance := prepaid_balance x - amt,
          status := if lifetime_cap x = Some (lifetime_charged x + amt) then Cancelled else status x\<rparr>"
  have at: "cap_exhausted (x\<lparr>lifetime_charged := lifetime_charged x + amt\<rparr>) \<longleftrightarrow>
      lifetime_cap x = Some (lifetime_charged x + amt)"
    using cap by (auto simp: cap_exhausted_def split: option.split)
  from run obtain s1 s3 where c: "credit_merchant_balance_for_token m (token x) amt OneOff s = (Ok (), s1)"
    and ap: "append_statement env i amt m OneOff ?now ?now (put_sub i y
        (if lifetime_cap x = Some (lifetime_charged x + amt) then cap_reach_event i y ?now s1 else s1)) = (Ok (), s3)"
    and t: "t = publish ''oneoff_ch'' (FundsEv (OneOffChargedEvent i (subscriber x) m (token x) amt
        (prepaid_balance x - amt) ?now)) s3"
    unfolding y_def
    by (cases "lifetime_cap x = Some (lifetime_charged x + amt)")
      (auto simp: settle_one_off_def ok_iff Let_def at f(3) simp del: can_transition_targets)
  show ?thesis
    by (rule that [OF f cap y_def c ap]) (auto simp: t)
qed

text \<open>What such a charge leaves behind, in the stores and in the books.\<close>

lemma one_off_changes:
  assumes "do_charge_one_off env i m amt s = (Ok (), t)"
  obtains x y where "authorized env m" and "subs s i = Some x" and "merchant x = m"
    and "\<not> is_expired x (ledger_timestamp env)" and "status x = Active \<or> status x = Paused"
    and "0 < amt" and "amt \<le> prepaid_balance x"
    and "\<forall>cap. lifetime_cap x = Some cap \<longrightarrow> lifetime_charged x + amt \<le> cap"
    and "y = x\<lparr>lifetime_charged := lifetime_charged x + amt, prepaid_balance := prepaid_balance x - amt,
          status := if lifetime_cap x = Some (lifetime_charged x + amt) then Cancelled else status x\<rparr>"
    and "charge_frame s t" and "subs t = (subs s)(i \<mapsto> y)"
    and "\<forall>m' tok. get_merchant_balance_by_token t m' tok = get_merchant_balance_by_token s m' tok
       + (if m' = m \<and> tok = token x then amt else 0)"
    and "finite_books s \<Longrightarrow> owed t = owed s \<and> finite_books t"
proof -
  obtain x s1 s2 s3 y where f: "authorized env m" and sub: "subs s i = Some x" and g: "merchant x = m"
    "\<not> is_expired x (ledger_timestamp env)" "status x = Active \<or> status x = Paused" "0 < amt" "amt \<le> prepaid_balance x"
    "\<forall>cap. lifetime_cap x = Some cap \<longrightarrow> lifetime_charged x + amt \<le> cap"
    and y: "y = x\<lparr>lifetime_charged := lifetime_charged x + amt, prepaid_balance := prepaid_balance x - amt,
          status := if lifetime_cap x = Some (lifetime_charged x + amt) then Cancelled else status x\<rparr>"
    and c: "credit_merchant_balance_for_token m (token x) amt OneOff s = (Ok (), s1)"
    and ap: "append_statement env i amt m OneOff (ledger_timestamp env) (ledger_timestamp env) (put_sub i y s2) = (Ok (), s3)"
    and s2: "s2 = s1 \<or> s2 = cap_reach_event i y (ledger_timestamp env) s1" and t: "\<exists>tp ev. t = publish tp ev s3"
    using assms(1) by (rule one_off_Ok)
  have s1: "sbs s1 = sbs s" by (rule credit_sbs [OF c])
  have s3: "sbs s3 = sbs (put_sub i y s2)" "mer s3 = mer s2" using append_Ok(5) [OF ap] by simp_all
  have subs_t: "subs t = (subs s)(i \<mapsto> y)" and mer: "mer t = mer s1"
    using t s2 s1 s3 by auto
  have bal: "get_merchant_balance_by_token t m' tok = get_merchant_balance_by_token s m' tok
       + (if m' = m \<and> tok = token x then amt else 0)" for m' tok
    using credit_balance [OF c, of m' tok] mer by (simp add: get_merchant_balance_by_token_def)
  have "can_transition (status x) (status y)" using g(3) by (auto simp: y)
  moreover have "y = x\<lparr>prepaid_balance := prepaid_balance x - amt, lifetime_charged := lifetime_charged x + amt,
      status := status y\<rparr>" by (simp add: y)
  ultimately have "evolves x y" using evolves_usage [OF _ g(5,6), of "status y"] g(4) by simp
  then have "charge_frame s2 (put_sub i y s2)" using s2 s1 sub by (intro frame_put_sub) auto
  moreover have "charge_frame s s2"
    using s2 charge_steps.keeps_result [OF credit_keeps c] by (auto intro: frame_cap_reach)
  moreover have "charge_frame (put_sub i y s2) s3" by (rule charge_steps.keeps_result [OF append_keeps ap])
  ultimately have "charge_frame s s3" by (blast intro: charge_steps.R_trans)
  then have frame: "charge_frame s t" using t frame_publish by blast
  have books: "owed t = owed s \<and> finite_books t" if "finite_books s"
  proof -
    note o1 = owed_credit [OF that c]
    have "subs s1 i = Some x" "subs t = (subs s1)(i \<mapsto> y)" using sub s1 subs_t by simp_all
    note change = owed_sub_change [OF o1(2) this(1) _ this(2)]
    show ?thesis using change o1 mer by (auto simp: fun_eq_iff y)
  qed
  show ?thesis
    by (rule that [OF f sub g y frame subs_t _ books]) (use bal in simp_all)
qed

text \<open>C17. A one-off charge that succeeds was signed by the subscription's merchant, on an unexpired active
  or paused subscription, for a positive amount within the prepaid balance and the lifetime cap; it
  moves exactly that amount, free of protocol fee, from the prepaid balance to the merchant and adds it
  to the lifetime total. The status stays as it is unless the total reaches the cap, which cancels the
  subscription. Nothing else is owed differently, and no tokens move. Whether the merchant is paused is not
  looked at.\<close>

theorem one_off_effect:
  assumes "do_charge_one_off env i m amt s = (Ok (), t)" and "finite_books s"
  shows "authorized env m \<and> (\<exists>x y. subs s i = Some x \<and> merchant x = m \<and> \<not> is_expired x (ledger_timestamp env) \<and>
    status x \<in> {Active, Paused} \<and> 0 < amt \<and> amt \<le> prepaid_balance x \<and>
    (\<forall>cap. lifetime_cap x = Some cap \<longrightarrow> lifetime_charged y \<le> cap) \<and>
    subs t = (subs s)(i \<mapsto> y) \<and>
    y = x\<lparr>prepaid_balance := prepaid_balance x - amt, lifetime_charged := lifetime_charged x + amt,
          status := if lifetime_cap x = Some (lifetime_charged x + amt) then Cancelled else status x\<rparr> \<and>
    (\<forall>m' tok. get_merchant_balance_by_token t m' tok = get_merchant_balance_by_token s m' tok
       + (if m' = m \<and> tok = token x then amt else 0))) \<and>
    owed t = owed s \<and> tokens t = tokens s \<and> total_accounted_key t = total_accounted_key s"
proof -
  obtain x y where f: "authorized env m" "subs s i = Some x" "merchant x = m" "\<not> is_expired x (ledger_timestamp env)"
    "status x = Active \<or> status x = Paused" "0 < amt" "amt \<le> prepaid_balance x"
    and cap: "\<forall>cap. lifetime_cap x = Some cap \<longrightarrow> lifetime_charged x + amt \<le> cap"
    and y: "y = x\<lparr>lifetime_charged := lifetime_charged x + amt, prepaid_balance := prepaid_balance x - amt,
          status := if lifetime_cap x = Some (lifetime_charged x + amt) then Cancelled else status x\<rparr>"
    and frame: "charge_frame s t" and subs_t: "subs t = (subs s)(i \<mapsto> y)"
    and bal: "\<forall>m' tok. get_merchant_balance_by_token t m' tok = get_merchant_balance_by_token s m' tok
       + (if m' = m \<and> tok = token x then amt else 0)"
    and books: "finite_books s \<Longrightarrow> owed t = owed s \<and> finite_books t"
    using assms(1) by (rule one_off_changes) blast
  have "tokens t = tokens s" "total_accounted_key t = total_accounted_key s"
    using frame by (simp_all add: charge_frame_def)
  with f cap subs_t bal books assms(2) show ?thesis
    by (intro conjI exI [of _ x] exI [of _ y]) (auto simp: y)
qed

end
