(* ===== verification/Plan_Laws.thy ===== *)
theory Plan_Laws
  imports Lifecycle_Laws
begin

text \<open>
  Credit limits, plan versions and concurrency limits: what their checks guarantee about the state
  after the operation they guard. Two operations are shown to have no effect on what they are named
  after, because they write under a key nothing reads.
\<close>

section \<open>Creation\<close>

lemma from_plan_Ok:
  assumes "do_create_subscription_from_plan env u p s = (Ok i, t)"
  obtains plan where "authorized env u" and "\<not> is_blocklisted s u" and "plan_key (pln s) p = Some plan"
    and "\<not> is_disabled plan" and "enforce_credit_limit_for_delta s u (plan_token plan) (plan_amount plan) = Ok ()"
    and "enforce_plan_concurrency_limit s u p = Ok ()" and "i = next_id_of s" and "i + 1 \<le> U32_MAX"
    and "\<exists>tp ev. t = publish tp ev (put_sub_plan i p (store_new_subscription i (i + 1)
        (new_subscription env u (plan_merchant plan) (plan_token plan) (plan_amount plan) (plan_interval_seconds plan)
          (plan_usage_enabled plan) (resolve_cap s (plan_merchant plan) (plan_lifetime_cap plan)) None) s))"
  using assms
  by (auto simp: do_create_subscription_from_plan_def ok_iff Let_def get_plan_template_def)

lemma put_sub_plan_simps [simp]:
  "sbs (put_sub_plan i p s) = sbs s" "mer (put_sub_plan i p s) = mer s" "adm (put_sub_plan i p s) = adm s"
  "tokens (put_sub_plan i p s) = tokens s" "total_accounted_key (put_sub_plan i p s) = total_accounted_key s"
  "lock_key (put_sub_plan i p s) = lock_key s" "plan_key (pln (put_sub_plan i p s)) = plan_key (pln s)"
  "sub_plan_key (pln (put_sub_plan i p s)) = (sub_plan_key (pln s))(i \<mapsto> p)"
  "merchant_index (put_sub_plan i p s) m = merchant_index s m" "token_index (put_sub_plan i p s) tok = token_index s tok"
  by (simp_all add: put_sub_plan_def merchant_index_def token_index_def)

text \<open>A new subscription enters the registry with the given terms; nothing but the registry and the events changes.\<close>

definition registered :: "vault \<Rightarrow> u32 \<Rightarrow> subscription \<Rightarrow> vault \<Rightarrow> bool" where
  "registered s i x t \<longleftrightarrow> i = next_id_of s \<and> next_id_of t = i + 1 \<and> next_id_of t \<le> U32_MAX \<and>
     subs t = (subs s)(i \<mapsto> x) \<and>
     (\<forall>k. merchant_index t k = merchant_index s k @ (if k = merchant x then [i] else [])) \<and>
     (\<forall>k. token_index t k = token_index s k @ (if k = token x then [i] else [])) \<and>
     t = s\<lparr>sbs := (sbs s)\<lparr>next_id_key := next_id_key (sbs t), sub_key := subs t,
          merchant_subs_key := merchant_subs_key (sbs t), token_subs_key := token_subs_key (sbs t)\<rparr>,
        pln := pln t, evlog := evlog t\<rparr>"

definition newly_made :: "env \<Rightarrow> address \<Rightarrow> address \<Rightarrow> address \<Rightarrow> i128 \<Rightarrow> u64 \<Rightarrow> bool \<Rightarrow> i128 option \<Rightarrow> u64 option \<Rightarrow> subscription \<Rightarrow> bool" where
  "newly_made env u m tok amt iv en cap ex x \<longleftrightarrow> subscriber x = u \<and> merchant x = m \<and> token x = tok \<and> amount x = amt \<and>
     interval_seconds x = iv \<and> usage_enabled x = en \<and> lifetime_cap x = cap \<and> expires_at x = ex \<and>
     status x = Active \<and> prepaid_balance x = 0 \<and> lifetime_charged x = 0 \<and> grace_start_timestamp x = None \<and>
     start_time x = ledger_timestamp env \<and> last_payment_timestamp x = ledger_timestamp env"

definition cap_in_force :: "vault \<Rightarrow> address \<Rightarrow> i128 option \<Rightarrow> i128 option" where
  "cap_in_force s m cap = (if cap \<noteq> None then cap else if get_merchant_cap_default s m \<noteq> None
     then get_merchant_cap_default s m else get_global_cap_default s)"

lemma resolve_cap_in_force: "resolve_cap s m cap = cap_in_force s m cap"
  by (simp add: resolve_cap_def cap_in_force_def split: option.split)

lemma new_subscription_made: "newly_made env u m tok amt iv en cap ex (new_subscription env u m tok amt iv en cap ex)"
  by (simp add: newly_made_def new_subscription_def)

lemma registered_store:
  assumes "i = next_id_of s" and "i + 1 \<le> U32_MAX" and new: "sbs t = sbs (store_new_subscription i (i + 1) x s)"
    and rest: "t = (store_new_subscription i (i + 1) x s)\<lparr>pln := pln t, evlog := evlog t\<rparr>"
  shows "registered s i x t"
proof -
  let ?n = "store_new_subscription i (i + 1) x s"
  have index: "merchant_index t k = merchant_index ?n k" "token_index t k = token_index ?n k" for k
    using new by (simp_all add: merchant_index_def token_index_def)
  have "adm t = adm s" "mer t = mer s" "stm t = stm s" "snp t = snp s" "met t = met s" "bil t = bil s" "tokens t = tokens s"
    "total_accounted_key t = total_accounted_key s" "blocklist_key t = blocklist_key s" "lock_key t = lock_key s"
    by (subst rest, simp)+
  moreover have "sbs t = (sbs s)\<lparr>next_id_key := next_id_key (sbs t), sub_key := subs t,
      merchant_subs_key := merchant_subs_key (sbs t), token_subs_key := token_subs_key (sbs t)\<rparr>"
    unfolding new by (simp add: store_new_subscription_def)
  ultimately have "t = s\<lparr>sbs := (sbs s)\<lparr>next_id_key := next_id_key (sbs t), sub_key := subs t,
      merchant_subs_key := merchant_subs_key (sbs t), token_subs_key := token_subs_key (sbs t)\<rparr>, pln := pln t, evlog := evlog t\<rparr>"
    by (intro vault.equality) simp_all
  moreover have "subs t = (subs s)(i \<mapsto> x)" "next_id_of t = i + 1" unfolding next_id_of_def new by simp_all
  ultimately show ?thesis
    using assms(1,2) unfolding registered_def by (intro conjI allI) (simp_all add: index)
qed

lemma create_made:
  assumes "do_create_subscription_with_token env u m tok amt iv en cap ex s = (Ok i, t)"
  shows "pln t = pln s \<and>
    (\<exists>x. newly_made env u m tok amt iv en (cap_in_force s m cap) ex x \<and> sub_ok x \<and> registered s i x t)"
proof -
  note c = create_Ok [OF assms]
  let ?x = "new_subscription env u m tok amt iv en (resolve_cap s m cap) ex"
  obtain tp ev where t: "t = publish tp ev (store_new_subscription i (i + 1) ?x s)" using c(11) by blast
  have "registered s i ?x t"
    using c(9,10) by (intro registered_store) (simp_all add: t publish_def)
  moreover have "sub_ok ?x" using c(4,5,7) by (auto simp: sub_ok_def)
  ultimately show ?thesis using new_subscription_made by (intro conjI exI [of _ ?x]) (auto simp: t resolve_cap_in_force)
qed

lemma from_plan_made:
  assumes "do_create_subscription_from_plan env u p s = (Ok i, t)"
  shows "authorized env u \<and> \<not> is_blocklisted s u \<and> pln t = (pln s)\<lparr>sub_plan_key := (sub_plan_key (pln s))(i \<mapsto> p)\<rparr> \<and>
    (\<exists>plan x. plan_key (pln s) p = Some plan \<and> \<not> is_disabled plan \<and>
      enforce_credit_limit_for_delta s u (plan_token plan) (plan_amount plan) = Ok () \<and>
      newly_made env u (plan_merchant plan) (plan_token plan) (plan_amount plan) (plan_interval_seconds plan)
        (plan_usage_enabled plan) (cap_in_force s (plan_merchant plan) (plan_lifetime_cap plan)) None x \<and>
      registered s i x t)"
  using assms
proof (rule from_plan_Ok)
  fix plan :: plan_template
  let ?x = "new_subscription env u (plan_merchant plan) (plan_token plan) (plan_amount plan) (plan_interval_seconds plan)
        (plan_usage_enabled plan) (resolve_cap s (plan_merchant plan) (plan_lifetime_cap plan)) None"
  assume f: "authorized env u" "\<not> is_blocklisted s u" "plan_key (pln s) p = Some plan" "\<not> is_disabled plan"
      "enforce_credit_limit_for_delta s u (plan_token plan) (plan_amount plan) = Ok ()"
    and i: "i = next_id_of s" "i + 1 \<le> U32_MAX"
    and "\<exists>tp ev. t = publish tp ev (put_sub_plan i p (store_new_subscription i (i + 1) ?x s))"
  then obtain tp ev where t: "t = publish tp ev (put_sub_plan i p (store_new_subscription i (i + 1) ?x s))" by blast
  have "registered s i ?x t"
    using i by (intro registered_store) (simp_all add: t publish_def put_sub_plan_def)
  moreover have "pln t = (pln s)\<lparr>sub_plan_key := (sub_plan_key (pln s))(i \<mapsto> p)\<rparr>" by (simp add: t put_sub_plan_def)
  ultimately show ?thesis
    using f new_subscription_made by (intro conjI exI [of _ plan] exI [of _ ?x]) (auto simp: resolve_cap_in_force)
qed

text \<open>C22. Creation of subscriptions, directly and from a plan. Both ask for the signature of a subscriber who is
  not barred, take the next free id, which stays below the bound of \<open>u32\<close>, and store an active, empty
  subscription with the given terms and, when it has no cap of its own, the merchant's default cap, else
  the global one; it enters the index of its merchant and of its token, and nothing else in the vault
  changes but, from a plan, the link to the plan. Direct creation checks its terms: a positive amount, an
  interval between a minute and a year, an accepted token and a cap that allows at least one charge.
  Creation from a plan takes the terms of a stored plan that is not disabled as they are: neither the
  amount, nor the cap, nor whether the token is still accepted is checked. Without a token the direct
  creation takes the configured one.\<close>

theorem create_effect:
  "(\<forall>t. do_create_subscription_with_token env u m tok amt iv en cap ex s = (Ok i, t) \<longrightarrow>
      authorized env u \<and> \<not> is_blocklisted s u \<and> is_token_accepted s tok \<and> 0 < amt \<and> 60 \<le> iv \<and> iv \<le> 31536000 \<and>
      (\<forall>c. cap_in_force s m cap = Some c \<longrightarrow> amt \<le> c) \<and> pln t = pln s \<and>
      (\<exists>x. newly_made env u m tok amt iv en (cap_in_force s m cap) ex x \<and> sub_ok x \<and> registered s i x t)) \<and>
   (\<forall>t. do_create_subscription env u m amt iv en cap ex s = (Ok i, t) \<longrightarrow>
      (\<exists>tok. get_token s = Ok tok \<and> do_create_subscription_with_token env u m tok amt iv en cap ex s = (Ok i, t))) \<and>
   (\<forall>t. do_create_subscription_from_plan env u p s = (Ok i, t) \<longrightarrow>
      authorized env u \<and> \<not> is_blocklisted s u \<and> pln t = (pln s)\<lparr>sub_plan_key := (sub_plan_key (pln s))(i \<mapsto> p)\<rparr> \<and>
      (\<exists>plan x. plan_key (pln s) p = Some plan \<and> \<not> is_disabled plan \<and>
        newly_made env u (plan_merchant plan) (plan_token plan) (plan_amount plan) (plan_interval_seconds plan)
          (plan_usage_enabled plan) (cap_in_force s (plan_merchant plan) (plan_lifetime_cap plan)) None x \<and>
        registered s i x t))"
proof (intro conjI; intro allI impI)
  fix t
  assume run: "do_create_subscription_with_token env u m tok amt iv en cap ex s = (Ok i, t)"
  show "authorized env u \<and> \<not> is_blocklisted s u \<and> is_token_accepted s tok \<and> 0 < amt \<and> 60 \<le> iv \<and> iv \<le> 31536000 \<and>
      (\<forall>c. cap_in_force s m cap = Some c \<longrightarrow> amt \<le> c) \<and> pln t = pln s \<and>
      (\<exists>x. newly_made env u m tok amt iv en (cap_in_force s m cap) ex x \<and> sub_ok x \<and> registered s i x t)"
    using create_Ok(1-7) [OF run] create_made [OF run] by (auto simp: resolve_cap_in_force)
qed (use from_plan_made in \<open>fastforce simp: do_create_subscription_def ok_iff\<close>)+

section \<open>Credit limits\<close>

text \<open>The exposure of a subscriber in a token: its prepaid money, and one charge for every active subscription.\<close>

definition exposed :: "address \<Rightarrow> address \<Rightarrow> subscription option \<Rightarrow> int" where
  "exposed who tok r =
    (case r of
       None \<Rightarrow> 0
     | Some x \<Rightarrow> if subscriber x = who \<and> token x = tok
         then prepaid_balance x + (if status x = Active then amount x else 0) else 0)"

definition exposure :: "vault \<Rightarrow> address \<Rightarrow> address \<Rightarrow> int" where
  "exposure s who tok = (\<Sum>i < next_id_of s. exposed who tok (subs s i))"

lemma exposure_loop_Ok:
  "exposure_loop m who tok ids e = Ok r \<Longrightarrow> r = e + (\<Sum>i \<leftarrow> ids. exposed who tok (m i))"
proof (induction ids arbitrary: e)
  case (Cons i ids)
  show ?case
  proof (cases "m i")
    case None
    then show ?thesis using Cons by (simp add: exposed_def)
  next
    case (Some x)
    show ?thesis
    proof (cases "subscriber x = who \<and> token x = tok")
      case True
      with Cons.prems Some obtain e' where e': "e' = e + exposed who tok (m i)"
        and "exposure_loop m who tok ids e' = Ok r"
        by (cases "status x = Active") (auto simp: ok_iff exposed_def add.assoc)
      with Cons.IH [of e'] show ?thesis by (simp add: add.assoc)
    next
      case False
      then have "exposure_loop m who tok ids e = Ok r" using Cons.prems Some by auto
      with Cons.IH False Some show ?thesis by (auto simp: exposed_def)
    qed
  qed
qed simp

lemma compute_exposure_Ok:
  "compute_subscriber_exposure s who tok = Ok r \<Longrightarrow> r = exposure s who tok"
  by (auto simp: compute_subscriber_exposure_def exposure_def ok_iff sum_list_distinct_conv_sum_set atLeast0LessThan
      dest!: exposure_loop_Ok)

lemma credit_check_Ok:
  assumes "enforce_credit_limit_for_delta s who tok d = Ok u" and "0 < d" and "get_subscriber_credit_limit s who tok \<noteq> 0"
  shows "exposure s who tok + d \<le> get_subscriber_credit_limit s who tok"
  using assms by (auto simp: enforce_credit_limit_for_delta_def Let_def ok_iff dest!: compute_exposure_Ok)

lemma exposure_registered:
  assumes "registered s i x t"
  shows "exposure t u tok = exposure s u tok + exposed u tok (Some x)"
proof -
  from assms have i: "i = next_id_of s" "next_id_of t = Suc i" and t: "subs t = (subs s)(i \<mapsto> x)"
    by (simp_all add: registered_def)
  have "exposure t u tok = (\<Sum>j < i. exposed u tok (subs t j)) + exposed u tok (subs t i)"
    by (simp add: exposure_def i(2))
  also have "\<dots> = exposure s u tok + exposed u tok (Some x)" by (simp add: t exposure_def i(1))
  finally show ?thesis .
qed

lemma exposure_put:
  assumes "i < next_id_of s" and "subs s i = Some x" and "subs t = (subs s)(i \<mapsto> y)" and "next_id_of t = next_id_of s"
  shows "exposure t u tok = exposure s u tok - exposed u tok (Some x) + exposed u tok (Some y)"
proof -
  let ?J = "{..< next_id_of s} - {i}"
  have "exposure t u tok = exposed u tok (subs t i) + (\<Sum>j \<in> ?J. exposed u tok (subs t j))"
    using assms(1) by (simp add: exposure_def assms(4) sum.remove)
  also have "(\<Sum>j \<in> ?J. exposed u tok (subs t j)) = (\<Sum>j \<in> ?J. exposed u tok (subs s j))"
    by (rule sum.cong) (simp_all add: assms(3))
  also have "\<dots> = exposure s u tok - exposed u tok (subs s i)"
    using assms(1) by (simp add: exposure_def sum.remove [of _ i])
  finally show ?thesis by (simp add: assms(2,3))
qed

lemma exposed_new: "newly_made env u m tok amt iv en cap ex x \<Longrightarrow> exposed u tok (Some x) = amt"
  by (simp add: newly_made_def exposed_def)

text \<open>A deposit covers the next charge again.\<close>

definition reactivates :: "subscription \<Rightarrow> i128 \<Rightarrow> bool" where
  "reactivates x amt \<longleftrightarrow> status x \<in> {InsufficientBalance, GracePeriod} \<and> amount x \<le> prepaid_balance x + amt"

lemma deposit_exposure:
  assumes "do_deposit_funds env i u amt s = (Ok (), t)" and "subs s i = Some x" and "i < next_id_of s"
  shows "enforce_credit_limit_for_delta s u (token x) amt = Ok ()"
    and "exposure t u (token x) = exposure s u (token x) + amt + (if reactivates x amt then amount x else 0)"
proof -
  from assms(1,2) have d: "subscriber x = u" "enforce_credit_limit_for_delta s u (token x) amt = Ok ()"
    and t: "subs t = (subs s)(i \<mapsto> recovered (x\<lparr>prepaid_balance := prepaid_balance x + amt\<rparr>))"
    and "sbs t = (sbs s)\<lparr>sub_key := subs t\<rparr>"
    by (auto elim!: deposit_Ok)
  then have "next_id_of t = next_id_of s" by (simp add: next_id_of_def)
  from exposure_put [OF assms(3,2) t this, of u "token x"] d(1)
  show "exposure t u (token x) = exposure s u (token x) + amt + (if reactivates x amt then amount x else 0)"
    by (auto simp: exposed_def recovered_def reactivates_def)
  show "enforce_credit_limit_for_delta s u (token x) amt = Ok ()" by (fact d(2))
qed

text \<open>C24. What a credit limit does, where the admin has set one. Every creation, direct or from a plan, leaves
  the exposure of the subscriber in the token within the limit (a plan with an amount of zero or less is
  not checked, and raises nothing). A deposit is taken only if the exposure before it and the deposit
  are within the limit together; it raises the exposure by itself and, if it reactivates the
  subscription, by one charge more, which nothing checks: the exposure then exceeds the limit by at most
  that charge. Resumption and migration to another plan are not checked either.\<close>

theorem credit_limit_enforced:
  assumes "get_subscriber_credit_limit s u tok = limit" and "limit \<noteq> 0"
  shows "(\<forall>i t. do_create_subscription_with_token env u m tok amt iv en cap ex s = (Ok i, t) \<longrightarrow> exposure t u tok \<le> limit) \<and>
    (\<forall>i t. do_create_subscription env u m amt iv en cap ex s = (Ok i, t) \<and> get_token s = Ok tok \<longrightarrow> exposure t u tok \<le> limit) \<and>
    (\<forall>p i t plan. do_create_subscription_from_plan env u p s = (Ok i, t) \<and> plan_key (pln s) p = Some plan \<and> plan_token plan = tok \<longrightarrow>
       exposure t u tok \<le> (if 0 < plan_amount plan then limit else exposure s u tok)) \<and>
    (\<forall>i t x. do_deposit_funds env i u amt s = (Ok (), t) \<and> 0 < amt \<and> subs s i = Some x \<and> token x = tok \<and> i < next_id_of s \<longrightarrow>
       exposure s u tok + amt \<le> limit \<and>
       exposure t u tok = exposure s u tok + amt + (if reactivates x amt then amount x else 0))"
proof -
  have create: "exposure t u tok \<le> limit" if run: "do_create_subscription_with_token env u m tok amt iv en cap ex s = (Ok i, t)" for i t
    using create_made [OF run] create_Ok(3,8) [OF run] credit_check_Ok assms by (fastforce simp: exposure_registered exposed_new)
  then have default: "exposure t u tok \<le> limit"
    if "do_create_subscription env u m amt iv en cap ex s = (Ok i, t)" "get_token s = Ok tok" for i t
    using that by (auto simp: do_create_subscription_def ok_iff)
  have plan: "exposure t u tok \<le> (if 0 < plan_amount plan then limit else exposure s u tok)"
    if run: "do_create_subscription_from_plan env u p s = (Ok i, t)" "plan_key (pln s) p = Some plan" "plan_token plan = tok"
    for p i t and plan :: plan_template
    using from_plan_made [OF run(1)] credit_check_Ok assms run(2,3) by (fastforce simp: exposure_registered exposed_new)
  have deposit: "exposure s u tok + amt \<le> limit \<and>
       exposure t u tok = exposure s u tok + amt + (if reactivates x amt then amount x else 0)"
    if "do_deposit_funds env i u amt s = (Ok (), t)" "0 < amt" "subs s i = Some x" "token x = tok" "i < next_id_of s" for i t x
    using deposit_exposure [OF that(1,3,5)] credit_check_Ok that(2,4) assms by blast
  show ?thesis using create default plan deposit by blast
qed

section \<open>Concurrency limits\<close>

definition active_on_plan :: "vault \<Rightarrow> address \<Rightarrow> u32 \<Rightarrow> u32 list" where
  "active_on_plan s who p = filter (\<lambda>i. sub_plan_key (pln s) i = Some p \<and>
     (\<exists>x. subs s i = Some x \<and> subscriber x = who \<and> status x = Active)) [0 ..< next_id_of s]"

lemma count_loop_eq:
  assumes "n + length ids \<le> U32_MAX"
  shows "count_loop s who p ids n = n + length (filter (\<lambda>i. sub_plan_key (pln s) i = Some p \<and>
     (\<exists>x. subs s i = Some x \<and> subscriber x = who \<and> status x = Active)) ids)"
  using assms
proof (induction ids arbitrary: n)
  case (Cons i ids)
  then show ?case by (auto simp: saturating_add_u32_def split: option.split)
qed simp

text \<open>C25. With a limit set on a plan, creating a subscription from it leaves the subscriber with at most
  that many active subscriptions on the plan, the new one included.\<close>

theorem plan_limit_enforced:
  assumes "do_create_subscription_from_plan env u p s = (Ok i, t)" and "get_plan_max_active s p \<noteq> 0"
  shows "i \<in> set (active_on_plan t u p) \<and> length (active_on_plan t u p) \<le> get_plan_max_active s p"
proof -
  obtain plan :: plan_template where lim: "enforce_plan_concurrency_limit s u p = Ok ()" and i: "i = next_id_of s" "i + 1 \<le> U32_MAX"
    and "\<exists>tp ev. t = publish tp ev (put_sub_plan i p (store_new_subscription i (i + 1)
        (new_subscription env u (plan_merchant plan) (plan_token plan) (plan_amount plan) (plan_interval_seconds plan)
          (plan_usage_enabled plan) (resolve_cap s (plan_merchant plan) (plan_lifetime_cap plan)) None) s))"
    using assms(1) by (rule from_plan_Ok)
  then obtain tp ev where t: "t = publish tp ev (put_sub_plan i p (store_new_subscription i (i + 1)
        (new_subscription env u (plan_merchant plan) (plan_token plan) (plan_amount plan) (plan_interval_seconds plan)
          (plan_usage_enabled plan) (resolve_cap s (plan_merchant plan) (plan_lifetime_cap plan)) None) s))" by blast
  have "next_id_of s \<le> U32_MAX" using i by simp
  with lim assms(2) have "length (active_on_plan s u p) < get_plan_max_active s p"
    by (auto simp: enforce_plan_concurrency_limit_def count_active_subscriptions_for_plan_def Let_def ok_iff
        count_loop_eq active_on_plan_def not_le)
  moreover have "active_on_plan t u p = active_on_plan s u p @ [i]"
  proof -
    have "next_id_of t = Suc i" by (simp add: t next_id_of_def)
    moreover have "filter (\<lambda>j. sub_plan_key (pln t) j = Some p \<and>
        (\<exists>x. subs t j = Some x \<and> subscriber x = u \<and> status x = Active)) [0 ..< i] = active_on_plan s u p"
      unfolding active_on_plan_def i(1) by (rule filter_cong) (auto simp: t i(1))
    moreover have "sub_plan_key (pln t) i = Some p \<and> (\<exists>x. subs t i = Some x \<and> subscriber x = u \<and> status x = Active)"
      by (simp add: t)
    ultimately show ?thesis unfolding active_on_plan_def [of t] by simp
  qed
  ultimately show ?thesis by simp
qed

section \<open>Versions of a plan\<close>

lemma next_plan_id_simps:
  "next_plan_id s = (unwrap_or (next_plan_id_key (pln s)) 0, snd (next_plan_id s))"
  "plan_key (pln (snd (next_plan_id s))) = plan_key (pln s)" "sbs (snd (next_plan_id s)) = sbs s"
  "sub_plan_key (pln (snd (next_plan_id s))) = sub_plan_key (pln s)"
  "mer (snd (next_plan_id s)) = mer s" "adm (snd (next_plan_id s)) = adm s" "tokens (snd (next_plan_id s)) = tokens s"
  "total_accounted_key (snd (next_plan_id s)) = total_accounted_key s" "lock_key (snd (next_plan_id s)) = lock_key s"
  by (simp_all add: next_plan_id_def Let_def)

lemma put_plan_simps [simp]:
  "plan_key (pln (put_plan p x s)) = (plan_key (pln s))(p \<mapsto> x)" "sbs (put_plan p x s) = sbs s"
  "mer (put_plan p x s) = mer s" "adm (put_plan p x s) = adm s" "tokens (put_plan p x s) = tokens s"
  "sub_plan_key (pln (put_plan p x s)) = sub_plan_key (pln s)"
  "total_accounted_key (put_plan p x s) = total_accounted_key s" "lock_key (put_plan p x s) = lock_key s"
  by (simp_all add: put_plan_def)

lemma migrate_Ok:
  assumes "do_migrate_subscription_to_plan env u i p s = (Ok (), t)"
  obtains x q and old new :: plan_template where "subs s i = Some x" and "subscriber x = u" and "authorized env u"
    and "sub_plan_key (pln s) i = Some q" and "plan_key (pln s) q = Some old" and "plan_key (pln s) p = Some new"
    and "template_key new = template_key old" and "version old < version new" and "plan_token new = token x"
    and "plan_usage_enabled new = usage_enabled x" and "\<forall>c. plan_lifetime_cap new = Some c \<longrightarrow> lifetime_charged x \<le> c"
    and "\<exists>tp ev. t = publish tp ev (put_sub_plan i p (put_sub i (x\<lparr>lifetime_cap := plan_lifetime_cap new,
       amount := plan_amount new, interval_seconds := plan_interval_seconds new\<rparr>) s))"
proof -
  from assms obtain x q old and new :: plan_template where f: "subs s i = Some x" "subscriber x = u" "authorized env u"
      "sub_plan_key (pln s) i = Some q" "plan_key (pln s) q = Some old" "plan_key (pln s) p = Some new"
      "template_key new = template_key old" "version old < version new" "plan_token new = token x"
    and mode: "plan_usage_enabled new = usage_enabled x"
    and cap: "\<not> (case plan_lifetime_cap new of Some cap \<Rightarrow> lifetime_charged x > cap | None \<Rightarrow> False)"
    and t: "t = publish ''subscription_migrated'' (FundsEv (SubscriptionMigratedEvent i (template_key new) q p
          (plan_merchant new) u (ledger_timestamp env)))
        (put_sub_plan i p (put_sub i (x\<lparr>lifetime_cap := plan_lifetime_cap new, amount := plan_amount new,
           interval_seconds := plan_interval_seconds new, usage_enabled := plan_usage_enabled new\<rparr>) s))"
    by (auto simp: do_migrate_subscription_to_plan_def ok_iff Let_def get_plan_template_def not_le)
  have "x\<lparr>lifetime_cap := plan_lifetime_cap new, amount := plan_amount new,
           interval_seconds := plan_interval_seconds new, usage_enabled := usage_enabled x\<rparr> =
        x\<lparr>lifetime_cap := plan_lifetime_cap new, amount := plan_amount new,
           interval_seconds := plan_interval_seconds new\<rparr>" by simp
  with f mode cap t show thesis
    by (intro that [of x q old new]) (auto split: option.splits)
qed

text \<open>C26. Updating a plan, which only its merchant can, leaves the template itself as it is and adds a new
  version under a fresh number, of the same family, token and usage mode, one version up; and a
  subscription is only ever migrated by its own subscriber, to a strictly later version of the family
  it was created from, in the same token and mode, with a cap not yet exceeded, keeping its money,
  its parties, its status and what it was charged.\<close>

theorem plan_versions:
  "(\<forall>p' t. do_update_plan_template env m p amt iv en cap s = (Ok p', t) \<longrightarrow>
     authorized env m \<and> p' = unwrap_or (next_plan_id_key (pln s)) 0 \<and> sbs t = sbs s \<and>
     (\<forall>q. q \<noteq> p' \<longrightarrow> plan_key (pln t) q = plan_key (pln s) q) \<and>
     (\<exists>old new. plan_key (pln s) p = Some old \<and> plan_key (pln t) p' = Some new \<and>
        plan_merchant old = m \<and> plan_merchant new = m \<and> template_key new = template_key old \<and>
        version new = version old + 1 \<and> plan_token new = plan_token old \<and>
        plan_usage_enabled new = plan_usage_enabled old \<and> plan_amount new = amt \<and>
        60 \<le> plan_interval_seconds new \<and> plan_interval_seconds new \<le> 31536000)) \<and>
   (\<forall>t. do_migrate_subscription_to_plan env u i p s = (Ok (), t) \<longrightarrow>
     (\<exists>x q old new. subs s i = Some x \<and> subscriber x = u \<and> authorized env u \<and> sub_plan_key (pln s) i = Some q \<and>
        plan_key (pln s) q = Some old \<and> plan_key (pln s) p = Some new \<and> template_key new = template_key old \<and>
        version old < version new \<and> plan_token new = token x \<and> plan_usage_enabled new = usage_enabled x \<and>
        (\<forall>c. plan_lifetime_cap new = Some c \<longrightarrow> lifetime_charged x \<le> c) \<and>
        subs t = (subs s)(i \<mapsto> x\<lparr>lifetime_cap := plan_lifetime_cap new, amount := plan_amount new,
           interval_seconds := plan_interval_seconds new\<rparr>) \<and>
        sub_plan_key (pln t) = (sub_plan_key (pln s))(i \<mapsto> p) \<and> plan_key (pln t) = plan_key (pln s) \<and>
        mer t = mer s \<and> tokens t = tokens s))"
proof (rule conjI; intro allI impI)
  fix p' t
  assume "do_update_plan_template env m p amt iv en cap s = (Ok p', t)"
  then show "authorized env m \<and> p' = unwrap_or (next_plan_id_key (pln s)) 0 \<and> sbs t = sbs s \<and>
     (\<forall>q. q \<noteq> p' \<longrightarrow> plan_key (pln t) q = plan_key (pln s) q) \<and>
     (\<exists>old new. plan_key (pln s) p = Some old \<and> plan_key (pln t) p' = Some new \<and>
        plan_merchant old = m \<and> plan_merchant new = m \<and> template_key new = template_key old \<and>
        version new = version old + 1 \<and> plan_token new = plan_token old \<and>
        plan_usage_enabled new = plan_usage_enabled old \<and> plan_amount new = amt \<and>
        60 \<le> plan_interval_seconds new \<and> plan_interval_seconds new \<le> 31536000)"
    by (auto simp: do_update_plan_template_def next_plan_id_def Let_def ok_iff get_plan_template_def)
next
  fix t
  assume "do_migrate_subscription_to_plan env u i p s = (Ok (), t)"
  then show "\<exists>x q old new. subs s i = Some x \<and> subscriber x = u \<and> authorized env u \<and> sub_plan_key (pln s) i = Some q \<and>
        plan_key (pln s) q = Some old \<and> plan_key (pln s) p = Some new \<and> template_key new = template_key old \<and>
        version old < version new \<and> plan_token new = token x \<and> plan_usage_enabled new = usage_enabled x \<and>
        (\<forall>c. plan_lifetime_cap new = Some c \<longrightarrow> lifetime_charged x \<le> c) \<and>
        subs t = (subs s)(i \<mapsto> x\<lparr>lifetime_cap := plan_lifetime_cap new, amount := plan_amount new,
           interval_seconds := plan_interval_seconds new\<rparr>) \<and>
        sub_plan_key (pln t) = (sub_plan_key (pln s))(i \<mapsto> p) \<and> plan_key (pln t) = plan_key (pln s) \<and>
        mer t = mer s \<and> tokens t = tokens s"
    by (rule migrate_Ok) (intro exI conjI, auto)
qed

section \<open>Two operations without effect\<close>

text \<open>Disabling a plan changes no plan: it can still be read unchanged and every subscription that
  could be created from it before can be created from it afterwards. Setting a subscription's lifetime
  cap changes no subscription: the cap in force stays what it was.\<close>

theorem disable_and_cap_update_have_no_effect:
  "(\<forall>t. do_disable_plan_template env m p s = (Ok (), t) \<longrightarrow>
     get_plan_template t = get_plan_template s \<and>
     fst (do_create_subscription_from_plan env' u p t) = fst (do_create_subscription_from_plan env' u p s)) \<and>
   (\<forall>t. do_update_subscription_cap env a i cap s = (Ok (), t) \<longrightarrow>
     subs t = subs s \<and> get_cap_info t i = get_cap_info s i)"
proof (intro conjI allI impI)
  fix t
  assume "do_disable_plan_template env m p s = (Ok (), t)"
  then have same: "sbs t = sbs s" "adm t = adm s" "blocklist_key t = blocklist_key s" "plan_key (pln t) = plan_key (pln s)"
    "sub_plan_key (pln t) = sub_plan_key (pln s)" "plan_max_active_key (pln t) = plan_max_active_key (pln s)"
    by (auto simp: do_disable_plan_template_def ok_iff split: if_splits)
  show plan: "get_plan_template t = get_plan_template s"
    by (rule ext) (simp add: get_plan_template_def same)
  have count: "count_loop t u p ids n = count_loop s u p ids n" for ids n
    by (induction ids arbitrary: n) (auto simp: same split: option.split)
  have n: "next_id_of t = next_id_of s" by (simp add: next_id_of_def same)
  have active: "count_active_subscriptions_for_plan t u p = count_active_subscriptions_for_plan s u p"
    by (simp add: count_active_subscriptions_for_plan_def n count)
  have expo: "compute_subscriber_exposure t = compute_subscriber_exposure s"
    by (simp add: fun_eq_iff compute_subscriber_exposure_def n same)
  have a: "enforce_plan_concurrency_limit t u p = enforce_plan_concurrency_limit s u p"
    "require_not_blocklisted t u = require_not_blocklisted s u"
    "enforce_credit_limit_for_delta t = enforce_credit_limit_for_delta s"
    unfolding enforce_plan_concurrency_limit_def active enforce_credit_limit_for_delta_def expo fun_eq_iff
    by (simp_all add: get_plan_max_active_def require_not_blocklisted_def is_blocklisted_def
        get_subscriber_credit_limit_def same)
  show "fst (do_create_subscription_from_plan env' u p t) = fst (do_create_subscription_from_plan env' u p s)"
    unfolding do_create_subscription_from_plan_def a plan n Let_def
    by (cases "require_auth env' u"; cases "require_not_blocklisted s u"; cases "get_plan_template s p";
        cases "enforce_plan_concurrency_limit s u p"; cases "checked_add_u32 (next_id_of s) 1";
        cases "enforce_credit_limit_for_delta s u (plan_token (case get_plan_template s p of Ok x \<Rightarrow> x))
          (plan_amount (case get_plan_template s p of Ok x \<Rightarrow> x))") simp_all
next
  fix t
  assume "do_update_subscription_cap env a i cap s = (Ok (), t)"
  then show "subs t = subs s" by (auto simp: do_update_subscription_cap_def ok_iff)
  then show "get_cap_info t i = get_cap_info s i" by (simp add: get_cap_info_def get_subscription_def)
qed

end
