(* ===== verification/Merchant_Laws.thy ===== *)
theory Merchant_Laws
  imports Vault_Laws
begin

text \<open>
  How merchants get their money out, and what the merchant configuration guarantees. Both payouts
  have one shape, so their common facts are an elimination rule each and the books follow from
  \<open>owed_merchant_change\<close>.
\<close>

section \<open>Payouts\<close>

lemma set_merchant_balance_simps [simp]:
  "sbs (set_merchant_balance m tok b s) = sbs s" "adm (set_merchant_balance m tok b s) = adm s"
  "pln (set_merchant_balance m tok b s) = pln s" "tokens (set_merchant_balance m tok b s) = tokens s"
  "total_accounted_key (set_merchant_balance m tok b s) = total_accounted_key s"
  "lock_key (set_merchant_balance m tok b s) = lock_key s"
  "merchant_balances (set_merchant_balance m tok b s) = (merchant_balances s)((m, tok) \<mapsto> b)"
  by (simp_all add: set_merchant_balance_def)

lemma set_earnings_simps [simp]:
  "sbs (set_merchant_token_earnings m tok e s) = sbs s" "adm (set_merchant_token_earnings m tok e s) = adm s"
  "pln (set_merchant_token_earnings m tok e s) = pln s" "tokens (set_merchant_token_earnings m tok e s) = tokens s"
  "total_accounted_key (set_merchant_token_earnings m tok e s) = total_accounted_key s"
  "lock_key (set_merchant_token_earnings m tok e s) = lock_key s"
  "merchant_balances (set_merchant_token_earnings m tok e s) = merchant_balances s"
  by (simp_all add: set_merchant_token_earnings_def)

text \<open>What a payout of \<open>amt\<close> to \<open>dst\<close> from the balance of \<open>m\<close> does to everything but the accounted total.\<close>

definition paid_out :: "env \<Rightarrow> address \<Rightarrow> address \<Rightarrow> address \<Rightarrow> i128 \<Rightarrow> vault \<Rightarrow> vault \<Rightarrow> bool" where
  "paid_out env m tok dst amt s t \<longleftrightarrow>
     authorized env m \<and> 0 < amt \<and> amt \<le> get_merchant_balance_by_token s m tok \<and>
     token_transfer env tok (current_contract_address env) dst amt (tokens s) = Some (tokens t) \<and>
     merchant_balances t = (merchant_balances s)((m, tok) \<mapsto> get_merchant_balance_by_token s m tok - amt) \<and>
     sbs t = sbs s \<and> adm t = adm s \<and> pln t = pln s \<and> lock_key t = lock_key s"

lemma withdraw_merchant_Ok:
  assumes "withdraw_merchant_funds_for_token env m tok amt s = (Ok u, t)"
  shows "paid_out env m tok m amt s t" and "is_token_accepted s tok"
    and "get_total_accounted t k = get_total_accounted s k - (if k = tok then amt else 0)"
proof -
  let ?b = "get_merchant_balance_by_token s m tok - amt"
  from assms obtain l w where f: "authorized env m" "0 < amt" "amt \<le> get_merchant_balance_by_token s m tok"
    and "is_token_accepted s tok"
    and sub: "sub_total_accounted tok amt (set_merchant_balance m tok ?b s) = (Ok (), w)"
    and tr: "token_transfer env tok (current_contract_address env) m amt (tokens w) = Some l"
    and t: "t = (publish ''withdrawn'' (FundsEv (MerchantWithdrawalEvent m tok amt ?b (ledger_timestamp env))) w)\<lparr>tokens := l\<rparr>"
    by (auto simp: withdraw_merchant_funds_for_token_def ok_iff Let_def not_le not_less)
  from sub have "tokens w = tokens s" "sbs w = sbs s" "adm w = adm s" "pln w = pln s" "lock_key w = lock_key s"
    "merchant_balances w = (merchant_balances s)((m, tok) \<mapsto> ?b)"
    by (auto simp: sub_total_accounted_Ok split: if_splits)
  with f tr t show "paid_out env m tok m amt s t" by (simp add: paid_out_def)
  show "is_token_accepted s tok" by fact
  show "get_total_accounted t k = get_total_accounted s k - (if k = tok then amt else 0)"
    using accounted.decrease_reading [OF sub, of k] f(2) t by (simp add: get_total_accounted_def)
qed

lemma merchant_refund_Ok:
  assumes "merchant_refund env m u tok amt s = (Ok v, t)"
  shows "paid_out env m tok u amt s t" and "get_total_accounted t k = get_total_accounted s k"
  using assms
  by (auto simp: merchant_refund_def paid_out_def ok_iff Let_def not_le not_less get_total_accounted_def)

lemma paid_out_books:
  assumes "paid_out env m tok dst amt s t" and "finite_books s"
  shows "owed t k = owed s k - (if k = tok then amt else 0)" and "finite_books t"
proof -
  have p: "subs t = subs s" "merchant_balances t = (merchant_balances s)((m, tok) \<mapsto> get_merchant_balance_by_token s m tok - amt)"
    "0 \<le> get_merchant_balance_by_token s m tok - amt"
    using assms(1) by (simp_all add: paid_out_def)
  show "owed t k = owed s k - (if k = tok then amt else 0)" and "finite_books t"
    using owed_merchant_change [OF assms(2) p] by simp_all
qed

lemma paid_out_balance:
  "paid_out env m tok dst amt s t \<Longrightarrow> get_merchant_balance_by_token t m' tok' =
     get_merchant_balance_by_token s m' tok' - (if m' = m \<and> tok' = tok then amt else 0)"
  by (auto simp: paid_out_def get_merchant_balance_by_token_def)

text \<open>C16. A merchant withdraws, with its own signature and only in an accepted token, a positive amount
  within its balance: exactly that amount of tokens leaves the vault for the merchant, and its balance,
  what the vault owes and the accounted total fall by exactly that amount. A refund pays a subscriber
  out of the merchant's balance in the same way, but leaves the accounted total where it was, so the
  gap between the vault's tokens and that total shrinks by the amount refunded.\<close>

theorem merchant_payouts:
  assumes "sep41 (token_transfer env)" and "finite_books s"
  shows "(\<forall>t. withdraw_merchant_funds_for_token env m tok amt s = (Ok (), t) \<longrightarrow>
      authorized env m \<and> is_token_accepted s tok \<and> 0 < amt \<and> amt \<le> get_merchant_balance_by_token s m tok \<and>
      tokens t = moved tok (current_contract_address env) m amt (tokens s) \<and> sbs t = sbs s \<and>
      (\<forall>m' k. get_merchant_balance_by_token t m' k = get_merchant_balance_by_token s m' k - (if m' = m \<and> k = tok then amt else 0)) \<and>
      (\<forall>k. owed t k = owed s k - (if k = tok then amt else 0)) \<and>
      (\<forall>k. get_total_accounted t k = get_total_accounted s k - (if k = tok then amt else 0))) \<and>
    (\<forall>t. merchant_refund env m u tok amt s = (Ok (), t) \<longrightarrow>
      authorized env m \<and> 0 < amt \<and> amt \<le> get_merchant_balance_by_token s m tok \<and>
      tokens t = moved tok (current_contract_address env) u amt (tokens s) \<and> sbs t = sbs s \<and>
      (\<forall>m' k. get_merchant_balance_by_token t m' k = get_merchant_balance_by_token s m' k - (if m' = m \<and> k = tok then amt else 0)) \<and>
      (\<forall>k. owed t k = owed s k - (if k = tok then amt else 0)) \<and>
      (\<forall>k. get_total_accounted t k = get_total_accounted s k) \<and>
      (u \<noteq> current_contract_address env \<longrightarrow>
        tokens t tok (current_contract_address env) - get_total_accounted t tok =
        tokens s tok (current_contract_address env) - get_total_accounted s tok - amt))"
proof (rule conjI; intro allI impI)
  fix t
  assume "withdraw_merchant_funds_for_token env m tok amt s = (Ok (), t)"
  note w = withdraw_merchant_Ok [OF this]
  have "token_transfer env tok (current_contract_address env) m amt (tokens s) = Some (tokens t)"
    using w(1) by (simp add: paid_out_def)
  with w(2,3) paid_out_balance [OF w(1)] paid_out_books(1) [OF w(1) assms(2)] w(1) [unfolded paid_out_def]
    sep41D(3) [OF assms(1)]
  show "authorized env m \<and> is_token_accepted s tok \<and> 0 < amt \<and> amt \<le> get_merchant_balance_by_token s m tok \<and>
      tokens t = moved tok (current_contract_address env) m amt (tokens s) \<and> sbs t = sbs s \<and>
      (\<forall>m' k. get_merchant_balance_by_token t m' k = get_merchant_balance_by_token s m' k - (if m' = m \<and> k = tok then amt else 0)) \<and>
      (\<forall>k. owed t k = owed s k - (if k = tok then amt else 0)) \<and>
      (\<forall>k. get_total_accounted t k = get_total_accounted s k - (if k = tok then amt else 0))"
    by blast
next
  fix t
  assume "merchant_refund env m u tok amt s = (Ok (), t)"
  note w = merchant_refund_Ok [OF this]
  have tr: "tokens t = moved tok (current_contract_address env) u amt (tokens s)"
    using w(1) sep41D(3) [OF assms(1)] by (simp add: paid_out_def)
  then have "u \<noteq> current_contract_address env \<longrightarrow>
        tokens t tok (current_contract_address env) - get_total_accounted t tok =
        tokens s tok (current_contract_address env) - get_total_accounted s tok - amt"
    by (simp add: w(2) moved_simps)
  with tr w(2) paid_out_balance [OF w(1)] paid_out_books(1) [OF w(1) assms(2)] w(1) [unfolded paid_out_def]
  show "authorized env m \<and> 0 < amt \<and> amt \<le> get_merchant_balance_by_token s m tok \<and>
      tokens t = moved tok (current_contract_address env) u amt (tokens s) \<and> sbs t = sbs s \<and>
      (\<forall>m' k. get_merchant_balance_by_token t m' k = get_merchant_balance_by_token s m' k - (if m' = m \<and> k = tok then amt else 0)) \<and>
      (\<forall>k. owed t k = owed s k - (if k = tok then amt else 0)) \<and>
      (\<forall>k. get_total_accounted t k = get_total_accounted s k) \<and>
      (u \<noteq> current_contract_address env \<longrightarrow>
        tokens t tok (current_contract_address env) - get_total_accounted t tok =
        tokens s tok (current_contract_address env) - get_total_accounted s tok - amt)"
    by blast
qed

section \<open>Configuration\<close>

definition config_ok :: "merchant_config \<Rightarrow> bool" where
  "config_ok c \<longleftrightarrow> fee_bips c \<le> MAX_FEE_BIPS \<and> is_valid_allowed_operations (allowed_operations c) \<and>
     allowed_operations c AND OP_CHARGE \<noteq> 0"

definition configs_ok :: "vault \<Rightarrow> bool" where
  "configs_ok s \<longleftrightarrow> (\<forall>m c. get_merchant_config s m = Some c \<longrightarrow> config_ok c)"

lemma validate_config_Ok [ok_iff]:
  "validate_merchant_config_input p f ops = Ok u \<longleftrightarrow>
     f \<le> MAX_FEE_BIPS \<and> is_valid_allowed_operations ops \<and> ops AND OP_CHARGE \<noteq> 0"
  by (auto simp: validate_merchant_config_input_def)

text \<open>An update of a configuration changes the named fields and checks the values it is given.\<close>

definition updated_config :: "env \<Rightarrow> address option \<Rightarrow> i32 option \<Rightarrow> (32 word) option \<Rightarrow> bool option \<Rightarrow> address option option \<Rightarrow>
    string option \<Rightarrow> bool option \<Rightarrow> merchant_config \<Rightarrow> merchant_config" where
  "updated_config env np nf nops na nfa nurl npa old = old\<lparr>payout_address := unwrap_or np (payout_address old),
     fee_bips := unwrap_or nf (fee_bips old), allowed_operations := unwrap_or nops (allowed_operations old),
     is_active := unwrap_or na (is_active old), fee_address := unwrap_or nfa (fee_address old),
     redirect_url := unwrap_or nurl (redirect_url old), is_paused := unwrap_or npa (is_paused old),
     last_updated := ledger_timestamp env\<rparr>"

lemma update_merchant_config_Ok:
  assumes run: "update_merchant_config env m np nf nops na nfa nurl npa s = (Ok c, t)"
  obtains old where "merchant_config_key (mer s) m = Some old" and "authorized env m"
    and "c = updated_config env np nf nops na nfa nurl npa old"
    and "\<forall>b. nf = Some b \<longrightarrow> b \<le> MAX_FEE_BIPS"
    and "\<forall>ops. nops = Some ops \<longrightarrow> is_valid_allowed_operations ops \<and> ops AND OP_CHARGE \<noteq> 0"
    and "merchant_config_key (mer t) = (merchant_config_key (mer s))(m \<mapsto> c)"
proof -
  from run obtain old where old: "merchant_config_key (mer s) m = Some old" and a: "authorized env m"
    by (auto simp: update_merchant_config_def ok_iff)
  have "c = updated_config env np nf nops na nfa nurl npa old"
    and "\<forall>b. nf = Some b \<longrightarrow> b \<le> MAX_FEE_BIPS"
    and "\<forall>ops. nops = Some ops \<longrightarrow> is_valid_allowed_operations ops \<and> ops AND OP_CHARGE \<noteq> 0"
    and "merchant_config_key (mer t) = (merchant_config_key (mer s))(m \<mapsto> c)"
    using run old a
    by (auto simp: update_merchant_config_def updated_config_def ok_iff Let_def put_merchant_config_def unwrap_or_def not_less
        split: option.splits if_splits)
  then show ?thesis using old a by (intro that)
qed

lemma updated_config_ok:
  "config_ok old \<Longrightarrow> \<forall>b. nf = Some b \<longrightarrow> b \<le> MAX_FEE_BIPS \<Longrightarrow>
   \<forall>ops. nops = Some ops \<longrightarrow> is_valid_allowed_operations ops \<and> ops AND OP_CHARGE \<noteq> 0 \<Longrightarrow>
   config_ok (updated_config env np nf nops na nfa nurl npa old)"
  unfolding updated_config_def by (cases nf; cases nops) (simp_all add: config_ok_def)

text \<open>C38. Every stored merchant configuration has a fee of at most ten thousand basis points and only
  known operations, charging among them; each of the three ways to write one needs the merchant's
  signature, writes that merchant's record only and keeps this; a partial update changes the given
  fields and no others.\<close>

theorem merchant_configs_stay_valid:
  assumes "configs_ok s"
  shows "(\<forall>c t. initialize_merchant_config env m p f ops fa url s = (Ok c, t) \<longrightarrow>
      configs_ok t \<and> authorized env m \<and> get_merchant_config t = (get_merchant_config s)(m \<mapsto> c) \<and> allowed_operations c = ops) \<and>
    (\<forall>t. set_merchant_config env m c0 s = (Ok (), t) \<longrightarrow>
      configs_ok t \<and> authorized env m \<and>
      get_merchant_config t = (get_merchant_config s)(m \<mapsto> c0\<lparr>last_updated := ledger_timestamp env\<rparr>)) \<and>
    (\<forall>c t. update_merchant_config env m np nf nops na nfa nurl npa s = (Ok c, t) \<longrightarrow>
      configs_ok t \<and> authorized env m \<and> get_merchant_config t = (get_merchant_config s)(m \<mapsto> c) \<and>
      (\<exists>old. get_merchant_config s m = Some old \<and> c = updated_config env np nf nops na nfa nurl npa old))"
proof (intro conjI; intro allI impI)
  fix c t
  assume "initialize_merchant_config env m p f ops fa url s = (Ok c, t)"
  then show "configs_ok t \<and> authorized env m \<and> get_merchant_config t = (get_merchant_config s)(m \<mapsto> c) \<and> allowed_operations c = ops"
    using assms
    by (auto simp: initialize_merchant_config_def ok_iff Let_def configs_ok_def config_ok_def get_merchant_config_def
        put_merchant_config_def fun_eq_iff split: if_splits)
next
  fix t
  assume "set_merchant_config env m c0 s = (Ok (), t)"
  then show "configs_ok t \<and> authorized env m \<and>
      get_merchant_config t = (get_merchant_config s)(m \<mapsto> c0\<lparr>last_updated := ledger_timestamp env\<rparr>)"
    using assms
    by (auto simp: set_merchant_config_def ok_iff Let_def configs_ok_def config_ok_def get_merchant_config_def
        put_merchant_config_def fun_eq_iff split: if_splits)
next
  fix c t
  assume run: "update_merchant_config env m np nf nops na nfa nurl npa s = (Ok c, t)"
  then obtain old where old: "merchant_config_key (mer s) m = Some old" "authorized env m"
    and c: "c = updated_config env np nf nops na nfa nurl npa old"
    and checks: "\<forall>b. nf = Some b \<longrightarrow> b \<le> MAX_FEE_BIPS"
      "\<forall>ops. nops = Some ops \<longrightarrow> is_valid_allowed_operations ops \<and> ops AND OP_CHARGE \<noteq> 0"
    and t: "merchant_config_key (mer t) = (merchant_config_key (mer s))(m \<mapsto> c)"
    by (rule update_merchant_config_Ok)
  have "config_ok old" using assms old(1) by (simp add: configs_ok_def get_merchant_config_def)
  then have "config_ok c" using checks unfolding c by (rule updated_config_ok)
  then show "configs_ok t \<and> authorized env m \<and> get_merchant_config t = (get_merchant_config s)(m \<mapsto> c) \<and>
      (\<exists>old. get_merchant_config s m = Some old \<and> c = updated_config env np nf nops na nfa nurl npa old)"
    using assms old t c by (auto simp: configs_ok_def get_merchant_config_def fun_eq_iff)
qed

end
