(* ===== verification/Billing_Statements.thy ===== *)
theory Billing_Statements
  imports Queries
begin

text \<open>
  \<open>billing_statements.rs\<close>: statements of whole periods, an index of references per subscription
  and one per merchant, and the paged listings over the two. Nothing else in the contract calls
  this module.
\<close>

section \<open>Operations\<close>

definition to_ref :: "period_billing_statement \<Rightarrow> billing_statement_ref" where
  "to_ref stmt = \<lparr>ref_subscription_id = pbs_subscription_id stmt, ref_period_index = pbs_period_index stmt,
     ref_period_end = period_end_timestamp stmt\<rparr>"

fun contains_ref :: "billing_statement_ref list \<Rightarrow> billing_statement_ref \<Rightarrow> bool" where
  "contains_ref [] target = False"
| "contains_ref (item # items) target =
    (if ref_subscription_id item = ref_subscription_id target \<and> ref_period_index item = ref_period_index target
     then True else contains_ref items target)"

definition add_ref :: "billing_statement_ref \<Rightarrow> billing_statement_ref list \<Rightarrow> billing_statement_ref list" where
  "add_ref r rs = (if contains_ref rs r then rs else rs @ [r])"

definition subscription_refs :: "vault \<Rightarrow> u32 \<Rightarrow> billing_statement_ref list" where
  "subscription_refs s i = unwrap_or (statements_by_subscription_key (bil s) i) []"

definition merchant_refs :: "vault \<Rightarrow> address \<Rightarrow> billing_statement_ref list" where
  "merchant_refs s m = unwrap_or (statements_by_merchant_key (bil s) m) []"

definition upsert_statement :: "period_billing_statement \<Rightarrow> vault \<Rightarrow> vault" where
  "upsert_statement stmt s =
    (let i = pbs_subscription_id stmt;
         m = pbs_merchant stmt;
         r = to_ref stmt;
         b0 = (bil s)\<lparr>billing_statement_key := (billing_statement_key (bil s))((i, pbs_period_index stmt) \<mapsto> stmt)\<rparr>;
         b1 = (if contains_ref (subscription_refs s i) r then b0
               else b0\<lparr>statements_by_subscription_key :=
                      (statements_by_subscription_key b0)(i \<mapsto> subscription_refs s i @ [r])\<rparr>);
         b2 = (if contains_ref (merchant_refs s m) r then b1
               else b1\<lparr>statements_by_merchant_key :=
                      (statements_by_merchant_key b1)(m \<mapsto> merchant_refs s m @ [r])\<rparr>)
     in publish ''bill_stmt'' (BillEv (BillingStatementPersistedEvent i (pbs_period_index stmt) m (finalized_by stmt)))
          (s\<lparr>bil := b2\<rparr>))"

definition get_statement :: "vault \<Rightarrow> u32 \<Rightarrow> u32 \<Rightarrow> period_billing_statement res" where
  "get_statement s i p = ok_or (billing_statement_key (bil s) (i, p)) NotFound"

text \<open>
  The loop of both listings over the indices from \<open>start\<close> up to \<open>stop\<close>, which is the wrapped sum
  \<open>start + limit\<close> cut at the length; a reference without a statement is skipped.
\<close>

fun ref_loop :: "vault \<Rightarrow> billing_statement_ref list \<Rightarrow> nat list \<Rightarrow> period_billing_statement list \<Rightarrow>
    period_billing_statement list" where
  "ref_loop s refs [] out = out"
| "ref_loop s refs (i # ids) out =
    (let r = refs ! i in
     case billing_statement_key (bil s) (ref_subscription_id r, ref_period_index r) of
       Some st \<Rightarrow> ref_loop s refs ids (out @ [st])
     | None \<Rightarrow> ref_loop s refs ids out)"

definition list_refs :: "vault \<Rightarrow> billing_statement_ref list \<Rightarrow> u32 \<Rightarrow> u32 \<Rightarrow> period_billing_statement list" where
  "list_refs s refs start limit =
    (if start \<ge> length refs then []
     else ref_loop s refs [start ..< min ((start + limit) mod 2 ^ 32) (length refs)] [])"

definition list_statements_by_subscription :: "vault \<Rightarrow> u32 \<Rightarrow> u32 \<Rightarrow> u32 \<Rightarrow> period_billing_statement list" where
  "list_statements_by_subscription s i start limit =
    (if limit = 0 then [] else list_refs s (subscription_refs s i) start limit)"

fun filter_refs :: "u64 \<Rightarrow> u64 \<Rightarrow> billing_statement_ref list \<Rightarrow> billing_statement_ref list \<Rightarrow> billing_statement_ref list" where
  "filter_refs lo hi [] out = out"
| "filter_refs lo hi (r # rs) out =
    (if ref_period_end r \<ge> lo \<and> ref_period_end r \<le> hi then filter_refs lo hi rs (out @ [r])
     else filter_refs lo hi rs out)"

definition list_statements_by_merchant_time_range ::
  "vault \<Rightarrow> address \<Rightarrow> u64 \<Rightarrow> u64 \<Rightarrow> u32 \<Rightarrow> u32 \<Rightarrow> period_billing_statement list" where
  "list_statements_by_merchant_time_range s m lo hi start limit =
    (if limit = 0 then [] else list_refs s (filter_refs lo hi (merchant_refs s m) []) start limit)"

record period_statement_input =
  in_subscription_id :: u32
  in_period_index :: u32
  in_merchant :: address
  in_subscriber :: address
  in_period_start :: u64
  in_period_end :: u64
  in_total_amount :: i128
  in_usage_units :: i128
  in_protocol_fee :: i128
  in_net_amount :: i128
  in_refund :: i128
  in_flags :: "32 word"
  in_status :: subscription_status
  in_finalized_by :: billing_statement_finalization
  in_finalized_at :: u64

definition build_period_statement :: "vault \<Rightarrow> period_statement_input \<Rightarrow> period_billing_statement res" where
  "build_period_statement s input =
     bind_res (ok_or (token_symbol_key (bil s)) NotInitialized) (\<lambda>tok.
     Ok \<lparr>pbs_subscription_id = in_subscription_id input, pbs_period_index = in_period_index input,
         snapshot_period_index = in_period_index input, pbs_merchant = in_merchant input,
         pbs_subscriber = in_subscriber input, pbs_token = tok,
         period_start_timestamp = in_period_start input, period_end_timestamp = in_period_end input,
         total_amount_charged = in_total_amount input, total_usage_units = in_usage_units input,
         protocol_fee_amount = in_protocol_fee input, net_amount_to_merchant = in_net_amount input,
         refund_amount = in_refund input, status_flags = in_flags input,
         subscription_status = in_status input, finalized_by = in_finalized_by input,
         finalized_at = in_finalized_at input\<rparr>)"

section \<open>References and what they stand for\<close>

text \<open>
  \<open>ref_key\<close> is the key a reference points to. The indices hold every stored key once: in the
  list of its own subscription, and in that of the merchant the statement names. A statement stored
  again under another merchant stays in the first merchant's list, so the merchant side says that
  the references are distinct and resolve.
\<close>

definition ref_key :: "billing_statement_ref \<Rightarrow> u32 \<times> u32" where
  "ref_key r = (ref_subscription_id r, ref_period_index r)"

definition resolve_refs :: "vault \<Rightarrow> billing_statement_ref list \<Rightarrow> period_billing_statement list" where
  "resolve_refs s refs = List.map_filter (\<lambda>r. billing_statement_key (bil s) (ref_key r)) refs"

definition billing_ok :: "vault \<Rightarrow> bool" where
  "billing_ok s \<longleftrightarrow>
    (\<forall>i. distinct (map ref_key (subscription_refs s i)) \<and>
       (\<forall>j p. (j, p) \<in> ref_key ` set (subscription_refs s i) \<longleftrightarrow>
          j = i \<and> billing_statement_key (bil s) (j, p) \<noteq> None)) \<and>
    (\<forall>m. distinct (map ref_key (merchant_refs s m)) \<and>
       (\<forall>k \<in> ref_key ` set (merchant_refs s m). billing_statement_key (bil s) k \<noteq> None)) \<and>
    (\<forall>j p stmt. billing_statement_key (bil s) (j, p) = Some stmt \<longrightarrow>
       j = pbs_subscription_id stmt \<and> p = pbs_period_index stmt \<and>
       (j, p) \<in> ref_key ` set (merchant_refs s (pbs_merchant stmt)))"

lemma contains_ref_iff: "contains_ref rs r \<longleftrightarrow> ref_key r \<in> ref_key ` set rs"
  by (induction rs) (auto simp: ref_key_def)

lemma ref_loop_eq: "ref_loop s refs ids out = out @ resolve_refs s (map ((!) refs) ids)"
  by (induction ids arbitrary: out)
    (auto simp: resolve_refs_def ref_key_def Let_def split: option.splits)

lemma filter_refs_eq: "filter_refs lo hi rs out = out @ filter (\<lambda>r. lo \<le> ref_period_end r \<and> ref_period_end r \<le> hi) rs"
  by (induction rs arbitrary: out) auto

lemma list_refs_slice:
  assumes "start + limit < 2 ^ 32"
  shows "list_refs s refs start limit = resolve_refs s (take limit (drop start refs))"
proof (cases "start < length refs")
  case True
  have "map ((!) refs) [start ..< min (start + limit) (length refs)] = take limit (drop start refs)"
    by (rule nth_equalityI) (auto simp: min_def split: if_splits)
  with True assms show ?thesis by (simp add: list_refs_def ref_loop_eq)
next
  case False
  then show ?thesis by (simp add: list_refs_def resolve_refs_def)
qed

lemma upsert_fields:
  "billing_statement_key (bil (upsert_statement stmt s)) =
     (billing_statement_key (bil s))((pbs_subscription_id stmt, pbs_period_index stmt) \<mapsto> stmt)"
  "subscription_refs (upsert_statement stmt s) =
     (subscription_refs s)(pbs_subscription_id stmt := add_ref (to_ref stmt) (subscription_refs s (pbs_subscription_id stmt)))"
  "merchant_refs (upsert_statement stmt s) =
     (merchant_refs s)(pbs_merchant stmt := add_ref (to_ref stmt) (merchant_refs s (pbs_merchant stmt)))"
  "token_symbol_key (bil (upsert_statement stmt s)) = token_symbol_key (bil s)"
  by (simp_all add: upsert_statement_def Let_def subscription_refs_def merchant_refs_def add_ref_def fun_eq_iff)

lemma ref_key_to_ref [simp]: "ref_key (to_ref stmt) = (pbs_subscription_id stmt, pbs_period_index stmt)"
  by (simp add: ref_key_def to_ref_def)

lemma add_ref_keys:
  "ref_key ` set (add_ref r rs) = insert (ref_key r) (ref_key ` set rs)"
  "distinct (map ref_key rs) \<Longrightarrow> distinct (map ref_key (add_ref r rs))"
  by (auto simp: add_ref_def contains_ref_iff)

lemma upsert_ok:
  assumes "billing_ok s"
  shows "billing_ok (upsert_statement stmt s)"
  unfolding billing_ok_def upsert_fields
proof (intro conjI allI)
  fix i
  show "distinct (map ref_key (((subscription_refs s)(pbs_subscription_id stmt := add_ref (to_ref stmt)
      (subscription_refs s (pbs_subscription_id stmt)))) i))"
    using assms by (simp add: billing_ok_def add_ref_keys)
  fix j p
  show "(j, p) \<in> ref_key ` set (((subscription_refs s)(pbs_subscription_id stmt := add_ref (to_ref stmt)
      (subscription_refs s (pbs_subscription_id stmt)))) i) \<longleftrightarrow> j = i \<and>
      ((billing_statement_key (bil s))((pbs_subscription_id stmt, pbs_period_index stmt) \<mapsto> stmt)) (j, p) \<noteq> None"
    using assms by (auto simp: billing_ok_def add_ref_keys)
next
  fix m
  show "distinct (map ref_key (((merchant_refs s)(pbs_merchant stmt := add_ref (to_ref stmt)
      (merchant_refs s (pbs_merchant stmt)))) m))"
    using assms by (simp add: billing_ok_def add_ref_keys)
  show "\<forall>k \<in> ref_key ` set (((merchant_refs s)(pbs_merchant stmt := add_ref (to_ref stmt)
      (merchant_refs s (pbs_merchant stmt)))) m).
      ((billing_statement_key (bil s))((pbs_subscription_id stmt, pbs_period_index stmt) \<mapsto> stmt)) k \<noteq> None"
  proof
    fix k
    assume "k \<in> ref_key ` set (((merchant_refs s)(pbs_merchant stmt := add_ref (to_ref stmt)
      (merchant_refs s (pbs_merchant stmt)))) m)"
    with assms show "((billing_statement_key (bil s))((pbs_subscription_id stmt, pbs_period_index stmt) \<mapsto> stmt)) k \<noteq> None"
      by (cases "m = pbs_merchant stmt") (auto simp: billing_ok_def add_ref_keys)
  qed
next
  fix j p x
  show "((billing_statement_key (bil s))((pbs_subscription_id stmt, pbs_period_index stmt) \<mapsto> stmt)) (j, p) = Some x \<longrightarrow>
      j = pbs_subscription_id x \<and> p = pbs_period_index x \<and>
      (j, p) \<in> ref_key ` set (((merchant_refs s)(pbs_merchant stmt := add_ref (to_ref stmt)
         (merchant_refs s (pbs_merchant stmt)))) (pbs_merchant x))"
  proof (cases "(j, p) = (pbs_subscription_id stmt, pbs_period_index stmt)")
    case True
    then show ?thesis by (metis add_ref_keys(1) fun_upd_same insertI1 option.sel ref_key_to_ref prod.inject)
  next
    case False
    have "billing_statement_key (bil s) (j, p) = Some x \<longrightarrow>
        j = pbs_subscription_id x \<and> p = pbs_period_index x \<and> (j, p) \<in> ref_key ` set (merchant_refs s (pbs_merchant x))"
      using assms by (simp add: billing_ok_def)
    with False show ?thesis
      by (metis add_ref_keys(1) fun_upd_other fun_upd_same insertI2)
  qed
qed

lemma add_ref_idem [simp]: "add_ref r (add_ref r rs) = add_ref r rs"
  by (simp add: add_ref_def contains_ref_iff)

lemma resolve_refs_all:
  assumes "\<forall>k \<in> ref_key ` set rs. billing_statement_key (bil s) k \<noteq> None"
  shows "resolve_refs s rs = map (\<lambda>r. the (billing_statement_key (bil s) (ref_key r))) rs"
  using assms by (induction rs) (auto simp: resolve_refs_def)

section \<open>Storing and listing\<close>

text \<open>Storing a period statement is idempotent: it can be read back, storing it a second time
  changes no statement and no index, and the indices stay complete and free of repetition.\<close>

theorem upsert_statement_idempotent:
  assumes "billing_ok s" and "t = upsert_statement stmt s"
  shows "billing_ok t \<and>
    get_statement t (pbs_subscription_id stmt) (pbs_period_index stmt) = Ok stmt \<and>
    (\<forall>i p. (i, p) \<noteq> (pbs_subscription_id stmt, pbs_period_index stmt) \<longrightarrow> get_statement t i p = get_statement s i p) \<and>
    (let u = upsert_statement stmt t in billing_statement_key (bil u) = billing_statement_key (bil t) \<and>
       subscription_refs u = subscription_refs t \<and> merchant_refs u = merchant_refs t)"
  using assms upsert_ok [OF assms(1)] unfolding assms(2)
  by (auto simp: Let_def upsert_fields get_statement_def fun_eq_iff)

text \<open>A page of the listing by subscription is the slice it asks for of one fixed list, which has
  every stored statement of the subscription exactly once.\<close>

theorem period_statement_pages:
  assumes "billing_ok s" and "start + limit < 2 ^ 32"
  shows "\<exists>xs. list_statements_by_subscription s i start limit = take limit (drop start xs) \<and>
    map pbs_period_index xs = map ref_period_index (subscription_refs s i) \<and> distinct xs \<and>
    set xs = {stmt. \<exists>p. get_statement s i p = Ok stmt}"
proof (intro exI conjI)
  let ?rs = "subscription_refs s i"
  let ?xs = "resolve_refs s ?rs"
  have keys: "\<And>j p. (j, p) \<in> ref_key ` set ?rs \<longleftrightarrow> j = i \<and> billing_statement_key (bil s) (j, p) \<noteq> None"
    and dist: "distinct (map ref_key ?rs)"
    using assms(1) by (simp_all add: billing_ok_def)
  have stored: "\<And>j p stmt. billing_statement_key (bil s) (j, p) = Some stmt \<Longrightarrow>
      j = pbs_subscription_id stmt \<and> p = pbs_period_index stmt"
    using assms(1) by (simp add: billing_ok_def)
  then have key_eq: "k = (pbs_subscription_id stmt, pbs_period_index stmt)"
    if "billing_statement_key (bil s) k = Some stmt" for k stmt
    using that by (cases k) blast
  have all: "\<forall>k \<in> ref_key ` set ?rs. billing_statement_key (bil s) k \<noteq> None"
    using keys by (metis prod.exhaust)
  note eq = resolve_refs_all [OF all]
  have part: "(pbs_subscription_id stmt, pbs_period_index stmt) = ref_key r"
    if "r \<in> set ?rs" "stmt = the (billing_statement_key (bil s) (ref_key r))" for r stmt
    using all that key_eq by fastforce
  show "list_statements_by_subscription s i start limit = take limit (drop start ?xs)"
  proof (cases "limit = 0")
    case False
    have sub: "\<forall>k \<in> ref_key ` set (take limit (drop start ?rs)). billing_statement_key (bil s) k \<noteq> None"
      using all by (meson image_mono in_mono set_drop_subset set_take_subset subset_trans)
    show ?thesis using False
      by (simp add: list_statements_by_subscription_def list_refs_slice [OF assms(2)] resolve_refs_all [OF sub] eq
          take_map drop_map)
  qed (simp add: list_statements_by_subscription_def)
  show "map pbs_period_index ?xs = map ref_period_index ?rs"
    unfolding eq using part [OF _ refl] by (simp add: ref_key_def)
  have "map (\<lambda>st. (pbs_subscription_id st, pbs_period_index st)) ?xs = map ref_key ?rs"
    unfolding eq using part [OF _ refl] by simp
  with dist show "distinct ?xs" by (metis distinct_map)
  show "set ?xs = {stmt. \<exists>p. get_statement s i p = Ok stmt}"
  proof (intro set_eqI iffI)
    fix x
    assume "x \<in> set ?xs"
    then obtain r where r: "r \<in> set ?rs" "x = the (billing_statement_key (bil s) (ref_key r))"
      unfolding eq by auto
    obtain j p where jp: "ref_key r = (j, p)" by (cases "ref_key r")
    with r(1) have "(j, p) \<in> ref_key ` set ?rs" by (metis imageI)
    then have "j = i" and "billing_statement_key (bil s) (j, p) \<noteq> None" using keys by blast+
    with r(2) jp have "billing_statement_key (bil s) (i, p) = Some x" by simp
    then show "x \<in> {stmt. \<exists>p. get_statement s i p = Ok stmt}" by (auto simp: get_statement_def ok_iff)
  next
    fix x
    assume "x \<in> {stmt. \<exists>p. get_statement s i p = Ok stmt}"
    then obtain p where p: "billing_statement_key (bil s) (i, p) = Some x" by (auto simp: get_statement_def ok_iff)
    with keys [of i p] obtain r where "r \<in> set ?rs" "ref_key r = (i, p)" by auto
    with p show "x \<in> set ?xs" unfolding eq by force
  qed
qed

section \<open>A concrete run\<close>

definition demo_statement :: "u32 \<Rightarrow> period_billing_statement" where
  "demo_statement p = \<lparr>pbs_subscription_id = 0, pbs_period_index = p, snapshot_period_index = p,
     pbs_merchant = Address 4, pbs_subscriber = Address 3, pbs_token = Address 9,
     period_start_timestamp = 100 * p, period_end_timestamp = 100 * p + 100, total_amount_charged = 10,
     total_usage_units = 0, protocol_fee_amount = 0, net_amount_to_merchant = 10, refund_amount = 0,
     status_flags = 1, subscription_status = Active, finalized_by = PeriodClosed, finalized_at = 100 * p + 100\<rparr>"

definition demo_billing :: vault where
  "demo_billing = upsert_statement (demo_statement 1) (upsert_statement (demo_statement 0) demo_subs)"

lemma demo_statement_fields [simp]:
  "pbs_subscription_id (demo_statement p) = 0" "pbs_period_index (demo_statement p) = p"
  "pbs_merchant (demo_statement p) = Address 4" "period_end_timestamp (demo_statement p) = 100 * p + 100"
  by (simp_all add: demo_statement_def)

lemma demo_billing_empty: "billing_ok demo_subs"
  by (simp add: billing_ok_def subscription_refs_def merchant_refs_def vault_init_def)

theorem upsert_statement_idempotent_witness:
  "get_statement demo_billing 0 1 = Ok (demo_statement 1) \<and> billing_ok demo_billing"
  using upsert_statement_idempotent [OF upsert_ok [OF demo_billing_empty] refl, of "demo_statement 1" "demo_statement 0"]
  by (simp add: demo_billing_def)

theorem period_statement_pages_witness:
  "list_statements_by_subscription demo_billing 0 1 5 = [demo_statement 1]"
proof -
  have ok: "billing_ok demo_billing"
    unfolding demo_billing_def by (intro upsert_ok demo_billing_empty)
  have refs: "map ref_period_index (subscription_refs demo_billing 0) = [0, 1]"
    by (simp add: demo_billing_def upsert_fields add_ref_def subscription_refs_def vault_init_def to_ref_def)
  have "(1::nat) + 5 < 2 ^ 32" by simp
  from period_statement_pages [OF ok this, of 0] obtain xs
where xs: "list_statements_by_subscription demo_billing 0 1 5 = take 5 (drop 1 xs)"
      and ix: "map pbs_period_index xs = [0, 1]"
      and set_xs: "set xs = {stmt. \<exists>p. get_statement demo_billing 0 p = Ok stmt}"
    unfolding refs by (elim exE conjE) (rule that)
  from ix obtain a b where ab: "xs = [a, b]" "pbs_period_index a = 0" "pbs_period_index b = 1" by auto
  have "b \<in> {stmt. \<exists>p. get_statement demo_billing 0 p = Ok stmt}" using ab set_xs by auto
  then have "b = demo_statement 0 \<or> b = demo_statement 1"
    by (auto simp: get_statement_def demo_billing_def upsert_fields vault_init_def ok_iff split: if_splits)
  with ab xs show ?thesis by auto
qed

end
