(* ===== verification/Batch_Laws.thy ===== *)
theory Batch_Laws
  imports Entry_Points Charge_Books
begin

text \<open>
  Batches and the emergency stop: a batch is the sequence of its charges, each on the state the
  previous one left, no subscription is charged twice in it, and an active stop closes every way in
  and no way out.
\<close>

section \<open>A batch as a sequence of charges\<close>

fun batch_trace :: "env \<Rightarrow> u64 \<Rightarrow> u32 list \<Rightarrow> vault \<Rightarrow> (charge_execution_result res \<times> vault) list" where
  "batch_trace env now [] s = []"
| "batch_trace env now (i # ids) s =
    charge_one env i now None s # batch_trace env now ids (snd (charge_one env i now None s))"

lemma length_batch_trace [simp]: "length (batch_trace env now ids s) = length ids"
  by (induction ids arbitrary: s) simp_all

lemma batch_loop_Ok:
  "batch_loop env now ids out s = (Ok rs, t) \<longleftrightarrow>
     (\<forall>m \<in> set (batch_trace env now ids s). fst m \<noteq> Trap) \<and>
     rs = out @ map (batch_result \<circ> fst) (batch_trace env now ids s) \<and>
     t = last (s # map snd (batch_trace env now ids s))"
proof (induction ids arbitrary: out s)
  case (Cons i ids)
  obtain r u where m: "charge_one env i now None s = (r, u)" by fastforce
  show ?case
    by (cases r) (auto simp: m Cons.IH)
qed auto

text \<open>Every charge of a batch starts from the state the one before it left, which charges have reached.\<close>

lemma batch_trace_nth:
  "k < length ids \<Longrightarrow> batch_trace env now ids s ! k =
     charge_one env (ids ! k) now None ((s # map snd (batch_trace env now ids s)) ! k)"
  by (induction ids arbitrary: s k) (auto simp: less_Suc_eq_0_disj)

lemma batch_trace_frame: "m \<in> set (batch_trace env now ids s) \<Longrightarrow> charge_frame s (snd m)"
proof (induction ids arbitrary: s)
  case (Cons i ids)
  have "charge_frame s (snd (charge_one env i now None s))"
    using charge_one_keeps [of s env i now None] by (simp add: ends_def split: prod.splits)
  with Cons show ?case by (auto intro: charge_steps.R_trans)
qed simp

lemma batch_trace_frame_nth:
  "k \<le> length ids \<Longrightarrow> charge_frame s ((s # map snd (batch_trace env now ids s)) ! k)"
proof (cases k)
  case (Suc l)
  assume "k \<le> length ids"
  with Suc batch_trace_frame [OF nth_mem, of l env now ids s] show ?thesis by simp
qed (simp add: charge_steps.R_refl)

lemma batch_trace_frame_last: "charge_frame s (last (s # map snd (batch_trace env now ids s)))"
proof -
  have "last (s # map snd (batch_trace env now ids s)) \<in> set (s # map snd (batch_trace env now ids s))"
    by (rule last_in_set) simp
  then consider "last (s # map snd (batch_trace env now ids s)) = s"
    | m where "m \<in> set (batch_trace env now ids s)" "last (s # map snd (batch_trace env now ids s)) = snd m"
    by auto
  then show ?thesis using batch_trace_frame by cases (metis charge_steps.R_refl, metis)
qed

lemma frame_sub: "charge_frame s t \<Longrightarrow> subs s i = Some x \<Longrightarrow> subs t i = Some y \<Longrightarrow> evolves x y"
  unfolding charge_frame_def subs_evolve_def by blast

lemma frame_period:
  "charge_frame s t \<Longrightarrow> charged_period_key (sbs s) i = Some p \<Longrightarrow> \<exists>q \<ge> p. charged_period_key (sbs t) i = Some q"
  unfolding charge_frame_def by blast

text \<open>A subscription charged once is not charged again at the same time.\<close>

lemma charged_once:
  assumes "charge_one env i now None s = (Ok Charged, t)" and "charge_frame t u"
  shows "charge_one env i now None u \<noteq> (Ok Charged, v)"
proof
  assume again: "charge_one env i now None u = (Ok Charged, v)"
  obtain x where x: "subs s i = Some x"
    using assms(1) by (auto simp: charge_one_def ok_iff)
  obtain c s1 where r: "resolve_charge_amount env i x s = (Ok c, s1)"
      and p: "charge_period env i x now None c s1 = (Ok Charged, t)"
    by (rule charge_one_Charged [OF assms(1) x]) simp_all
  have x1: "subs s1 i = Some x" using resolve_sbs [OF r] x by simp
  from charge_period_Charged [OF p] have "settle_interval env i x now None c (prepaid_balance x - c) (period_of x now)
      (start_time x + period_of x now * interval_seconds x)
      (start_time x + period_of x now * interval_seconds x + interval_seconds x)
      (last_payment_timestamp x + interval_seconds x) s1 = (Ok Charged, t)" by simp
  then have "charged_period_key (sbs t) i = Some (period_of x now)"
    using x1 by (elim settle_interval_Ok) simp_all
  moreover obtain y where y: "subs u i = Some y"
    using again by (auto simp: charge_one_def ok_iff)
  moreover have "charge_frame s u"
    using charge_one_keeps [of s env i now None] assms by (auto simp: ends_def intro: charge_steps.R_trans)
  ultimately have "evolves x y" and q: "\<exists>q \<ge> period_of x now. charged_period_key (sbs u) i = Some q"
    using x frame_sub frame_period [OF assms(2)] by blast+
  then have same: "period_of y now = period_of x now"
    by (simp add: evolves_def develops_def period_of_def)
  obtain c' u1 where r': "resolve_charge_amount env i y u = (Ok c', u1)"
      and p': "charge_period env i y now None c' u1 = (Ok Charged, v)"
    by (rule charge_one_Charged [OF again y]) simp_all
  with charge_period_Charged(2) [OF p'] resolve_sbs [OF r'] same q show False by auto
qed

lemma batch_trace_once:
  assumes "j < k" and "k < length ids" and "ids ! j = ids ! k"
    and "fst (batch_trace env now ids s ! j) = Ok Charged"
  shows "fst (batch_trace env now ids s ! k) \<noteq> Ok Charged"
  using assms
proof (induction ids arbitrary: s j k)
  case (Cons i ids)
  let ?m = "charge_one env i now None s"
  let ?rest = "batch_trace env now ids (snd ?m)"
  obtain l where k: "k = Suc l" using Cons.prems(1) by (cases k) auto
  show ?case
  proof (cases j)
    case 0
    have l: "l < length ids" and il: "ids ! l = i" using Cons.prems k 0 by simp_all
    have m: "?m = (Ok Charged, snd ?m)" using Cons.prems(4) 0 by (cases ?m) simp
    have "charge_frame (snd ?m) ((snd ?m # map snd ?rest) ! l)"
      using l by (intro batch_trace_frame_nth) simp
    from charged_once [OF m this] have "?rest ! l \<noteq> (Ok Charged, v)" for v
      unfolding batch_trace_nth [OF l] il .
    then show ?thesis by (cases "?rest ! l") (auto simp: k)
  next
    case (Suc j')
    then show ?thesis using Cons.IH [of j' l "snd ?m"] Cons.prems k by simp
  qed
qed simp

lemma batch_result_success [simp]: "success (batch_result r) \<longleftrightarrow> r = Ok Charged"
  by (auto simp: batch_result_def split: result.splits charge_execution_result.splits)

text \<open>C18. A batch is signed by the admin and uses up one nonce of its domain; its results are those of
  charging its subscriptions one after the other, each from the state the one before it left, and
  the final state is the last of these; a subscription listed twice is charged at most once.\<close>

theorem batch_is_sequence_of_charges:
  assumes "do_batch_charge env ids nonce s = (Ok rs, t)"
  shows "\<exists>admin s1. admin_key (adm s) = Some admin \<and> authorized env admin
    \<and> nonce = get_nonce s admin DOMAIN_BATCH_CHARGE \<and> get_nonce t admin DOMAIN_BATCH_CHARGE = nonce + 1
    \<and> sbs s1 = sbs s \<and> mer s1 = mer s \<and> tokens t = tokens s
    \<and> (let trace = batch_trace env (ledger_timestamp env) ids s1 in
         rs = map (batch_result \<circ> fst) trace \<and> t = last (s1 # map snd trace)
         \<and> (\<forall>k < length ids. fst (trace ! k) \<noteq> Trap \<and>
              trace ! k = charge_one env (ids ! k) (ledger_timestamp env) None ((s1 # map snd trace) ! k)))
    \<and> (\<forall>j k. j < k \<longrightarrow> k < length ids \<longrightarrow> ids ! j = ids ! k \<longrightarrow> success (rs ! j) \<longrightarrow> \<not> success (rs ! k))"
proof -
  from assms obtain admin s1 where admin: "admin_key (adm s) = Some admin" "authorized env admin"
    and n: "check_and_advance env admin DOMAIN_BATCH_CHARGE nonce s = (Ok (), s1)"
    and loop: "batch_loop env (ledger_timestamp env) ids [] s1 = (Ok rs, t)"
    by (auto simp: do_batch_charge_def ok_iff)
  let ?trace = "batch_trace env (ledger_timestamp env) ids s1"
  from loop have tr: "\<forall>m \<in> set ?trace. fst m \<noteq> Trap" and rs: "rs = map (batch_result \<circ> fst) ?trace"
    and t: "t = last (s1 # map snd ?trace)" by (simp_all add: batch_loop_Ok)
  have "charge_frame s1 t"
    unfolding t by (rule batch_trace_frame_last)
  then have same: "adm t = adm s1" "tokens t = tokens s1" by (simp_all add: charge_frame_def)
  note s1 = n [unfolded check_and_advance_Ok]
  have nonce: "nonce = get_nonce s admin DOMAIN_BATCH_CHARGE" "get_nonce t admin DOMAIN_BATCH_CHARGE = nonce + 1"
      "sbs s1 = sbs s" "mer s1 = mer s" "tokens t = tokens s"
    using s1 same by (simp_all add: get_nonce_def)
  have steps: "fst (?trace ! k) \<noteq> Trap" if "k < length ids" for k
    using that tr by simp
  note nth = batch_trace_nth [of _ ids env "ledger_timestamp env" s1]
  have "\<not> success (rs ! k)" if "j < k" "k < length ids" "ids ! j = ids ! k" "success (rs ! j)" for j k
    using that batch_trace_once [of j k ids env "ledger_timestamp env" s1] by (simp add: rs)
  with admin nonce rs t steps nth show ?thesis
    unfolding Let_def by blast
qed

section \<open>The emergency stop\<close>

text \<open>The calls that the stop closes, and calls that pay money out of the vault to its owners.\<close>

fun brings_in :: "call \<Rightarrow> bool" where
  "brings_in (SubscriptionCall (Create_Subscription _ _ _ _ _ _ _)) = True"
| "brings_in (SubscriptionCall (Create_Subscription_With_Token _ _ _ _ _ _ _ _)) = True"
| "brings_in (SubscriptionCall (Create_Subscription_From_Plan _ _)) = True"
| "brings_in (SubscriptionCall (Deposit_Funds _ _ _)) = True"
| "brings_in (ChargeCall _) = True"
| "brings_in _ = False"

fun pays_out :: "call \<Rightarrow> bool" where
  "pays_out (SubscriptionCall (Withdraw_Subscriber_Funds _ _)) = True"
| "pays_out (SubscriptionCall (Partial_Refund _ _ _ _)) = True"
| "pays_out (SubscriptionCall (Cancel_Subscription _ _)) = True"
| "pays_out (MerchantCall (Withdraw_Merchant_Funds _ _)) = True"
| "pays_out (MerchantCall (Withdraw_Merchant_Token_Funds _ _ _)) = True"
| "pays_out (MerchantCall (Merchant_Refund _ _ _ _)) = True"
| "pays_out _ = False"

definition stopped :: "vault \<Rightarrow> vault" where
  "stopped s = s\<lparr>adm := (adm s)\<lparr>emergency_stop_key := Some True\<rparr>\<rparr>"

lemma stopped_simps [simp]:
  "adm (stopped s) = (adm s)\<lparr>emergency_stop_key := Some True\<rparr>" "mer (stopped s) = mer s" "sbs (stopped s) = sbs s"
  "pln (stopped s) = pln s" "stm (stopped s) = stm s" "snp (stopped s) = snp s" "met (stopped s) = met s"
  "bil (stopped s) = bil s" "total_accounted_key (stopped s) = total_accounted_key s"
  "blocklist_key (stopped s) = blocklist_key s" "lock_key (stopped s) = lock_key s" "tokens (stopped s) = tokens s"
  by (simp_all add: stopped_def)

lemma unless_stopped_active: "get_emergency_stop s \<Longrightarrow> unless_stopped body s = (Err EmergencyStopActive, s)"
  by (simp add: unless_stopped_def require_not_emergency_stop_def)

lemmas guarded_entries = lib_batch_charge_def lib_create_subscription_def lib_create_subscription_with_token_def
  lib_create_subscription_from_plan_def lib_deposit_funds_def lib_charge_subscription_def lib_charge_usage_def
  lib_charge_usage_with_reference_def lib_charge_one_off_def

lemma charge_call_stopped: "get_emergency_stop s \<Longrightarrow> run_charge env c s = (Err EmergencyStopActive, s)"
  by (cases c) (simp_all add: guarded_entries unless_stopped_active)

lemma brings_in_stopped:
  "get_emergency_stop s \<Longrightarrow> brings_in c \<Longrightarrow> run env c s = (Err EmergencyStopActive, s)"
  by (induction c rule: brings_in.induct) (simp_all add: guarded_entries unless_stopped_active charge_call_stopped)

text \<open>An operation that does not look at the flag does the same with it as without it.\<close>

definition ignores_stop :: "(vault \<Rightarrow> 'a res \<times> vault) \<Rightarrow> bool" where
  "ignores_stop f \<longleftrightarrow> (\<forall>s. f (stopped s) = map_prod id stopped (f s))"

lemma ignores_stop_lock: "ignores_stop f \<Longrightarrow> ignores_stop (with_lock name f)"
proof -
  assume f: "ignores_stop f"
  have lock: "lock name (stopped s) = map_prod id stopped (lock name s)" for s
    by (simp add: lock_def stopped_def split: option.split)
  have drop: "drop_guard name (stopped s) = stopped (drop_guard name s)" for s
    by (simp add: drop_guard_def stopped_def)
  show ?thesis
    unfolding ignores_stop_def
  proof
    fix s
    obtain r t where l: "lock name s = (r, t)" by fastforce
    obtain r' u where b: "f t = (r', u)" by fastforce
    then have "f (stopped t) = (r', stopped u)" using f by (simp add: ignores_stop_def)
    with l b show "with_lock name f (stopped s) = map_prod id stopped (with_lock name f s)"
      by (cases r; cases r') (simp_all add: with_lock_def lock drop)
  qed
qed

lemmas stop_frame = ignores_stop_def stopped_def get_subscription_def transfer_def put_sub_def publish_def
  require_auth_def sub_total_accounted_def get_total_accounted_def safe_sub_def ok_or_def try_res_def Let_def

lemma withdraw_ignores_stop: "ignores_stop (do_withdraw_subscriber_funds env i u)"
  unfolding do_withdraw_subscriber_funds_def by (auto simp: stop_frame split: option.split result.split)

lemma refund_ignores_stop: "ignores_stop (do_partial_refund env a i u amt)"
  unfolding do_partial_refund_def
  by (auto simp: stop_frame require_admin_auth_def require_admin_def split: option.split result.split)

lemma cancel_ignores_stop: "ignores_stop (do_cancel_subscription env i a)"
  unfolding do_cancel_subscription_def party_guard_def
  by (auto simp: stop_frame validate_cases split: option.split result.split)

lemma merchant_ignores_stop: "ignores_stop (withdraw_merchant_funds_for_token env m tok amt)"
  unfolding withdraw_merchant_funds_for_token_def
  by (auto simp: stop_frame is_token_accepted_def get_merchant_balance_by_token_def set_merchant_balance_def
      split: option.split result.split)

lemma merchant_refund_ignores_stop: "ignores_stop (merchant_refund env m u tok amt)"
  unfolding merchant_refund_def
  by (auto simp: stop_frame get_merchant_balance_by_token_def set_merchant_balance_def merchant_writes
      get_merchant_token_earnings_def split: option.split result.split)

lemma default_withdraw_ignores_stop: "ignores_stop (withdraw_merchant_funds env m amt)"
  using merchant_ignores_stop unfolding withdraw_merchant_funds_def
  by (auto simp: ignores_stop_def get_token_def ok_or_def try_res_def split: option.split result.split)

lemma ignores_stopD: "ignores_stop f \<Longrightarrow> f (stopped s) = map_prod id stopped (f s)"
  by (simp add: ignores_stop_def)

lemmas exits_ignore_stop = cancel_ignores_stop [THEN ignores_stopD]
  withdraw_ignores_stop [THEN ignores_stop_lock, THEN ignores_stopD]
  refund_ignores_stop [THEN ignores_stop_lock, THEN ignores_stopD]
  merchant_ignores_stop [THEN ignores_stop_lock, THEN ignores_stopD]
  merchant_refund_ignores_stop [THEN ignores_stop_lock, THEN ignores_stopD]
  default_withdraw_ignores_stop [THEN ignores_stop_lock, THEN ignores_stopD]

lemma pays_out_stopped: "pays_out c \<Longrightarrow> run env c (stopped s) = map_prod id stopped (run env c s)"
  by (induction c rule: pays_out.induct)
    (simp_all add: lib_withdraw_subscriber_funds_def lib_partial_refund_def lib_withdraw_merchant_funds_def
      lib_withdraw_merchant_token_funds_def lib_merchant_refund_def exits_ignore_stop)

text \<open>C19. While the stop is active no subscription is created, no deposit and no charge is taken: each such
  call fails with \<open>EmergencyStopActive\<close> and changes nothing. Withdrawals, refunds and cancellations have
  the same outcome with the stop as without it. Only the admin switches it, with its signature.\<close>

theorem stop_blocks_money_in:
  "(get_emergency_stop s \<longrightarrow> brings_in c \<longrightarrow> transact env c s = (Err EmergencyStopActive, s)) \<and>
   (pays_out c \<longrightarrow> transact env c (stopped s) = map_prod id stopped (transact env c s)) \<and>
   (\<forall>a t. enable_emergency_stop env a s = (Ok (), t) \<longrightarrow>
      admin_key (adm s) = Some a \<and> authorized env a \<and> get_emergency_stop t) \<and>
   (\<forall>a t. disable_emergency_stop env a s = (Ok (), t) \<longrightarrow>
      admin_key (adm s) = Some a \<and> authorized env a \<and> \<not> get_emergency_stop t)"
proof (intro conjI impI allI)
  show "get_emergency_stop s \<Longrightarrow> brings_in c \<Longrightarrow> transact env c s = (Err EmergencyStopActive, s)"
    by (simp add: transact_def invoke_def brings_in_stopped)
  assume "pays_out c"
  from pays_out_stopped [OF this] show "transact env c (stopped s) = map_prod id stopped (transact env c s)"
    by (auto simp: transact_def invoke_def split: prod.split result.split)
qed (auto simp: enable_emergency_stop_def disable_emergency_stop_def ok_iff get_emergency_stop_def split: if_splits)

section \<open>A concrete batch and a concrete stop\<close>

theorem batch_is_sequence_of_charges_witness:
  "\<exists>rs. fst (do_batch_charge demo_env [0, 0] 0 demo_subs) = Ok rs \<and> map success rs = [True, False]"
proof -
  let ?run = "do_batch_charge demo_env [0, 0] 0 demo_subs"
  have "\<exists>rs. fst ?run = Ok rs \<and> length rs = 2 \<and> success (rs ! 0)"
    by (simp add: do_batch_charge_def require_stored_admin_auth_def require_admin_def require_auth_def check_and_advance_def
        get_nonce_def checked_add_u64_def charge_evaluation period_of_def mark_charged_def Let_def)
  then obtain rs t where rs: "?run = (Ok rs, t)" "length rs = 2" "success (rs ! 0)"
    by (metis prod.collapse)
  then obtain r0 r1 where two: "rs = [r0, r1]"
    by (auto simp: length_Suc_conv numeral_2_eq_2)
  from batch_is_sequence_of_charges [OF rs(1)]
  have "\<not> success (rs ! 1)" using rs(3) by (auto dest: spec [of _ 0] spec [of _ 1])
  then have "map success rs = [True, False]" using rs(3) two by simp
  then show ?thesis using arg_cong [OF rs(1), of fst] by (intro exI [of _ rs] conjI) simp_all
qed

theorem stop_blocks_money_in_witness:
  "transact demo_env (ChargeCall (Charge_Subscription 0)) (stopped demo_subs) = (Err EmergencyStopActive, stopped demo_subs)"
proof -
  have "get_emergency_stop (stopped demo_subs)" by (simp add: get_emergency_stop_def)
  with stop_blocks_money_in [of "stopped demo_subs" "ChargeCall (Charge_Subscription 0)" demo_env] show ?thesis
    by simp
qed

end
