(* ===== verification/Access_Control.thy ===== *)
theory Access_Control
  imports Lifecycle_Laws Plan_Laws Batch_Laws
begin

text \<open>
  Who may do what: the access matrix of the contract as a function from calls to the role their signer
  must have, and the theorem that no call succeeds without a signature in that role. The matrix shows
  at a glance which calls ask for nothing.
\<close>

section \<open>Roles\<close>

datatype role =
    Anybody
  | Named address
  | The_Admin address
  | Stored_Admin
  | Subscriber_Of u32 address
  | Merchant_Of u32 address
  | Party_To u32 address
  | Owner_Of_Plan u32 address
  | Warden address address

text \<open>
  \<open>signed_by_role env s r\<close>: somebody with role \<open>r\<close> in state \<open>s\<close> has authorized the call. A warden is the admin or
  a merchant who has a subscription with the subscriber in question.
\<close>

fun signed_by_role :: "env \<Rightarrow> vault \<Rightarrow> role \<Rightarrow> bool" where
  "signed_by_role env s Anybody \<longleftrightarrow> True"
| "signed_by_role env s (Named a) \<longleftrightarrow> authorized env a"
| "signed_by_role env s (The_Admin a) \<longleftrightarrow> authorized env a \<and> admin_key (adm s) = Some a"
| "signed_by_role env s Stored_Admin \<longleftrightarrow> (case admin_key (adm s) of Some a \<Rightarrow> authorized env a | None \<Rightarrow> False)"
| "signed_by_role env s (Subscriber_Of i a) \<longleftrightarrow> authorized env a \<and> map_option subscriber (subs s i) = Some a"
| "signed_by_role env s (Merchant_Of i a) \<longleftrightarrow> authorized env a \<and> map_option merchant (subs s i) = Some a"
| "signed_by_role env s (Party_To i a) \<longleftrightarrow> authorized env a \<and>
     (map_option subscriber (subs s i) = Some a \<or> map_option merchant (subs s i) = Some a)"
| "signed_by_role env s (Owner_Of_Plan p a) \<longleftrightarrow> authorized env a \<and> map_option plan_merchant (plan_key (pln s) p) = Some a"
| "signed_by_role env s (Warden a who) \<longleftrightarrow> authorized env a \<and>
     (admin_key (adm s) = Some a \<or> has_merchant_subscription_with_subscriber s a who)"

section \<open>The access matrix\<close>

fun admin_role :: "admin_call \<Rightarrow> role" where
  "admin_role (Init tok d a m g) = Anybody"
| "admin_role (Set_Min_Topup a m) = The_Admin a"
| "admin_role (Rotate_Admin a b n) = The_Admin a"
| "admin_role (Set_Oracle_Config a en orc g) = The_Admin a"
| "admin_role (Recover_Stranded_Funds a tok r amt rid why) = The_Admin a"
| "admin_role (Enable_Emergency_Stop a) = The_Admin a"
| "admin_role (Disable_Emergency_Stop a) = The_Admin a"
| "admin_role (Add_Accepted_Token a tok d) = The_Admin a"
| "admin_role (Remove_Accepted_Token a tok) = The_Admin a"
| "admin_role (Set_Billing_Retention a k) = The_Admin a"
| "admin_role (Compact_Billing_Statements a i k) = The_Admin a"
| "admin_role (Set_Protocol_Fee a tr f) = The_Admin a"
| "admin_role (Add_To_Blocklist a who why) = Warden a who"
| "admin_role (Remove_From_Blocklist a who) = The_Admin a"
| "admin_role (Export_Contract_Snapshot a) = The_Admin a"
| "admin_role (Export_Subscription_Summary a i) = The_Admin a"
| "admin_role (Export_Subscription_Summaries a i n) = The_Admin a"

fun subscription_role :: "subscription_call \<Rightarrow> role" where
  "subscription_role (Create_Subscription u m amt iv en cap ex) = Named u"
| "subscription_role (Create_Subscription_With_Token u m tok amt iv en cap ex) = Named u"
| "subscription_role (Create_Subscription_From_Plan u p) = Named u"
| "subscription_role (Deposit_Funds i u amt) = Subscriber_Of i u"
| "subscription_role (Cancel_Subscription i a) = Party_To i a"
| "subscription_role (Pause_Subscription i a) = Party_To i a"
| "subscription_role (Resume_Subscription i a) = Party_To i a"
| "subscription_role (Cleanup_Subscription i a) = Named a"
| "subscription_role (Withdraw_Subscriber_Funds i u) = Subscriber_Of i u"
| "subscription_role (Partial_Refund a i u amt) = The_Admin a"
| "subscription_role (Migrate_Subscription_To_Plan u i p) = Subscriber_Of i u"
| "subscription_role (Update_Subscription_Cap a i cap) = The_Admin a"
| "subscription_role (Set_Metadata i a k v) = Party_To i a"
| "subscription_role (Delete_Metadata i a k) = Party_To i a"

fun charge_role :: "charge_call \<Rightarrow> role" where
  "charge_role (Charge_Subscription i) = Anybody"
| "charge_role (Charge_Usage i amt) = Anybody"
| "charge_role (Charge_Usage_With_Reference i amt r) = Anybody"
| "charge_role (Charge_One_Off i m amt) = Merchant_Of i m"
| "charge_role (Batch_Charge ids n) = Stored_Admin"

fun merchant_role :: "merchant_call \<Rightarrow> role" where
  "merchant_role (Create_Plan_Template m amt iv en cap) = Named m"
| "merchant_role (Create_Plan_Template_With_Token m tok amt iv en cap) = Named m"
| "merchant_role (Update_Plan_Template m p amt iv en cap) = Owner_Of_Plan p m"
| "merchant_role (Set_Plan_Max_Active_Subs m p n) = Owner_Of_Plan p m"
| "merchant_role (Set_Subscriber_Credit_Limit a u tok n) = The_Admin a"
| "merchant_role (Configure_Usage_Limits m i mc w b c) = Merchant_Of i m"
| "merchant_role (Set_Global_Cap_Default a cap) = The_Admin a"
| "merchant_role (Set_Merchant_Cap_Default m cap) = Named m"
| "merchant_role (Withdraw_Merchant_Funds m amt) = Named m"
| "merchant_role (Withdraw_Merchant_Token_Funds m tok amt) = Named m"
| "merchant_role (Merchant_Refund m u tok amt) = Named m"
| "merchant_role (Pause_Merchant m) = Named m"
| "merchant_role (Unpause_Merchant m) = Named m"
| "merchant_role (Initialize_Merchant_Config m p f ops fa url) = Named m"
| "merchant_role (Set_Merchant_Config m c) = Named m"
| "merchant_role (Update_Merchant_Config m p f ops a fa url pa) = Named m"

fun role_of :: "call \<Rightarrow> role" where
  "role_of (AdminCall c) = admin_role c"
| "role_of (SubscriptionCall c) = subscription_role c"
| "role_of (ChargeCall c) = charge_role c"
| "role_of (MerchantCall c) = merchant_role c"

section \<open>No call succeeds without its signature\<close>

lemma require_admin_Ok: "require_admin s = Ok a \<longleftrightarrow> admin_key (adm s) = Some a"
  by (auto simp: require_admin_def ok_iff)

lemma admin_calls_signed: "run_admin env c s = (Ok u, t) \<Longrightarrow> signed_by_role env s (admin_role c)"
  by (cases c) (auto simp: void_Ok ok_iff do_set_min_topup_def do_rotate_admin_def lib_set_oracle_config_def
      do_recover_stranded_funds_def enable_emergency_stop_def disable_emergency_stop_def add_accepted_token_def
      remove_accepted_token_def set_billing_retention_def compact_billing_statements_def set_protocol_fee_def
      do_add_to_blocklist_def do_remove_from_blocklist_def export_contract_snapshot_def export_subscription_summary_def
      export_subscription_summaries_def require_admin_Ok Let_def split: if_splits option.splits result.splits)

lemma subscription_calls_signed:
  "run_subscription env c s = (Ok u, t) \<Longrightarrow> signed_by_role env s (subscription_role c)"
  by (cases c) (auto simp: void_Ok ok_iff lib_calls unless_stopped_Ok party_def cancel_Ok pause_Ok resume_Ok
      do_create_subscription_def do_create_subscription_with_token_def do_create_subscription_from_plan_def
      do_deposit_funds_def do_cleanup_subscription_def do_withdraw_subscriber_funds_def do_partial_refund_def
      do_migrate_subscription_to_plan_def do_update_subscription_cap_def do_set_metadata_def do_delete_metadata_def
      Let_def split: if_splits option.splits)

lemma charge_calls_signed: "run_charge env c s = (Ok u, t) \<Longrightarrow> signed_by_role env s (charge_role c)"
  by (cases c) (auto simp: void_Ok ok_iff lib_calls unless_stopped_Ok do_charge_one_off_def do_batch_charge_def Let_def
      split: if_splits)

lemma merchant_calls_signed: "run_merchant env c s = (Ok u, t) \<Longrightarrow> signed_by_role env s (merchant_role c)"
  by (cases c) (auto simp: void_Ok ok_iff lib_calls do_create_plan_template_def do_create_plan_template_with_token_def
      do_update_plan_template_def do_set_plan_max_active_subs_def get_plan_template_def do_set_subscriber_credit_limit_def
      do_configure_usage_limits_def do_set_global_cap_default_def do_set_merchant_cap_default_def withdraw_merchant_funds_def
      withdraw_merchant_funds_for_token_def merchant_refund_def pause_merchant_def unpause_merchant_def
      initialize_merchant_config_def set_merchant_config_def update_merchant_config_def
      Let_def split: if_splits option.splits)

text \<open>C5. The access matrix holds: whatever call succeeds, the host has checked the signature of somebody who
  has the role the matrix demands for it in the state the call started from. Only the first
  initialisation and the three single charges demand nobody's.\<close>

theorem every_call_is_signed:
  assumes "transact env c s = (Ok u, t)"
  shows "signed_by_role env s (role_of c)"
  using assms
  by (cases c) (auto simp: transact_def invoke_Ok dest: admin_calls_signed subscription_calls_signed charge_calls_signed merchant_calls_signed)

text \<open>Without the signature of the admin the settings are out of reach; here, of the fee.\<close>

theorem every_call_is_signed_witness:
  "signed_by_role demo_env demo_subs (role_of (AdminCall (Set_Min_Topup (Address 1) 5)))"
proof -
  have "fst (transact demo_env (AdminCall (Set_Min_Topup (Address 1) 5)) demo_subs) = Ok ()"
    by (simp add: transact_def do_set_min_topup_def require_admin_auth_def require_auth_def require_admin_def demo_vault_adm)
  then obtain t where "transact demo_env (AdminCall (Set_Min_Topup (Address 1) 5)) demo_subs = (Ok (), t)"
    by (metis prod.collapse)
  then show ?thesis by (rule every_call_is_signed)
qed

end
