(* ===== verification/Vault_Effects.thy ===== *)
theory Vault_Effects
  imports Plan_Laws Merchant_Laws Batch_Laws
begin

text \<open>
  The contract as an abstract transition system. A call that succeeds does one of eight things to the
  books and the registry of subscriptions; \<open>effect\<close> lists them without the details of the code, and
  every entry point refines it. The invariants of the vault are then proved on this relation.
\<close>

section \<open>The abstract steps\<close>

text \<open>What new subscriptions take their terms from: plans and default caps.\<close>

definition terms_ok :: "vault \<Rightarrow> bool" where
  "terms_ok s \<longleftrightarrow>
     (\<forall>p plan. plan_key (pln s) p = Some plan \<longrightarrow>
        60 \<le> plan_interval_seconds plan \<and> plan_interval_seconds plan \<le> 31536000 \<and>
        (\<forall>c. plan_lifetime_cap plan = Some c \<longrightarrow> 0 < c)) \<and>
     (\<forall>c. cap_default_key (sbs s) = Some c \<longrightarrow> 0 < c) \<and>
     (\<forall>m c. merch_cap_key (sbs s) m = Some c \<longrightarrow> 0 < c)"

text \<open>Everything the vault remembers about its subscriptions besides the records themselves.\<close>

definition registry :: "vault \<Rightarrow> u32 option \<times> (address \<rightharpoonup> u32 list) \<times> (address \<rightharpoonup> u32 list) \<times> (u32 \<rightharpoonup> u64)
    \<times> (u32 \<times> string \<rightharpoonup> bool) \<times> (u32 \<rightharpoonup> subscription)" where
  "registry s = (next_id_key (sbs s), merchant_subs_key (sbs s), token_subs_key (sbs s),
     charged_period_key (sbs s), usage_ref_key (sbs s), persistent_sub_key (sbs s))"

text \<open>The state left outside the step in question: the terms stay sound, the fee below its maximum, and no
  lock is left behind.\<close>

definition orderly :: "vault \<Rightarrow> vault \<Rightarrow> bool" where
  "orderly s t \<longleftrightarrow> (terms_ok s \<longrightarrow> terms_ok t) \<and>
     (get_protocol_fee_bps s \<le> 10000 \<longrightarrow> get_protocol_fee_bps t \<le> 10000) \<and> lock_key t = lock_key s"

lemma orderly_same:
  "plan_key (pln t) = plan_key (pln s) \<Longrightarrow> cap_default_key (sbs t) = cap_default_key (sbs s) \<Longrightarrow>
   merch_cap_key (sbs t) = merch_cap_key (sbs s) \<Longrightarrow> adm t = adm s \<Longrightarrow> lock_key t = lock_key s \<Longrightarrow> orderly s t"
  by (simp add: orderly_def terms_ok_def get_protocol_fee_bps_def)

text \<open>Liabilities far enough from the bound of \<open>i128\<close> for the fee arithmetic to be exact.\<close>

definition funded :: "vault \<Rightarrow> bool" where
  "funded s \<longleftrightarrow> finite_books s \<and> get_protocol_fee_bps s \<le> 10000
     \<and> (\<forall>i x. subs s i = Some x \<longrightarrow> sub_ok x) \<and> (\<forall>tok. owed s tok * 10000 \<le> I128_MAX)"

inductive effect :: "env \<Rightarrow> bool \<Rightarrow> vault \<Rightarrow> vault \<Rightarrow> bool" for env and clean where
  administered: "orderly s t \<Longrightarrow> subs t = subs s \<Longrightarrow> registry t = registry s \<Longrightarrow>
    merchant_balances t = merchant_balances s \<Longrightarrow> total_accounted_key t = total_accounted_key s \<Longrightarrow>
    tokens t = tokens s \<Longrightarrow> effect env clean s t"
| created: "orderly s t \<Longrightarrow> next_id_of s < U32_MAX \<Longrightarrow> terms_ok s \<longrightarrow> sub_ok x \<Longrightarrow> prepaid_balance x = 0 \<Longrightarrow>
    registry t = registry (store_new_subscription (next_id_of s) (next_id_of s + 1) x s) \<Longrightarrow>
    subs t = (subs s)(next_id_of s \<mapsto> x) \<Longrightarrow>
    merchant_balances t = merchant_balances s \<Longrightarrow> total_accounted_key t = total_accounted_key s \<Longrightarrow>
    tokens t = tokens s \<Longrightarrow> effect env clean s t"
| amended: "orderly s t \<Longrightarrow> subs s i = Some x \<Longrightarrow> terms_ok s \<longrightarrow> develops x y \<Longrightarrow>
    prepaid_balance y = prepaid_balance x \<Longrightarrow> token y = token x \<Longrightarrow> subs t = (subs s)(i \<mapsto> y) \<Longrightarrow>
    registry t = registry s \<Longrightarrow> merchant_balances t = merchant_balances s \<Longrightarrow>
    total_accounted_key t = total_accounted_key s \<Longrightarrow> tokens t = tokens s \<Longrightarrow> effect env clean s t"
| deposited: "orderly s t \<Longrightarrow> subs s i = Some x \<Longrightarrow> develops x y \<Longrightarrow> prepaid_balance y = prepaid_balance x + amt \<Longrightarrow>
    authorized env src \<Longrightarrow> token_transfer env (token x) src (current_contract_address env) amt (tokens s) = Some (tokens t) \<Longrightarrow>
    subs t = (subs s)(i \<mapsto> y) \<Longrightarrow> registry t = registry s \<Longrightarrow> merchant_balances t = merchant_balances s \<Longrightarrow>
    \<forall>tok. get_total_accounted t tok = get_total_accounted s tok + (if tok = token x then amt else 0) \<Longrightarrow>
    \<forall>tok. get_total_accounted s tok \<le> I128_MAX \<longrightarrow> get_total_accounted t tok \<le> I128_MAX \<Longrightarrow>
    effect env clean s t"
| returned: "orderly s t \<Longrightarrow> subs s i = Some x \<Longrightarrow> develops x y \<Longrightarrow> prepaid_balance y = prepaid_balance x - amt \<Longrightarrow>
    token_transfer env (token x) (current_contract_address env) dst amt (tokens s) = Some (tokens t) \<Longrightarrow>
    subs t = (subs s)(i \<mapsto> y) \<Longrightarrow> registry t = registry s \<Longrightarrow> merchant_balances t = merchant_balances s \<Longrightarrow>
    \<forall>tok. get_total_accounted t tok = get_total_accounted s tok - (if tok = token x then amt else 0) \<Longrightarrow>
    effect env clean s t"
| charged: "orderly s t \<Longrightarrow> charge_frame (s\<lparr>adm := adm t\<rparr>) t \<Longrightarrow>
    (clean \<longrightarrow> funded s \<longrightarrow> finite_books t \<and> owed t = owed s) \<Longrightarrow> effect env clean s t"
| paid: "paid_out env m tok dst amt s t \<Longrightarrow>
    get_total_accounted t = get_total_accounted s \<or>
    get_total_accounted t = (\<lambda>k. get_total_accounted s k - (if k = tok then amt else 0)) \<Longrightarrow> effect env clean s t"
| swept: "orderly s t \<Longrightarrow> sbs t = sbs s \<Longrightarrow> merchant_balances t = merchant_balances s \<Longrightarrow>
    total_accounted_key t = total_accounted_key s \<Longrightarrow>
    token_transfer env tok (current_contract_address env) dst amt (tokens s) = Some (tokens t) \<Longrightarrow>
    amt \<le> tokens s tok (current_contract_address env) - get_total_accounted s tok \<Longrightarrow> effect env clean s t"

inductive_cases effect_cases: "effect env clean s t"

section \<open>Administration\<close>

text \<open>What an operation may write that leaves subscriptions, books and terms alone.\<close>

lemma administered_frame:
  "sbs t = sbs s \<Longrightarrow> plan_key (pln t) = plan_key (pln s) \<Longrightarrow> merchant_balances t = merchant_balances s \<Longrightarrow>
   total_accounted_key t = total_accounted_key s \<Longrightarrow> tokens t = tokens s \<Longrightarrow> lock_key t = lock_key s \<Longrightarrow>
   (get_protocol_fee_bps s \<le> 10000 \<longrightarrow> get_protocol_fee_bps t \<le> 10000) \<Longrightarrow> effect env clean s t"
  by (rule administered) (simp_all add: orderly_def terms_ok_def registry_def)

lemma untouched: "sbs t = sbs s \<Longrightarrow> adm t = adm s \<Longrightarrow> plan_key (pln t) = plan_key (pln s) \<Longrightarrow>
   merchant_balances t = merchant_balances s \<Longrightarrow> total_accounted_key t = total_accounted_key s \<Longrightarrow> tokens t = tokens s \<Longrightarrow>
   lock_key t = lock_key s \<Longrightarrow> effect env clean s t"
  by (rule administered_frame) (simp_all add: get_protocol_fee_bps_def)

lemma init_refines: "do_init env tok d a m g s = (Ok u, t) \<Longrightarrow> effect env clean s t"
  by (auto simp: do_init_def ok_iff Let_def get_protocol_fee_bps_def intro!: administered_frame split: if_splits)

lemma settings_refine:
  "do_set_min_topup env a n s = (Ok u, t) \<Longrightarrow> effect env clean s t"
  "lib_set_oracle_config env a en orc g s = (Ok u, t) \<Longrightarrow> effect env clean s t"
  "enable_emergency_stop env a s = (Ok u, t) \<Longrightarrow> effect env clean s t"
  "disable_emergency_stop env a s = (Ok u, t) \<Longrightarrow> effect env clean s t"
  "add_accepted_token env a tok d s = (Ok u, t) \<Longrightarrow> effect env clean s t"
  "remove_accepted_token env a tok s = (Ok u, t) \<Longrightarrow> effect env clean s t"
  "set_protocol_fee env a tok f s = (Ok u, t) \<Longrightarrow> effect env clean s t"
  by (auto simp: do_set_min_topup_def lib_set_oracle_config_def set_oracle_config_def enable_emergency_stop_def
      disable_emergency_stop_def add_accepted_token_def remove_accepted_token_def set_protocol_fee_def ok_iff Let_def
      get_protocol_fee_bps_def intro!: administered_frame split: if_splits option.splits)

lemma rotate_refines: "do_rotate_admin env a b n s = (Ok u, t) \<Longrightarrow> effect env clean s t"
  by (auto simp: do_rotate_admin_def ok_iff Let_def check_and_advance_Ok get_protocol_fee_bps_def
      intro!: administered_frame split: if_splits)

lemma lists_refine:
  "set_billing_retention env a k s = (Ok u, t) \<Longrightarrow> effect env clean s t"
  "do_add_to_blocklist env a who why s = (Ok u, t) \<Longrightarrow> effect env clean s t"
  "do_remove_from_blocklist env a who s = (Ok u, t) \<Longrightarrow> effect env clean s t"
  "export_contract_snapshot env a s = (Ok cs, t) \<Longrightarrow> effect env clean s t"
  "export_subscription_summary env a i s = (Ok su, t) \<Longrightarrow> effect env clean s t"
  "export_subscription_summaries env a i n s = (Ok sus, t) \<Longrightarrow> effect env clean s t"
  by (auto simp: set_billing_retention_def set_retention_config_def do_add_to_blocklist_def do_remove_from_blocklist_def
      export_contract_snapshot_def export_subscription_summary_def export_subscription_summaries_def ok_iff Let_def
      intro!: untouched split: if_splits)

lemma compact_loop_frame: "compact_loop i nxt target seq acc s = (r, t) \<Longrightarrow> t = s\<lparr>stm := stm t\<rparr>"
proof (induction i nxt target seq acc s rule: compact_loop.induct)
  case (1 i nxt target seq acc s)
  show ?case
  proof (cases "seq < nxt \<and> pruned_count acc < target")
    case go: True
    show ?thesis
    proof (cases "srow_key (stm s) (i, seq)")
      case None
      with go "1.prems" have "compact_loop i nxt target (seq + 1) acc s = (r, t)" by (subst (asm) compact_loop.simps) simp
      then show ?thesis by (rule "1.IH"(1) [OF go None])
    next
      case (Some row)
      with go "1.prems" have run: "try_res (accumulate_row acc row) s (\<lambda>acc'.
          compact_loop i nxt target (seq + 1) acc' (remove_row i seq s)) = (r, t)"
        by (subst (asm) compact_loop.simps) simp
      show ?thesis
      proof (cases "accumulate_row acc row")
        case (Ok acc')
        with run have "compact_loop i nxt target (seq + 1) acc' (remove_row i seq s) = (r, t)" by simp
        from "1.IH"(2) [OF go Some this] show ?thesis by (simp add: remove_row_def)
      qed (use run in auto)
    qed
  next
    case False
    with "1.prems" show ?thesis by (subst (asm) compact_loop.simps) auto
  qed
qed

lemma compaction_frame:
  assumes "compact_subscription_statements i k s = (Ok cs, t)"
  shows "t = s\<lparr>stm := stm t\<rparr>"
proof (cases "t = s")
  case False
  with assms obtain nxt target seq acc s1 where "compact_loop i nxt target seq empty_aggregate s = (Ok acc, s1)"
    and t: "\<exists>x. t = s1\<lparr>stm := x\<rparr>"
    unfolding compact_subscription_statements_def Let_def by (auto simp: ok_iff split: if_splits) blast
  from compact_loop_frame [OF this(1)] obtain x where "s1 = s\<lparr>stm := x\<rparr>" by blast
  with t show ?thesis by auto
qed simp

lemma compaction_refines:
  assumes "compact_billing_statements env a i k s = (Ok cs, t)"
  shows "effect env clean s t"
proof -
  from assms obtain s1 where "compact_subscription_statements i k s = (Ok cs, s1)" and t: "\<exists>tp ev. t = publish tp ev s1"
    by (auto simp: compact_billing_statements_def ok_iff Let_def)
  from compaction_frame [OF this(1)] obtain x where "s1 = s\<lparr>stm := x\<rparr>" by blast
  with t show ?thesis by (auto intro!: untouched)
qed

lemma recovery_refines:
  assumes "do_recover_stranded_funds env a tok r amt rid why s = (Ok u, t)"
  shows "effect env clean s t"
proof -
  from assms obtain l w where "amt \<le> tokens s tok (current_contract_address env) - get_total_accounted s tok"
    and "token_transfer env tok (current_contract_address env) r amt (tokens s) = Some l"
    and "\<exists>tp ev. t = (publish tp ev (s\<lparr>adm := (adm s)\<lparr>recovery_key := w\<rparr>\<rparr>))\<lparr>tokens := l\<rparr>"
    by (auto simp: do_recover_stranded_funds_def ok_iff Let_def checked_defs not_less)
  then show ?thesis
    by (intro swept [where tok = tok and dst = r and amt = amt]) (auto simp: orderly_def terms_ok_def get_protocol_fee_bps_def)
qed

section \<open>Merchants, plans and metadata\<close>

lemma metadata_refines:
  "do_set_metadata env i a key v s = (Ok u, t) \<Longrightarrow> effect env clean s t"
  "do_delete_metadata env i a key s = (Ok u, t) \<Longrightarrow> effect env clean s t"
  by (auto simp: do_set_metadata_def do_delete_metadata_def set_metadata_keys_def set_metadata_value_def ok_iff Let_def
      intro!: untouched split: if_splits option.splits)

lemma merchants_refine:
  "pause_merchant env m s = (Ok u, t) \<Longrightarrow> effect env clean s t"
  "unpause_merchant env m s = (Ok u, t) \<Longrightarrow> effect env clean s t"
  "initialize_merchant_config env m p f ops fa url s = (Ok c, t) \<Longrightarrow> effect env clean s t"
  "set_merchant_config env m c s = (Ok u, t) \<Longrightarrow> effect env clean s t"
  "update_merchant_config env m np nf nops na nfa nurl npa s = (Ok c, t) \<Longrightarrow> effect env clean s t"
  by (auto simp: pause_merchant_def unpause_merchant_def initialize_merchant_config_def set_merchant_config_def
      update_merchant_config_def merchant_writes ok_iff Let_def intro!: untouched split: if_splits)

lemma store_new_plan_refines:
  assumes "store_new_plan env m tok amt iv en cap s = (Ok p, t)" and "60 \<le> iv" and "iv \<le> 31536000"
    and "\<not> (case cap of Some c \<Rightarrow> c \<le> 0 | None \<Rightarrow> False)"
  shows "effect env clean s t"
  using assms
  by (intro administered) (auto simp: store_new_plan_def next_plan_id_def put_plan_def Let_def orderly_def terms_ok_def
      registry_def get_protocol_fee_bps_def split: option.splits if_splits)

lemma plans_refine:
  "do_create_plan_template env m amt iv en cap s = (Ok p, t) \<Longrightarrow> effect env clean s t"
  "do_create_plan_template_with_token env m tok amt iv en cap s = (Ok p, t) \<Longrightarrow> effect env clean s t"
  by (auto simp: do_create_plan_template_def do_create_plan_template_with_token_def ok_iff split: option.splits if_splits
      intro: store_new_plan_refines)

lemma plan_update_refines:
  "do_update_plan_template env m p amt iv en cap s = (Ok p', t) \<Longrightarrow> effect env clean s t"
  by (intro administered) (auto simp: do_update_plan_template_def next_plan_id_def put_plan_def Let_def ok_iff orderly_def
      terms_ok_def registry_def get_protocol_fee_bps_def split: option.splits if_splits)

lemma plan_limit_refines:
  "do_set_plan_max_active_subs env m p n s = (Ok u, t) \<Longrightarrow> effect env clean s t"
  by (auto simp: do_set_plan_max_active_subs_def ok_iff Let_def intro!: untouched)

text \<open>Limits and default caps are kept beside the subscriptions.\<close>

lemma limits_refine:
  "do_set_subscriber_credit_limit env a w tok n s = (Ok u, t) \<Longrightarrow> effect env clean s t"
  "do_configure_usage_limits env m i mc w' b c s = (Ok u, t) \<Longrightarrow> effect env clean s t"
  "do_set_global_cap_default env a cap s = (Ok u, t) \<Longrightarrow> effect env clean s t"
  "do_set_merchant_cap_default env m cap s = (Ok u, t) \<Longrightarrow> effect env clean s t"
  "do_update_subscription_cap env a i cap s = (Ok u, t) \<Longrightarrow> effect env clean s t"
  by (auto simp: do_set_subscriber_credit_limit_def do_configure_usage_limits_def do_set_global_cap_default_def
      do_set_merchant_cap_default_def do_update_subscription_cap_def ok_iff Let_def orderly_def terms_ok_def registry_def
      get_protocol_fee_bps_def intro!: administered split: option.splits if_splits)

section \<open>Subscriptions\<close>

lemma registry_publish [simp]: "registry (publish tp ev s) = registry s"
  by (simp add: registry_def)

lemma registry_put_sub [simp]: "registry (put_sub i x s) = registry s"
  by (simp add: registry_def)

lemma registry_put_sub_plan [simp]: "registry (put_sub_plan i p s) = registry s"
  by (simp add: registry_def)

lemma resolved_cap_pos:
  "terms_ok s \<Longrightarrow> \<forall>c. explicit = Some c \<longrightarrow> 0 < c \<Longrightarrow> resolve_cap s m explicit = Some c \<Longrightarrow> 0 < c"
  by (auto simp: resolve_cap_def terms_ok_def get_merchant_cap_default_def get_global_cap_default_def
      split: option.splits if_splits)

lemma new_sub_ok:
  "60 \<le> iv \<Longrightarrow> iv \<le> 31536000 \<Longrightarrow> \<forall>c. cap = Some c \<longrightarrow> 0 < c \<Longrightarrow>
   sub_ok (new_subscription env u m tok amt iv en cap ex)"
  by (fastforce simp: sub_ok_def)

lemma create_refines:
  assumes "do_create_subscription_with_token env u m tok amt iv en cap ex s = (Ok i, t)"
  shows "effect env clean s t"
proof -
  note c = create_Ok [OF assms]
  let ?x = "new_subscription env u m tok amt iv en (resolve_cap s m cap) ex"
  obtain tp ev where t: "t = publish tp ev (store_new_subscription (next_id_of s) (next_id_of s + 1) ?x s)"
    using c(9,11) by auto
  have "sub_ok ?x" using c(4,5,7) by (intro new_sub_ok) auto
  then show ?thesis
    using c(9,10) by (intro created [where x = ?x]) (simp_all add: t orderly_def terms_ok_def get_protocol_fee_bps_def store_new_subscription_def)
qed

lemma create_default_refines:
  "do_create_subscription env u m amt iv en cap ex s = (Ok i, t) \<Longrightarrow> effect env clean s t"
  by (auto simp: do_create_subscription_def ok_iff intro: create_refines)

lemma from_plan_refines:
  assumes "do_create_subscription_from_plan env u p s = (Ok i, t)"
  shows "effect env clean s t"
proof -
  from assms obtain plan :: plan_template where plan: "plan_key (pln s) p = Some plan" and i: "i = next_id_of s" "i + 1 \<le> U32_MAX"
    and t: "\<exists>tp ev. t = publish tp ev (put_sub_plan i p (store_new_subscription i (i + 1)
        (new_subscription env u (plan_merchant plan) (plan_token plan) (plan_amount plan) (plan_interval_seconds plan)
          (plan_usage_enabled plan) (resolve_cap s (plan_merchant plan) (plan_lifetime_cap plan)) None) s))"
    by (rule from_plan_Ok)
  let ?x = "new_subscription env u (plan_merchant plan) (plan_token plan) (plan_amount plan) (plan_interval_seconds plan)
          (plan_usage_enabled plan) (resolve_cap s (plan_merchant plan) (plan_lifetime_cap plan)) None"
  have "terms_ok s \<longrightarrow> sub_ok ?x"
  proof
    assume ok: "terms_ok s"
    with plan have "60 \<le> plan_interval_seconds plan" "plan_interval_seconds plan \<le> 31536000"
      "\<forall>c. plan_lifetime_cap plan = Some c \<longrightarrow> 0 < c" by (auto simp: terms_ok_def)
    with resolved_cap_pos [OF ok] show "sub_ok ?x" by (intro new_sub_ok) auto
  qed
  then show ?thesis
    using i t by (intro created [where x = ?x])
      (auto simp: orderly_def terms_ok_def get_protocol_fee_bps_def store_new_subscription_def)
qed

text \<open>The operations of the parties move the status only.\<close>

lemma status_refines:
  assumes "subs s i = Some x" and "status_path (status x) st" and "t = publish tp ev (put_sub i (x\<lparr>status := st\<rparr>) s)"
  shows "effect env clean s t"
  using assms
  by (intro amended [where x = x and y = "x\<lparr>status := st\<rparr>"]) (auto simp: develops_def sub_ok_def intro: orderly_same)

lemma unchanged_refines: "t = s \<Longrightarrow> effect env clean s t"
  by (rule untouched) simp_all

lemma party_refines:
  "do_cancel_subscription env i a s = (Ok u, t) \<Longrightarrow> effect env clean s t"
  "do_pause_subscription env i a s = (Ok u, t) \<Longrightarrow> effect env clean s t"
  "do_resume_subscription env i a s = (Ok u, t) \<Longrightarrow> effect env clean s t"
  by (auto simp: cancel_Ok pause_Ok resume_Ok party_def simp del: can_transition_targets
      intro: status_refines unchanged_refines status_path_step split: if_splits)

lemma cleanup_refines:
  assumes "do_cleanup_subscription env i a s = (Ok u, t)"
  shows "effect env clean s t"
  using assms by (rule cleanup_Ok) (auto intro: status_refines [OF _ Archived_reachable] unchanged_refines)

lemma migrate_refines:
  assumes "do_migrate_subscription_to_plan env u i p s = (Ok v, t)"
  shows "effect env clean s t"
proof -
  from assms have "do_migrate_subscription_to_plan env u i p s = (Ok (), t)" by simp
  then obtain x and q :: u32 and old new :: plan_template where x: "subs s i = Some x" and new: "plan_key (pln s) p = Some new"
    and cap: "\<forall>c. plan_lifetime_cap new = Some c \<longrightarrow> lifetime_charged x \<le> c"
    and t: "\<exists>tp ev. t = publish tp ev (put_sub_plan i p (put_sub i (x\<lparr>lifetime_cap := plan_lifetime_cap new,
       amount := plan_amount new, interval_seconds := plan_interval_seconds new\<rparr>) s))"
    by (rule migrate_Ok)
  let ?y = "x\<lparr>lifetime_cap := plan_lifetime_cap new, amount := plan_amount new, interval_seconds := plan_interval_seconds new\<rparr>"
  have "terms_ok s \<longrightarrow> develops x ?y"
    using new cap by (auto simp: terms_ok_def develops_def sub_ok_def)
  then show ?thesis
    using x t by (intro amended [where x = x and y = ?y]) (auto intro: orderly_same)
qed

section \<open>Money\<close>

lemma registry_sub_only: "sbs t = (sbs s)\<lparr>sub_key := m\<rparr> \<Longrightarrow> registry t = registry s"
  by (simp add: registry_def)

lemma orderly_sub_only:
  "sbs t = (sbs s)\<lparr>sub_key := m\<rparr> \<Longrightarrow> pln t = pln s \<Longrightarrow> adm t = adm s \<Longrightarrow> lock_key t = lock_key s \<Longrightarrow> orderly s t"
  by (rule orderly_same) simp_all

lemma deposit_total_bound:
  assumes "do_deposit_funds env i u amt s = (Ok v, t)" and "get_total_accounted s tok \<le> I128_MAX"
  shows "get_total_accounted t tok \<le> I128_MAX"
proof -
  obtain k a w where "add_total_accounted k amt a = (Ok (), w)" "total_accounted_key a = total_accounted_key s"
    "total_accounted_key t = total_accounted_key w"
    using assms(1) by (auto simp: do_deposit_funds_def ok_iff Let_def)
  then show ?thesis
    using assms(2) by (auto simp: add_total_accounted_Ok get_total_accounted_def i128_range split: if_splits)
qed

lemma deposit_refines:
  assumes "do_deposit_funds env i u amt s = (Ok v, t)"
  shows "effect env clean s t"
proof -
  from assms have "do_deposit_funds env i u amt s = (Ok (), t)" by simp
  then obtain x l where f: "authorized env u" "subs s i = Some x" "0 \<le> amt"
    and cap: "enforce_deposit_cap x amt = Ok ()"
    and l: "token_transfer env (token x) u (current_contract_address env) amt (tokens s) = Some l" "tokens t = l"
    and subs_t: "subs t = (subs s)(i \<mapsto> recovered (x\<lparr>prepaid_balance := prepaid_balance x + amt\<rparr>))"
    and rest: "mer t = mer s" "adm t = adm s" "pln t = pln s" "lock_key t = lock_key s" "sbs t = (sbs s)\<lparr>sub_key := subs t\<rparr>"
    and total: "\<forall>tok. get_total_accounted t tok = get_total_accounted s tok + (if tok = token x then amt else 0)"
    by (rule deposit_Ok)
  let ?y = "recovered (x\<lparr>prepaid_balance := prepaid_balance x + amt\<rparr>)"
  have "status_path (status x) (status ?y)" by (auto simp: recovered_def intro: status_path_step)
  then have "develops x ?y" using f(3) by (auto simp: develops_def sub_ok_def)
  then show ?thesis
    using f l subs_t rest total deposit_total_bound [OF assms, of "token x"]
    by (intro deposited [where x = x and y = ?y and amt = amt and src = u])
      (simp_all add: orderly_sub_only [OF rest(5,3,2,4)] registry_sub_only [OF rest(5)])
qed

lemma develops_less: "0 \<le> n \<Longrightarrow> develops x (x\<lparr>prepaid_balance := n\<rparr>)"
  by (simp add: develops_def sub_ok_def)

lemma withdraw_refines:
  assumes "do_withdraw_subscriber_funds env i u s = (Ok v, t)"
  shows "effect env clean s t"
proof -
  from assms have "do_withdraw_subscriber_funds env i u s = (Ok (), t)" by simp
  then obtain x l where f: "subs s i = Some x"
    and l: "token_transfer env (token x) (current_contract_address env) u (prepaid_balance x) (tokens s) = Some l" "tokens t = l"
    and subs_t: "subs t = (subs s)(i \<mapsto> x\<lparr>prepaid_balance := 0\<rparr>)"
    and rest: "mer t = mer s" "adm t = adm s" "pln t = pln s" "lock_key t = lock_key s" "sbs t = (sbs s)\<lparr>sub_key := subs t\<rparr>"
    and total: "\<forall>tok. get_total_accounted t tok = get_total_accounted s tok - (if tok = token x then prepaid_balance x else 0)"
    by (rule subscriber_withdraw_Ok)
  then show ?thesis
    by (intro returned [where x = x and y = "x\<lparr>prepaid_balance := 0\<rparr>" and amt = "prepaid_balance x" and dst = u])
      (simp_all add: orderly_sub_only [OF rest(5,3,2,4)] registry_sub_only [OF rest(5)] develops_less)
qed

lemma partial_refund_refines:
  assumes "do_partial_refund env a i u amt s = (Ok v, t)"
  shows "effect env clean s t"
proof -
  from assms have "do_partial_refund env a i u amt s = (Ok (), t)" by simp
  then obtain x l where f: "subs s i = Some x" "amt \<le> prepaid_balance x"
    and l: "token_transfer env (token x) (current_contract_address env) u amt (tokens s) = Some l" "tokens t = l"
    and subs_t: "subs t = (subs s)(i \<mapsto> x\<lparr>prepaid_balance := prepaid_balance x - amt\<rparr>)"
    and rest: "mer t = mer s" "adm t = adm s" "pln t = pln s" "lock_key t = lock_key s" "sbs t = (sbs s)\<lparr>sub_key := subs t\<rparr>"
    and total: "\<forall>tok. get_total_accounted t tok = get_total_accounted s tok - (if tok = token x then amt else 0)"
    by (rule partial_refund_Ok)
  then show ?thesis
    by (intro returned [where x = x and y = "x\<lparr>prepaid_balance := prepaid_balance x - amt\<rparr>" and amt = amt and dst = u])
      (simp_all add: orderly_sub_only [OF rest(5,3,2,4)] registry_sub_only [OF rest(5)] develops_less)
qed

lemma merchant_withdraw_refines:
  assumes "withdraw_merchant_funds_for_token env m tok amt s = (Ok v, t)"
  shows "effect env clean s t"
proof (rule paid [OF withdraw_merchant_Ok(1) [OF assms]], rule disjI2)
  show "get_total_accounted t = (\<lambda>k. get_total_accounted s k - (if k = tok then amt else 0))"
    by (rule ext) (rule withdraw_merchant_Ok(3) [OF assms])
qed

lemma merchant_default_refines: "withdraw_merchant_funds env m amt s = (Ok v, t) \<Longrightarrow> effect env clean s t"
  by (auto simp: withdraw_merchant_funds_def ok_iff intro: merchant_withdraw_refines)

lemma merchant_refund_refines:
  assumes "merchant_refund env m u tok amt s = (Ok v, t)"
  shows "effect env clean s t"
proof (rule paid [OF merchant_refund_Ok(1) [OF assms]], rule disjI1)
  show "get_total_accounted t = get_total_accounted s"
    by (rule ext) (rule merchant_refund_Ok(2) [OF assms])
qed

section \<open>Charges\<close>

lemma funded_fee_safe: "funded s \<Longrightarrow> fee_safe s"
  unfolding fee_safe_def
proof (intro conjI allI impI)
  fix i x assume f: "funded s" and x: "subs s i = Some x"
  then have "prepaid_balance x \<le> owed s (token x)"
    by (intro prepaid_le_owed) (auto simp: funded_def)
  moreover have "owed s (token x) * 10000 \<le> I128_MAX" using f by (simp add: funded_def)
  ultimately show "prepaid_balance x * 10000 \<le> I128_MAX" by linarith
qed (simp add: funded_def)

text \<open>Well-formed subscriptions stay well formed under charges.\<close>

lemma frame_subs_ok:
  assumes "charge_frame s t" and "\<forall>i x. subs s i = Some x \<longrightarrow> sub_ok x"
  shows "\<forall>i x. subs t i = Some x \<longrightarrow> sub_ok x"
proof (intro allI impI)
  fix i y assume y: "subs t i = Some y"
  have "dom (subs t) = dom (subs s)" using assms(1) by (simp add: charge_frame_def subs_evolve_def)
  with y obtain x where x: "subs s i = Some x" by blast
  from frame_sub [OF assms(1) x y] have "develops x y" by (simp add: evolves_def)
  with assms(2) x show "sub_ok y" by (auto simp: develops_def)
qed

lemma funded_after:
  assumes "charge_frame s t" and "finite_books t" and "owed t = owed s" and "funded s"
  shows "funded t"
  using frame_subs_ok [OF assms(1)] assms by (simp add: funded_def charge_frame_def get_protocol_fee_bps_def)

lemma charge_frame_effect:
  assumes "charge_frame s t" and "clean \<Longrightarrow> funded s \<Longrightarrow> finite_books t \<and> owed t = owed s"
  shows "effect env clean s t"
proof (rule charged)
  from assms(1) have "adm t = adm s" by (simp add: charge_frame_def)
  then show "charge_frame (s\<lparr>adm := adm t\<rparr>) t" using assms(1) by simp
  show "orderly s t" using assms(1) by (intro orderly_same) (simp_all add: charge_frame_def)
qed (use assms(2) in simp)

lemma charge_one_books:
  assumes "charge_one env i now key s = (r, t)" and "r \<noteq> Err Overflow" and "funded s"
  shows "charge_frame s t" and "finite_books t" and "owed t = owed s"
proof -
  show "charge_frame s t" by (rule charge_steps.keeps_result [OF charge_one_keeps assms(1)])
  have "ends (settled s) (charge_one env i now key s)"
    using assms(3) funded_fee_safe by (intro charge_one_settled) (auto simp: funded_def)
  from endsD [OF this assms(1)] show "finite_books t" "owed t = owed s"
    using assms(2) by (simp_all add: settled_def)
qed

lemma charge_one_refines:
  assumes "charge_one env i now key s = (Ok c, t)"
  shows "effect env clean s t"
  using charge_one_books(2,3) [OF assms] charge_steps.keeps_result [OF charge_one_keeps assms]
  by (intro charge_frame_effect) simp_all

lemma charge_usage_refines:
  assumes "charge_usage_one env i u r s = (Ok c, t)"
  shows "effect env clean s t"
proof (rule charge_frame_effect)
  show "charge_frame s t" by (rule charge_steps.keeps_result [OF charge_usage_one_keeps assms])
  assume "funded s"
  then have "finite_books s" "fee_safe s" using funded_fee_safe by (auto simp: funded_def)
  from endsD [OF charge_usage_one_settled [OF this] assms] show "finite_books t \<and> owed t = owed s"
    by (simp add: settled_def)
qed

lemma one_off_refines:
  assumes "do_charge_one_off env i m amt s = (Ok v, t)"
  shows "effect env clean s t"
proof -
  from assms have "do_charge_one_off env i m amt s = (Ok (), t)" by simp
  then have "charge_frame s t \<and> (finite_books s \<longrightarrow> owed t = owed s \<and> finite_books t)"
    by (rule one_off_changes) blast
  then show ?thesis by (intro charge_frame_effect) (auto simp: funded_def)
qed

text \<open>A batch keeps the books as long as none of its charges reports an overflow.\<close>

lemma batch_trace_books:
  "funded s \<Longrightarrow> \<forall>m \<in> set (batch_trace env now ids s). fst m \<noteq> Err Overflow \<Longrightarrow>
   finite_books (last (s # map snd (batch_trace env now ids s))) \<and>
   owed (last (s # map snd (batch_trace env now ids s))) = owed s"
proof (induction ids arbitrary: s)
  case (Cons i ids)
  obtain r u where m: "charge_one env i now None s = (r, u)" by fastforce
  with Cons.prems(2) have "r \<noteq> Err Overflow" by simp
  note books = charge_one_books [OF m this Cons.prems(1)]
  from funded_after [OF books Cons.prems(1)] Cons.IH [of u] Cons.prems(2) books(3) m show ?case by auto
qed (simp add: funded_def)

lemma batch_refines:
  assumes "do_batch_charge env ids n s = (Ok rs, t)"
    and "clean \<Longrightarrow> \<forall>r \<in> set rs. error_code r \<noteq> to_code Overflow"
  shows "effect env clean s t"
proof (rule charged)
  from assms(1) obtain admin s1 where nonce: "check_and_advance env admin DOMAIN_BATCH_CHARGE n s = (Ok (), s1)"
    and loop: "batch_loop env (ledger_timestamp env) ids [] s1 = (Ok rs, t)"
    by (auto simp: do_batch_charge_def ok_iff)
  let ?trace = "batch_trace env (ledger_timestamp env) ids s1"
  have rs: "rs = map (batch_result \<circ> fst) ?trace" and t: "t = last (s1 # map snd ?trace)"
    using loop by (simp_all add: batch_loop_Ok)
  have frame: "charge_frame s1 t" unfolding t by (rule batch_trace_frame_last)
  then have adm: "adm t = adm s1" by (simp add: charge_frame_def)
  from nonce have "charge_frame (s\<lparr>adm := adm s1\<rparr>) s1" and s1: "sbs s1 = sbs s" "mer s1 = mer s"
    "pln s1 = pln s" "lock_key s1 = lock_key s" "get_protocol_fee_bps s1 = get_protocol_fee_bps s"
    by (auto simp: check_and_advance_Ok get_protocol_fee_bps_def intro: frame_untouched)
  with frame adm show "charge_frame (s\<lparr>adm := adm t\<rparr>) t" by (auto intro: charge_steps.R_trans)
  from frame s1 show "orderly s t"
    by (auto simp: charge_frame_def orderly_def terms_ok_def get_protocol_fee_bps_def)
  show "clean \<longrightarrow> funded s \<longrightarrow> finite_books t \<and> owed t = owed s"
  proof (intro impI)
    assume clean "funded s"
    have same: "owed s1 = owed s" "finite_books s1 = finite_books s"
      using s1 by (auto intro!: owed_cong finite_books_cong)
    with \<open>funded s\<close> s1 have "funded s1" by (simp add: funded_def)
    moreover have "\<forall>m \<in> set ?trace. fst m \<noteq> Err Overflow"
      using assms(2) [OF \<open>clean\<close>] by (auto simp: rs batch_result_def)
    ultimately show "finite_books t \<and> owed t = owed s"
      using batch_trace_books [of s1] by (simp only: t same)
  qed
qed

section \<open>Every call\<close>

text \<open>The lock of an entry point is taken and released around its effect.\<close>

lemma effect_lock: "effect env clean s t \<Longrightarrow> lock_key t = lock_key s"
  by (induction rule: effect.induct) (auto simp: orderly_def paid_out_def)

lemma relock_frame [simp]:
  "owed (s\<lparr>lock_key := k\<rparr>) = owed s" "finite_books (s\<lparr>lock_key := k\<rparr>) = finite_books s"
  "funded (s\<lparr>lock_key := k\<rparr>) = funded s" "registry (s\<lparr>lock_key := k\<rparr>) = registry s"
  "terms_ok (s\<lparr>lock_key := k\<rparr>) = terms_ok s" "next_id_of (s\<lparr>lock_key := k\<rparr>) = next_id_of s"
  "get_protocol_fee_bps (s\<lparr>lock_key := k\<rparr>) = get_protocol_fee_bps s"
  "get_total_accounted (s\<lparr>lock_key := k\<rparr>) tok = get_total_accounted s tok"
  "get_merchant_balance_by_token (s\<lparr>lock_key := k\<rparr>) m tok = get_merchant_balance_by_token s m tok"
  by (simp_all add: owed_def fun_eq_iff finite_books_def funded_def registry_def terms_ok_def get_protocol_fee_bps_def
      get_total_accounted_def get_merchant_balance_by_token_def next_id_of_def)

lemma relock_relations:
  "orderly s t \<Longrightarrow> orderly (s\<lparr>lock_key := k\<rparr>) (t\<lparr>lock_key := k\<rparr>)"
  "charge_frame s t \<Longrightarrow> charge_frame (s\<lparr>lock_key := k\<rparr>) (t\<lparr>lock_key := k\<rparr>)"
  "paid_out env m tok dst amt s t \<Longrightarrow> paid_out env m tok dst amt (s\<lparr>lock_key := k\<rparr>) (t\<lparr>lock_key := k\<rparr>)"
  "registry (store_new_subscription i j x (s\<lparr>lock_key := k\<rparr>)) = registry (store_new_subscription i j x s)"
  by (simp_all add: orderly_def charge_frame_def subs_evolve_def paid_out_def registry_def store_new_subscription_def
      merchant_index_def token_index_def Let_def)

lemma effect_relock:
  assumes "effect env clean s t"
  shows "effect env clean (s\<lparr>lock_key := k\<rparr>) (t\<lparr>lock_key := k\<rparr>)"
  using assms
proof (cases rule: effect.cases)
  case administered
  then show ?thesis by (intro effect.administered relock_relations) simp_all
next
  case (created x)
  then show ?thesis by (intro effect.created [where x = x] relock_relations) (simp_all add: relock_relations)
next
  case (amended i x y)
  then show ?thesis by (intro effect.amended [where i = i and x = x and y = y] relock_relations) simp_all
next
  case (deposited i x y amt src)
  then show ?thesis
    by (intro effect.deposited [where i = i and x = x and y = y and amt = amt and src = src] relock_relations) simp_all
next
  case (returned i x y amt dst)
  then show ?thesis
    by (intro effect.returned [where i = i and x = x and y = y and amt = amt and dst = dst] relock_relations) simp_all
next
  case charged
  have "s\<lparr>adm := adm t, lock_key := k\<rparr> = s\<lparr>lock_key := k, adm := adm t\<rparr>" by simp
  with relock_relations(2) [OF charged(2), of k] charged show ?thesis
    by (intro effect.charged relock_relations(1)) simp_all
next
  case (paid m tok dst amt)
  have "get_total_accounted (u\<lparr>lock_key := k\<rparr>) = get_total_accounted u" for u by (rule ext) simp
  with paid show ?thesis
    by (intro effect.paid [OF relock_relations(3)]) auto
next
  case (swept tok dst amt)
  then show ?thesis
    by (intro effect.swept [where tok = tok and dst = dst and amt = amt] relock_relations) simp_all
qed

lemma locked_refines:
  assumes "with_lock name body s = (Ok a, t)" and "\<And>s u. body s = (Ok a, u) \<Longrightarrow> effect env clean s u"
  shows "effect env clean s t"
proof -
  from assms(1) obtain u where free: "lock_key s name = None" and t: "t = drop_guard name u"
    and body: "body (s\<lparr>lock_key := (lock_key s)(name \<mapsto> True)\<rparr>) = (Ok a, u)" by (auto simp: with_lock_Ok)
  from assms(2) [OF body] have e: "effect env clean (s\<lparr>lock_key := (lock_key s)(name \<mapsto> True)\<rparr>) u" .
  have "(lock_key s)(name := None) = lock_key s" using free by auto
  with effect_lock [OF e] have "t = u\<lparr>lock_key := lock_key s\<rparr>" by (simp add: t drop_guard_def)
  with effect_relock [OF e, of "lock_key s"] show ?thesis by simp
qed

text \<open>No charge of a batch may report the overflow of a counter; other calls fail as a whole then.\<close>

fun batch_clean :: "env \<Rightarrow> call \<Rightarrow> vault \<Rightarrow> bool" where
  "batch_clean env (ChargeCall (Batch_Charge ids n)) s =
     (case fst (do_batch_charge env ids n s) of
        Ok rs \<Rightarrow> list_all (\<lambda>r. error_code r \<noteq> to_code Overflow) rs
      | _ \<Rightarrow> True)"
| "batch_clean env c s = True"

lemma admin_calls_refine: "run_admin env c s = (Ok u, t) \<Longrightarrow> effect env clean s t"
  by (cases c) (auto simp: void_Ok intro: init_refines settings_refine rotate_refines lists_refine compaction_refines
      recovery_refines)

lemma merchant_calls_refine: "run_merchant env c s = (Ok u, t) \<Longrightarrow> effect env clean s t"
  by (cases c) (auto simp: void_Ok lib_calls intro: plans_refine plan_update_refines plan_limit_refines limits_refine
      merchants_refine elim!: locked_refines intro: merchant_default_refines merchant_withdraw_refines merchant_refund_refines)

lemma subscription_calls_refine: "run_subscription env c s = (Ok u, t) \<Longrightarrow> effect env clean s t"
  by (cases c) (auto simp: void_Ok lib_calls unless_stopped_Ok intro: create_default_refines create_refines
      from_plan_refines party_refines cleanup_refines migrate_refines limits_refine metadata_refines
      deposit_refines withdraw_refines partial_refund_refines elim!: locked_refines)

lemma charge_calls_refine:
  assumes "run_charge env c s = (Ok u, t)"
  shows "effect env (batch_clean env (ChargeCall c) s) s t"
proof (cases c)
  case (Batch_Charge ids n)
  with assms obtain rs where "do_batch_charge env ids n s = (Ok rs, t)"
    by (auto simp: void_Ok lib_calls unless_stopped_Ok)
  then show ?thesis by (rule batch_refines) (simp add: Batch_Charge list_all_iff \<open>do_batch_charge env ids n s = (Ok rs, t)\<close>)
qed (use assms in \<open>auto simp: void_Ok lib_calls unless_stopped_Ok elim!: locked_refines
    intro: charge_one_refines charge_usage_refines one_off_refines\<close>)

lemma run_refines: "run env c s = (Ok u, t) \<Longrightarrow> effect env (batch_clean env c s) s t"
  by (cases c) (auto intro: admin_calls_refine subscription_calls_refine merchant_calls_refine charge_calls_refine)

lemma transact_refines: "effect env (batch_clean env c s) s (snd (transact env c s))"
proof (cases "run env c s")
  case (Pair r t)
  then show ?thesis
    by (cases r) (auto simp: transact_def invoke_def dest: run_refines intro: unchanged_refines)
qed

text \<open>C4. Every transaction of every entry point is one of the abstract steps when it succeeds, and changes
  nothing when it fails.\<close>

theorem transactions_refine_effects:
  "case transact env c s of
     (Ok u, t) \<Rightarrow> effect env (batch_clean env c s) s t
   | (r, t) \<Rightarrow> t = s"
proof (cases "run env c s")
  case (Pair r t)
  then show ?thesis by (cases r) (auto simp: transact_def invoke_def dest: run_refines)
qed

end
