(* ===== verification/Vault_Invariants.thy ===== *)
theory Vault_Invariants
  imports Vault_Effects
begin

text \<open>
  What holds of the vault after any sequence of calls: the registry of subscriptions stays well
  formed and forgets nothing, and the vault stays able to pay everything it owes. Both follow from the
  abstract steps of the calls, through a locale of the relations that runs keep.
\<close>

section \<open>Runs\<close>

text \<open>
  A run is a sequence of transactions, successful or not, with any other transfers of tokens between
  them, which never take from the vault \<open>self\<close>. The guard \<open>G\<close> limits the transactions.
\<close>

inductive reaches :: "address \<Rightarrow> (env \<Rightarrow> call \<Rightarrow> vault \<Rightarrow> bool) \<Rightarrow> vault \<Rightarrow> vault \<Rightarrow> bool" for self G s where
  here: "reaches self G s s"
| call: "reaches self G s t \<Longrightarrow> G env c t \<Longrightarrow> reaches self G s (snd (transact env c t))"
| outside: "reaches self G s t \<Longrightarrow> \<forall>tok. tokens t tok self \<le> l tok self \<Longrightarrow> reaches self G s (t\<lparr>tokens := l\<rparr>)"

locale run_relation = step_relation R
  for R :: "vault \<Rightarrow> vault \<Rightarrow> bool" +
  fixes self :: address and G :: "env \<Rightarrow> call \<Rightarrow> vault \<Rightarrow> bool"
  assumes kept_by_transactions: "G env c s \<Longrightarrow> R s (snd (transact env c s))"
    and kept_outside: "\<forall>tok. tokens s tok self \<le> l tok self \<Longrightarrow> R s (s\<lparr>tokens := l\<rparr>)"
begin

lemma R_reaches: "reaches self G s t \<Longrightarrow> R s t"
proof (induction rule: reaches.induct)
  case (call t env c)
  from kept_by_transactions [OF call(2)] call.IH show ?case by (rule R_trans [rotated])
next
  case (outside t l)
  from kept_outside [of t l, OF outside(2)] outside.IH show ?case by (rule R_trans [rotated])
qed (rule R_refl)

end

text \<open>A relation that the abstract steps keep is kept by the transactions that refine them.\<close>

locale vault_relation = step_relation R
  for R :: "vault \<Rightarrow> vault \<Rightarrow> bool" +
  fixes self :: address and G :: "env \<Rightarrow> call \<Rightarrow> vault \<Rightarrow> bool"
  assumes R_effect: "G env c s \<Longrightarrow> effect env (batch_clean env c s) s t \<Longrightarrow> R s t"
    and R_outside: "\<forall>tok. tokens s tok self \<le> l tok self \<Longrightarrow> R s (s\<lparr>tokens := l\<rparr>)"

sublocale vault_relation \<subseteq> run_relation
proof
  show "G env c s \<Longrightarrow> R s (snd (transact env c s))" for env c s by (rule R_effect [OF _ transact_refines])
  show "\<forall>tok. tokens s tok self \<le> l tok self \<Longrightarrow> R s (s\<lparr>tokens := l\<rparr>)" for s l by (rule R_outside)
qed

section \<open>The registry of subscriptions\<close>

text \<open>Ids are handed out in order, every record is well formed, and the two indices list exactly the
  subscriptions of a merchant and of a token, in the order of their creation.\<close>

definition index_of :: "(subscription \<Rightarrow> bool) \<Rightarrow> vault \<Rightarrow> u32 list" where
  "index_of P s = filter (\<lambda>i. case subs s i of Some x \<Rightarrow> P x | None \<Rightarrow> False) [0 ..< next_id_of s]"

definition store_ok :: "vault \<Rightarrow> bool" where
  "store_ok s \<longleftrightarrow> dom (subs s) = {..< next_id_of s} \<and> next_id_of s \<le> U32_MAX
     \<and> (\<forall>i x. subs s i = Some x \<longrightarrow> sub_ok x) \<and> terms_ok s
     \<and> (\<forall>m. merchant_index s m = index_of (\<lambda>x. merchant x = m) s)
     \<and> (\<forall>tok. token_index s tok = index_of (\<lambda>x. token x = tok) s)"

text \<open>What a later state remembers of an earlier one.\<close>

definition remembers :: "vault \<Rightarrow> vault \<Rightarrow> bool" where
  "remembers s t \<longleftrightarrow> next_id_of s \<le> next_id_of t
     \<and> (\<forall>i x. subs s i = Some x \<longrightarrow> (\<exists>y. subs t i = Some y \<and> develops x y))
     \<and> (\<forall>i p. charged_period_key (sbs s) i = Some p \<longrightarrow> (\<exists>q \<ge> p. charged_period_key (sbs t) i = Some q))
     \<and> (\<forall>k. usage_ref_key (sbs s) k \<noteq> None \<longrightarrow> usage_ref_key (sbs t) k \<noteq> None)"

lemma remembers_refl: "remembers s s"
  by (auto simp: remembers_def)

lemma remembers_trans:
  assumes "remembers s t" and "remembers t u"
  shows "remembers s u"
  using assms unfolding remembers_def
  by (elim conjE, intro conjI) (auto intro: order_trans dest: develops_trans, (meson develops_trans order_trans)+)

definition store_grows :: "vault \<Rightarrow> vault \<Rightarrow> bool" where
  "store_grows s t \<longleftrightarrow> (store_ok s \<longrightarrow> store_ok t \<and> remembers s t)"

text \<open>One record changes, or none; the indices depend on the parties only, which are fixed.\<close>

lemma index_of_cong:
  assumes "next_id_of t = next_id_of s"
    and "\<And>i. rel_option (\<lambda>x y. P x = P y) (subs s i) (subs t i)"
  shows "index_of P t = index_of P s"
  unfolding index_of_def assms(1)
proof (rule filter_cong [OF refl])
  fix i
  from assms(2) [of i] show "(case subs t i of Some x \<Rightarrow> P x | None \<Rightarrow> False) = (case subs s i of Some x \<Rightarrow> P x | None \<Rightarrow> False)"
    by (cases rule: option.rel_cases) simp_all
qed

lemma registry_same:
  assumes "registry t = registry s"
  shows "next_id_of t = next_id_of s" and "merchant_index t m = merchant_index s m" and "token_index t tok = token_index s tok"
    and "charged_period_key (sbs t) = charged_period_key (sbs s)" and "usage_ref_key (sbs t) = usage_ref_key (sbs s)"
  using assms by (simp_all add: registry_def next_id_of_def merchant_index_def token_index_def)

lemma store_grows_developed:
  assumes rel: "\<And>i. rel_option develops (subs s i) (subs t i)"
    and idx: "next_id_of t = next_id_of s" "\<And>m. merchant_index t m = merchant_index s m" "\<And>tok. token_index t tok = token_index s tok"
    and terms: "terms_ok s \<longrightarrow> terms_ok t"
    and per: "\<forall>i p. charged_period_key (sbs s) i = Some p \<longrightarrow> (\<exists>q \<ge> p. charged_period_key (sbs t) i = Some q)"
    and ref: "\<forall>k. usage_ref_key (sbs s) k \<noteq> None \<longrightarrow> usage_ref_key (sbs t) k \<noteq> None"
    and ok: "store_ok s"
  shows "store_ok t \<and> remembers s t"
proof
  have "subs t i = None \<longleftrightarrow> subs s i = None" for i
    using rel [of i] by (cases rule: option.rel_cases) simp_all
  then have "dom (subs t) = dom (subs s)" by (auto simp: dom_def)
  moreover have "sub_ok y" if "subs t i = Some y" for i y
    using rel [of i] ok that by (cases rule: option.rel_cases) (auto simp: store_ok_def develops_def)
  moreover have "index_of (\<lambda>x. merchant x = m) t = index_of (\<lambda>x. merchant x = m) s"
      and "index_of (\<lambda>x. token x = k) t = index_of (\<lambda>x. token x = k) s" for m k
    by (rule index_of_cong [OF idx(1)], rule option.rel_mono_strong [OF rel], simp add: develops_def)+
  ultimately show "store_ok t" using ok idx terms by (simp add: store_ok_def)
  have "\<exists>y. subs t i = Some y \<and> develops x y" if "subs s i = Some x" for i x
    using rel [of i] that by (cases rule: option.rel_cases) auto
  then show "remembers s t" using idx per ref by (simp add: remembers_def)
qed

text \<open>The ways the steps change the map of subscriptions, as relations between its entries.\<close>

lemma develops_same: "subs t = subs s \<Longrightarrow> rel_option develops (subs s i) (subs t i)"
  by (simp add: option.rel_refl)

lemma develops_put:
  "subs s j = Some x \<Longrightarrow> develops x y \<Longrightarrow> subs t = (subs s)(j \<mapsto> y) \<Longrightarrow> rel_option develops (subs s i) (subs t i)"
  by (simp add: option.rel_refl)

lemma develops_frame:
  assumes "charge_frame s t"
  shows "rel_option develops (subs s i) (subs t i)"
proof (cases "subs s i")
  case None
  then have "i \<notin> dom (subs t)" using assms by (auto simp: charge_frame_def subs_evolve_def)
  with None show ?thesis by (simp add: domIff)
next
  case (Some x)
  then have "i \<in> dom (subs t)" using assms by (auto simp: charge_frame_def subs_evolve_def)
  then obtain y where "subs t i = Some y" by blast
  with Some frame_sub [OF assms] show ?thesis by (simp add: evolves_def)
qed

text \<open>A new subscription takes the next id and comes last in its two indices.\<close>

lemma index_of_new:
  assumes "next_id_of t = Suc n" and "next_id_of s = n" and "subs t = (subs s)(n \<mapsto> x)"
  shows "index_of P t = index_of P s @ (if P x then [n] else [])"
proof -
  have "filter (\<lambda>i. case subs t i of Some x \<Rightarrow> P x | None \<Rightarrow> False) [0 ..< n] =
      filter (\<lambda>i. case subs s i of Some x \<Rightarrow> P x | None \<Rightarrow> False) [0 ..< n]"
    by (rule filter_cong) (auto simp: assms(3))
  then show ?thesis by (simp add: index_of_def assms)
qed

lemma store_new_index [simp]:
  "merchant_index (store_new_subscription i n x s) m = merchant_index s m @ (if merchant x = m then [i] else [])"
  "token_index (store_new_subscription i n x s) tok = token_index s tok @ (if token x = tok then [i] else [])"
  by (auto simp: store_new_subscription_def merchant_index_def token_index_def unwrap_or_def)

lemma store_grows_created:
  assumes "store_ok s" and "orderly s t" and "next_id_of s < U32_MAX" and "terms_ok s \<longrightarrow> sub_ok x"
    and reg: "registry t = registry (store_new_subscription (next_id_of s) (next_id_of s + 1) x s)"
    and subs_t: "subs t = (subs s)(next_id_of s \<mapsto> x)"
  shows "store_ok t \<and> remembers s t"
proof
  let ?n = "next_id_of s"
  note idx = registry_same [OF reg]
  have n: "next_id_of t = Suc ?n" unfolding idx(1) by (simp add: store_new_subscription_def next_id_of_def)
  note new = index_of_new [OF n refl subs_t]
  have ok: "terms_ok t" "sub_ok x" using assms by (auto simp: store_ok_def orderly_def)
  have m: "merchant_index t m = index_of (\<lambda>x. merchant x = m) t"
    and tok: "token_index t tok = index_of (\<lambda>x. token x = tok) t" for m tok
    using assms(1) by (simp_all add: idx new store_ok_def)
  have "dom (subs t) = {..< Suc ?n}" using assms(1) by (auto simp: subs_t store_ok_def)
  moreover have "\<forall>i y. subs t i = Some y \<longrightarrow> sub_ok y" using assms(1) ok by (auto simp: subs_t store_ok_def)
  ultimately show "store_ok t" using m tok ok(1) n assms(3) by (simp add: store_ok_def)
  have "subs s ?n = None" using assms(1) by (auto simp: store_ok_def)
  then have "subs t i = subs s i \<or> subs s i = None" for i by (simp add: subs_t)
  then have "\<forall>i x. subs s i = Some x \<longrightarrow> (\<exists>y. subs t i = Some y \<and> develops x y)" by (metis develops_refl option.distinct(1))
  then show "remembers s t"
    by (auto simp: remembers_def n idx(4,5) store_new_subscription_def)
qed

lemma store_grows_effect:
  assumes "effect env clean s t"
  shows "store_grows s t"
  unfolding store_grows_def
proof
  assume ok: "store_ok s"
  note step = store_grows_developed [of s t, OF _ _ _ _ _ _ _ ok]
  from assms show "store_ok t \<and> remembers s t"
  proof (cases rule: effect.cases)
    case administered
    with registry_same [OF administered(3)] show ?thesis
      by (intro step develops_same) (auto simp: orderly_def)
  next
    case (created x)
    then show ?thesis by (intro store_grows_created [OF ok])
  next
    case (amended i x y)
    with ok have "develops x y" by (simp add: store_ok_def)
    with amended registry_same [OF amended(7)] show ?thesis
      by (intro step develops_put) (auto simp: orderly_def)
  next
    case (deposited i x y amt src)
    with registry_same [OF deposited(8)] show ?thesis
      by (intro step develops_put) (auto simp: orderly_def)
  next
    case (returned i x y amt dst)
    with registry_same [OF returned(7)] show ?thesis
      by (intro step develops_put) (auto simp: orderly_def)
  next
    case charged
    note frame = charged(2)
    have same: "subs (s\<lparr>adm := adm t\<rparr>) = subs s" by simp
    from frame charged(1) develops_frame [OF frame, unfolded same] show ?thesis
      by (intro step) (simp_all add: charge_frame_def orderly_def next_id_of_def merchant_index_def token_index_def)
  next
    case (paid m tok dst amt)
    then show ?thesis
      by (intro step develops_same) (auto simp: paid_out_def next_id_of_def merchant_index_def token_index_def terms_ok_def)
  next
    case (swept tok dst amt)
    then show ?thesis
      by (intro step develops_same) (auto simp: orderly_def next_id_of_def merchant_index_def token_index_def)
  qed
qed

interpretation store_runs: vault_relation store_grows self "\<lambda>_ _ _. True" for self
proof
  show "store_grows s s" for s by (simp add: store_grows_def remembers_refl)
  show "store_grows s t \<Longrightarrow> store_grows t u \<Longrightarrow> store_grows s u" for s t u
    by (auto simp: store_grows_def intro: remembers_trans)
  show "effect env (batch_clean env c s) s t \<Longrightarrow> store_grows s t" for env c s t by (rule store_grows_effect)
  show "store_grows s (s\<lparr>tokens := l\<rparr>)" for s l
    by (auto simp: store_grows_def store_ok_def remembers_def next_id_of_def merchant_index_def token_index_def index_of_def
        terms_ok_def)
qed

section \<open>Solvency\<close>

text \<open>The vault holds at least what it owes in every token, and recovery may not touch it.\<close>

definition solvent :: "address \<Rightarrow> vault \<Rightarrow> bool" where
  "solvent self s \<longleftrightarrow> store_ok s \<and> finite_books s \<and> get_protocol_fee_bps s \<le> 10000
     \<and> (\<forall>tok. owed s tok \<le> get_total_accounted s tok \<and> owed s tok \<le> tokens s tok self
           \<and> get_total_accounted s tok \<le> I128_MAX)"

text \<open>
  What is relied on in a transaction: the ledger runs it on the vault, the tokens are standard ones in
  amounts far below the bound of \<open>i128\<close>, nobody signs for the vault itself, and no charge of a batch
  reports the overflow of a counter.
\<close>

definition trusted :: "address \<Rightarrow> env \<Rightarrow> call \<Rightarrow> vault \<Rightarrow> bool" where
  "trusted self env c s \<longleftrightarrow> current_contract_address env = self \<and> sep41 (token_transfer env)
     \<and> \<not> authorized env self \<and> (\<forall>tok. tokens s tok self * 10000 \<le> I128_MAX) \<and> batch_clean env c s"

lemma solvent_funded:
  assumes "solvent self s" and "\<forall>tok. tokens s tok self * 10000 \<le> I128_MAX"
  shows "funded s"
proof -
  have "owed s tok * 10000 \<le> I128_MAX" for tok
  proof -
    have "owed s tok \<le> tokens s tok self" using assms(1) by (simp add: solvent_def)
    then have "owed s tok * 10000 \<le> tokens s tok self * 10000" by simp
    also have "\<dots> \<le> I128_MAX" using assms(2) by blast
    finally show ?thesis .
  qed
  with assms(1) show ?thesis by (simp add: funded_def solvent_def store_ok_def)
qed

text \<open>A payment of the vault lowers its balance by at most the amount, a payment to it raises it.\<close>

lemma vault_pays:
  assumes "sep41 tr" and "tr tok self dst amt l = Some l'"
  shows "0 \<le> amt" and "l k self - (if k = tok then amt else 0) \<le> l' k self"
  using sep41D [OF assms] by (auto simp: moved_def Let_def)

lemma vault_receives:
  assumes "sep41 tr" and "tr tok src self amt l = Some l'" and "src \<noteq> self"
  shows "l' k self = l k self + (if k = tok then amt else 0)"
  using sep41D [OF assms(1,2)] assms(3) by (auto simp: moved_def Let_def)

lemma solvent_effect:
  assumes trust: "trusted self env c s" and eff: "effect env (batch_clean env c s) s t" and ok: "solvent self s"
  shows "solvent self t"
proof -
  have self: "current_contract_address env = self" and tr: "sep41 (token_transfer env)" "\<not> authorized env self"
    and f: "funded s" and clean: "batch_clean env c s"
    using trust solvent_funded [OF ok] by (auto simp: trusted_def)
  have books: "finite_books s" "owed s tok \<le> get_total_accounted s tok" "owed s tok \<le> tokens s tok self"
    "get_total_accounted s tok \<le> I128_MAX" and store: "store_ok s" and bps: "get_protocol_fee_bps s \<le> 10000" for tok using ok by (simp_all add: solvent_def)
  have "store_ok t" using store_grows_effect [OF eff] store by (simp add: store_grows_def)
  moreover have "get_protocol_fee_bps t \<le> 10000"
    using eff bps by (cases rule: effect.cases) (auto simp: orderly_def paid_out_def get_protocol_fee_bps_def)
  moreover have "finite_books t \<and> owed t tok \<le> get_total_accounted t tok \<and> owed t tok \<le> tokens t tok self \<and>
      get_total_accounted t tok \<le> I128_MAX" for tok
    using eff
  proof (cases rule: effect.cases)
    case administered
    then show ?thesis using books owed_cong [of t s] finite_books_cong [of t s] by (simp add: get_total_accounted_def)
  next
    case (created x)
    have "next_id_of s \<notin> dom (subs s)" using store by (simp add: store_ok_def)
    then have "subs s (next_id_of s) = None" by (simp add: domIff)
    from owed_sub_new [OF books(1) this created(6,7)] created books show ?thesis
      by (simp add: get_total_accounted_def)
  next
    case (amended i x y)
    from owed_sub_change [OF books(1) amended(2,5,6,8)] amended books show ?thesis
      by (simp add: get_total_accounted_def)
  next
    case (deposited i x y amt src)
    have "src \<noteq> self" using deposited(5) tr(2) by blast
    note moved = vault_receives [OF tr(1) deposited(6) [unfolded self] this, of tok]
    have "token y = token x" using deposited(3) by (simp add: develops_def)
    from owed_sub_change [OF books(1) deposited(2) this deposited(7,9)] deposited(4,10,11) moved books(2-4) [of tok] show ?thesis
      by auto
  next
    case (returned i x y amt dst)
    note moved = vault_pays [OF tr(1) returned(5) [unfolded self]]
    have "token y = token x" using returned(3) by (simp add: develops_def)
    from owed_sub_change [OF books(1) returned(2) this returned(6,8)] returned(4,9) moved(1) moved(2) [of tok] books(2-4) [of tok]
    show ?thesis by (auto split: if_splits)
  next
    case charged
    then show ?thesis using books clean f by (simp add: charge_frame_def get_total_accounted_def)
  next
    case (paid m tk dst amt)
    have "token_transfer env tk self dst amt (tokens s) = Some (tokens t)" "0 < amt"
      using paid(1) self by (simp_all add: paid_out_def)
    note moved = vault_pays [OF tr(1) this(1)] this(2)
    from paid_out_books [OF paid(1) books(1)] paid(2) moved(2) [of tok] moved(3) books(2-4) [of tok] show ?thesis
      by (auto split: if_splits)
  next
    case (swept tk dst amt)
    note moved = vault_pays [OF tr(1) swept(5) [unfolded self]]
    have "subs t = subs s" using swept(2) by simp
    with owed_cong [OF this swept(3)] finite_books_cong [OF this swept(3)] swept(4,6) moved(2) [of tok] books(1) books(2-4) [of tok] self
    show ?thesis by (auto simp: get_total_accounted_def split: if_splits)
  qed
  ultimately show ?thesis by (auto simp: solvent_def)
qed

definition stays_solvent :: "address \<Rightarrow> vault \<Rightarrow> vault \<Rightarrow> bool" where
  "stays_solvent self s t \<longleftrightarrow> (solvent self s \<longrightarrow> solvent self t)"

interpretation solvent_runs: vault_relation "stays_solvent self" self "trusted self" for self
proof
  show "stays_solvent self s s" for s by (simp add: stays_solvent_def)
  show "stays_solvent self s t \<Longrightarrow> stays_solvent self t u \<Longrightarrow> stays_solvent self s u" for s t u
    by (simp add: stays_solvent_def)
  show "trusted self env c s \<Longrightarrow> effect env (batch_clean env c s) s t \<Longrightarrow> stays_solvent self s t" for env c s t
    using solvent_effect by (auto simp: stays_solvent_def)
  fix s :: vault and l :: ledger
  assume l: "\<forall>tok. tokens s tok self \<le> l tok self"
  have "store_grows s (s\<lparr>tokens := l\<rparr>)" by (rule store_runs.R_outside [of s self l, OF l])
  then show "stays_solvent self s (s\<lparr>tokens := l\<rparr>)"
    using l by (auto simp: stays_solvent_def solvent_def store_grows_def finite_books_def owed_def
        get_protocol_fee_bps_def get_total_accounted_def intro: order_trans)
qed

section \<open>The invariants\<close>

text \<open>The ledger entry of a new contract satisfies both.\<close>

lemma store_ok_vault_init: "store_ok vault_init"
  by (simp add: store_ok_def vault_init_def next_id_of_def terms_ok_def index_of_def merchant_index_def token_index_def)

lemma solvent_vault_init: "solvent self vault_init"
  using store_ok_vault_init I128_MAX_pos
  by (simp add: solvent_def finite_books_def owed_def vault_init_def get_protocol_fee_bps_def get_total_accounted_def)

text \<open>C1. The vault stays solvent: whatever transactions are run, in whatever order, with whatever tokens
  arriving in between, it holds in every token at least the prepaid balances of its subscriptions
  and the earnings of its merchants together, as its own accounting does.\<close>

theorem vault_stays_solvent:
  assumes "reaches self (trusted self) s t" and "solvent self s"
  shows "(\<forall>tok. owed t tok \<le> tokens t tok self \<and> owed t tok \<le> get_total_accounted t tok)
    \<and> (\<forall>i x. subs t i = Some x \<longrightarrow> 0 \<le> prepaid_balance x \<and> prepaid_balance x \<le> tokens t (token x) self)
    \<and> (\<forall>m tok. 0 \<le> get_merchant_balance_by_token t m tok \<and> get_merchant_balance_by_token t m tok \<le> tokens t tok self)"
proof -
  have t: "solvent self t" using solvent_runs.R_reaches [OF assms(1)] assms(2) by (simp add: stays_solvent_def)
  then have le: "owed t tok \<le> tokens t tok self" "owed t tok \<le> get_total_accounted t tok" and f: "finite_books t"
    and ok: "subs t i = Some x \<Longrightarrow> sub_ok x" for tok i x by (auto simp: solvent_def store_ok_def)
  have "prepaid_balance x \<le> owed t (token x)" if "subs t i = Some x" for i x
    by (rule prepaid_le_owed [OF f _ that]) (rule ok)
  then have "0 \<le> prepaid_balance x \<and> prepaid_balance x \<le> tokens t (token x) self" if "subs t i = Some x" for i x
    using that le(1) [of "token x"] ok [OF that] by (fastforce simp: sub_ok_def)
  moreover have "get_merchant_balance_by_token t m tok \<le> owed t tok" for m tok
    by (rule merchant_le_owed [OF f]) (rule ok)
  then have "get_merchant_balance_by_token t m tok \<le> tokens t tok self" for m tok
    using le(1) order_trans by blast
  ultimately show ?thesis using merchant_balance_nonneg [OF f] le by blast
qed

text \<open>C3. The registry of subscriptions stays well formed, and it remembers: ids are dense and handed out once,
  records are well formed, the indices by merchant and by token list exactly their subscriptions;
  and no subscription disappears, only develops along the allowed transitions, no charged period is
  taken back and no usage reference forgotten.\<close>

theorem store_stays_well_formed:
  assumes "reaches self (\<lambda>_ _ _. True) s t" and "store_ok s"
  shows "store_ok t \<and> remembers s t"
  using store_runs.R_reaches [OF assms(1)] assms(2) by (simp add: store_grows_def)

section \<open>The way out\<close>

text \<open>Locks do not outlive a transaction.\<close>

interpretation lock_runs: vault_relation "\<lambda>s t. lock_key t = lock_key s" self "\<lambda>_ _ _. True" for self
  by unfold_locales (auto dest: effect_lock)

text \<open>A token contract that carries out every transfer the sender can afford.\<close>

definition accepts_transfers :: "env \<Rightarrow> bool" where
  "accepts_transfers env \<longleftrightarrow> (\<forall>tok src dst amt l. 0 \<le> amt \<longrightarrow> amt \<le> l tok src \<longrightarrow>
     token_transfer env tok src dst amt l = Some (moved tok src dst amt l))"

lemma solvent_covers:
  assumes "solvent self s"
  shows "subs s i = Some x \<Longrightarrow> prepaid_balance x \<le> tokens s (token x) self \<and> prepaid_balance x \<le> get_total_accounted s (token x)"
    and "get_merchant_balance_by_token s m tok \<le> tokens s tok self \<and> get_merchant_balance_by_token s m tok \<le> get_total_accounted s tok"
    and "get_total_accounted s tok \<le> I128_MAX"
proof -
  have f: "finite_books s" and ok: "subs s j = Some y \<Longrightarrow> sub_ok y"
    and le: "owed s tok \<le> tokens s tok self" "owed s tok \<le> get_total_accounted s tok" for j y tok
    using assms by (auto simp: solvent_def store_ok_def)
  have "prepaid_balance x \<le> owed s (token x)" if "subs s i = Some x"
    by (rule prepaid_le_owed [OF f _ that]) (rule ok)
  then show "prepaid_balance x \<le> tokens s (token x) self \<and> prepaid_balance x \<le> get_total_accounted s (token x)"
    if "subs s i = Some x" using that le [of "token x"] by simp
  have "get_merchant_balance_by_token s m tok \<le> owed s tok"
    by (rule merchant_le_owed [OF f]) (rule ok)
  then show "get_merchant_balance_by_token s m tok \<le> tokens s tok self \<and> get_merchant_balance_by_token s m tok \<le> get_total_accounted s tok"
    using le [of tok] by simp
  show "get_total_accounted s tok \<le> I128_MAX" using assms by (simp add: solvent_def)
qed

lemma subscriber_may_leave:
  assumes "solvent self s" and "lock_key s = Map.empty" and "current_contract_address env = self" and "accepts_transfers env"
    and "subs s i = Some x" and "authorized env (subscriber x)" and "0 < prepaid_balance x"
    and "status x \<in> {Cancelled, Expired, Archived} \<or> is_expired x (ledger_timestamp env)"
  shows "\<exists>t. transact env (SubscriptionCall (Withdraw_Subscriber_Funds i (subscriber x))) s = (Ok (), t) \<and>
    tokens t = moved (token x) self (subscriber x) (prepaid_balance x) (tokens s)"
proof -
  have pay: "token_transfer env (token x) self (subscriber x) (prepaid_balance x) (tokens s) =
      Some (moved (token x) self (subscriber x) (prepaid_balance x) (tokens s))"
    using assms(4,7) solvent_covers(1) [OF assms(1,5)] by (simp add: accepts_transfers_def)
  have range: "in_i128 (get_total_accounted s (token x) - prepaid_balance x)"
    using assms(7) solvent_covers(1) [OF assms(1,5)] solvent_covers(3) [OF assms(1), of "token x"] I128_MAX_pos
    by (simp add: i128_range)
  show ?thesis
    using assms(2,3,5-8) pay range
    by (auto simp: transact_def invoke_def lib_withdraw_subscriber_funds_def with_lock_def lock_def
        do_withdraw_subscriber_funds_def require_auth_def get_subscription_def transfer_def sub_total_accounted_def
        get_total_accounted_def checked_defs checked_i128_def Let_def)
qed

lemma merchant_may_withdraw:
  assumes "solvent self s" and "lock_key s = Map.empty" and "current_contract_address env = self" and "accepts_transfers env"
    and "authorized env m" and "is_token_accepted s tok" and "0 < amt" and "amt \<le> get_merchant_balance_by_token s m tok"
  shows "\<exists>t. transact env (MerchantCall (Withdraw_Merchant_Token_Funds m tok amt)) s = (Ok (), t) \<and>
    tokens t = moved tok self m amt (tokens s)"
proof -
  note cover = solvent_covers(2) [OF assms(1), of m tok] solvent_covers(3) [OF assms(1), of tok]
  have pay: "token_transfer env tok self m amt (tokens s) = Some (moved tok self m amt (tokens s))"
    using assms(4,7,8) cover by (simp add: accepts_transfers_def)
  have range: "in_i128 (get_total_accounted s tok - amt)" "in_i128 (get_merchant_balance_by_token s m tok - amt)"
    using assms(7,8) cover I128_MAX_pos by (simp_all add: i128_range)
  show ?thesis
    using assms(2,3,5-8) cover pay range
    by (auto simp: transact_def invoke_def lib_withdraw_merchant_token_funds_def with_lock_def lock_def safe_sub_def
        withdraw_merchant_funds_for_token_def require_auth_def is_token_accepted_def transfer_def sub_total_accounted_def
        get_total_accounted_def checked_defs checked_i128_def Let_def)
qed

text \<open>C2. The owners of the money can always leave with it: after any run from a solvent state without locks,
  the subscriber of an ended subscription withdraws its whole prepaid balance and a merchant any part
  of its balance in an accepted token, whatever the administration has set, stopped or blocked
  meanwhile, as long as the token contract carries out transfers.\<close>

theorem owners_can_leave:
  assumes "reaches self (trusted self) s t" and "solvent self s" and "lock_key s = Map.empty"
    and "current_contract_address env = self" and "accepts_transfers env"
  shows "(\<forall>i x. subs t i = Some x \<and> authorized env (subscriber x) \<and> 0 < prepaid_balance x \<and>
        (status x \<in> {Cancelled, Expired, Archived} \<or> is_expired x (ledger_timestamp env)) \<longrightarrow>
        (\<exists>u. transact env (SubscriptionCall (Withdraw_Subscriber_Funds i (subscriber x))) t = (Ok (), u) \<and>
           tokens u = moved (token x) self (subscriber x) (prepaid_balance x) (tokens t)))
    \<and> (\<forall>m tok amt. authorized env m \<and> is_token_accepted t tok \<and> 0 < amt \<and> amt \<le> get_merchant_balance_by_token t m tok \<longrightarrow>
        (\<exists>u. transact env (MerchantCall (Withdraw_Merchant_Token_Funds m tok amt)) t = (Ok (), u) \<and>
           tokens u = moved tok self m amt (tokens t)))"
proof -
  have t: "solvent self t" using solvent_runs.R_reaches [OF assms(1)] assms(2) by (simp add: stays_solvent_def)
  have "reaches self G s t \<Longrightarrow> reaches self (\<lambda>_ _ _. True) s t" for G
    by (induction rule: reaches.induct) (auto intro: reaches.intros)
  from lock_runs.R_reaches [OF this [OF assms(1)]] assms(3) have l: "lock_key t = Map.empty" by simp
  from subscriber_may_leave [OF t l assms(4,5)] merchant_may_withdraw [OF t l assms(4,5)] show ?thesis by blast
qed

end
