(* ===== verification/Charge_Outcomes.thy ===== *)
theory Charge_Outcomes
  imports Vault_Invariants
begin

text \<open>
  The other outcomes of an interval charge, and charges over time: what a charge that is not taken does
  to the vault, and that no billing period of a subscription is charged twice, whatever happens in
  between.
\<close>

section \<open>Charges that are refused\<close>

lemma cancel_at_cap_Ok:
  assumes "cancel_at_cap i sub now s = (Ok u, t)"
  shows "can_transition (status sub) Cancelled" and "subs t = (subs s)(i \<mapsto> sub\<lparr>status := Cancelled\<rparr>)"
    and "sbs t = (sbs s)\<lparr>sub_key := subs t\<rparr>" and "mer t = mer s" and "stm t = stm s" and "snp t = snp s" and "tokens t = tokens s"
  using assms by (auto simp: cancel_at_cap_def Let_def ok_iff simp del: can_transition_targets)

definition shortfall_status :: "vault \<Rightarrow> subscription \<Rightarrow> u64 \<Rightarrow> subscription_status" where
  "shortfall_status s sub now =
    (let grace = unwrap_or (grace_period_key (adm s)) 0
     in if grace > 0 \<and> now < last_payment_timestamp sub + interval_seconds sub + grace then GracePeriod else InsufficientBalance)"

lemma charge_shortfall_Ok:
  assumes "charge_shortfall i sub now c s = (Ok r, t)"
  shows "r = ChargeInsufficientBalance" and "subs t = (subs s)(i \<mapsto> sub\<lparr>status := shortfall_status s sub now\<rparr>)"
    and "sbs t = (sbs s)\<lparr>sub_key := subs t\<rparr>" and "mer t = mer s" and "stm t = stm s" and "snp t = snp s" and "tokens t = tokens s"
  using assms
  by (auto simp: charge_shortfall_def get_grace_period_def shortfall_status_def Let_def ok_iff checked_Some)

text \<open>What the model calls untouched: everything but the records of the subscriptions and the events.\<close>

definition books_untouched :: "vault \<Rightarrow> vault \<Rightarrow> bool" where
  "books_untouched s t \<longleftrightarrow> sbs t = (sbs s)\<lparr>sub_key := subs t\<rparr> \<and> mer t = mer s \<and> stm t = stm s \<and> snp t = snp s \<and> tokens t = tokens s"

lemma resolve_untouched:
  assumes "resolve_charge_amount env i sub s = (r, t)"
  shows "sbs t = sbs s" and "mer t = mer s" and "stm t = stm s" and "snp t = snp s" and "tokens t = tokens s" and "adm t = adm s"
  using endsD [OF resolve_frame assms] by (metis vault.ext_inject vault.surjective vault.update_convs(12))+

lemma over_cap_amount:
  "(case lifetime_cap sub of
       Some cap \<Rightarrow> bind_res (if lifetime_charged sub \<ge> cap then Ok 0 else safe_sub cap (lifetime_charged sub))
         (\<lambda>remaining. Ok (remaining = 0 \<or> c > remaining))
     | None \<Rightarrow> Ok False) = Ok True \<Longrightarrow>
   \<exists>cap. lifetime_cap sub = Some cap \<and> (cap \<le> lifetime_charged sub \<or> cap - lifetime_charged sub < c)"
  by (auto simp: ok_iff split: option.splits if_splits)

lemma charge_period_refused:
  assumes "charge_period env i sub now key c s = (Ok r, t)" and "r \<noteq> Charged"
  shows "last_payment_timestamp sub + interval_seconds sub \<le> now"
    and "\<forall>q. charged_period_key (sbs s) i = Some q \<longrightarrow> q < period_of sub now"
    and "r = ChargeLifetimeCapReached \<and> (\<exists>u. cancel_at_cap i sub now s = (Ok u, t))
        \<and> (\<exists>cap. lifetime_cap sub = Some cap \<and> (cap \<le> lifetime_charged sub \<or> cap - lifetime_charged sub < c))
      \<or> r = ChargeInsufficientBalance \<and> charge_shortfall i sub now c s = (Ok r, t) \<and> \<not> (0 \<le> c \<and> c \<le> prepaid_balance sub \<and> in_i128 (prepaid_balance sub - c))"
proof -
  have "\<not> (key \<noteq> None \<and> idem_key (sbs s) i = key)"
  proof
    assume "key \<noteq> None \<and> idem_key (sbs s) i = key"
    with assms(1) have "r = Charged" by (auto simp: charge_period_def Let_def try_res_Ok split: if_splits)
    with assms(2) show False by simp
  qed
  with assms(1) obtain over where pre: "\<forall>q. charged_period_key (sbs s) i = Some q \<longrightarrow> q < period_of sub now"
      "last_payment_timestamp sub + interval_seconds sub \<le> now"
    and over: "(case lifetime_cap sub of
       Some cap \<Rightarrow> bind_res (if lifetime_charged sub \<ge> cap then Ok 0 else safe_sub cap (lifetime_charged sub))
         (\<lambda>remaining. Ok (remaining = 0 \<or> c > remaining))
     | None \<Rightarrow> Ok False) = Ok over"
    and rest: "(if over then try_op (cancel_at_cap i sub now s) (\<lambda>_ s1. (Ok ChargeLifetimeCapReached, s1))
        else case safe_sub_balance (prepaid_balance sub) c of
          Ok nb \<Rightarrow> settle_interval env i sub now key c nb (period_of sub now)
           (start_time sub + period_of sub now * interval_seconds sub)
           (start_time sub + period_of sub now * interval_seconds sub + interval_seconds sub)
           (last_payment_timestamp sub + interval_seconds sub) s
        | _ \<Rightarrow> charge_shortfall i sub now c s) = (Ok r, t)"
    by (rule charge_period_checks)
  show "last_payment_timestamp sub + interval_seconds sub \<le> now"
    "\<forall>q. charged_period_key (sbs s) i = Some q \<longrightarrow> q < period_of sub now" by (fact pre)+
  show "r = ChargeLifetimeCapReached \<and> (\<exists>u. cancel_at_cap i sub now s = (Ok u, t))
        \<and> (\<exists>cap. lifetime_cap sub = Some cap \<and> (cap \<le> lifetime_charged sub \<or> cap - lifetime_charged sub < c))
      \<or> r = ChargeInsufficientBalance \<and> charge_shortfall i sub now c s = (Ok r, t) \<and> \<not> (0 \<le> c \<and> c \<le> prepaid_balance sub \<and> in_i128 (prepaid_balance sub - c))"
  proof (cases over)
    case True
    with rest over over_cap_amount [of sub c] show ?thesis by (auto simp: try_op_Ok)
  next
    case False
    have "\<not> is_ok (safe_sub_balance (prepaid_balance sub) c)"
    proof
      assume "is_ok (safe_sub_balance (prepaid_balance sub) c)"
      with rest False obtain nb where "settle_interval env i sub now key c nb (period_of sub now)
           (start_time sub + period_of sub now * interval_seconds sub)
           (start_time sub + period_of sub now * interval_seconds sub + interval_seconds sub)
           (last_payment_timestamp sub + interval_seconds sub) s = (Ok r, t)"
        by (auto simp: is_ok_iff)
      then have "r = Charged" by (auto simp: settle_interval_def Let_def split_beta try_op_Ok try_res_Ok elim: record_charge_Ok)
      with assms(2) show False by simp
    qed
    moreover from this have "\<not> (0 \<le> c \<and> c \<le> prepaid_balance sub \<and> in_i128 (prepaid_balance sub - c))"
      by (auto simp: is_ok_iff safe_sub_balance_Ok)
    moreover have "charge_shortfall i sub now c s = (Ok r, t)"
      using rest False calculation(1) by (cases "safe_sub_balance (prepaid_balance sub) c") (auto simp: is_ok_iff)
    ultimately show ?thesis using charge_shortfall_Ok(1) by blast
  qed
qed

text \<open>The guards up to the period: the cap is already used up, or the period decides.\<close>

lemma charge_one_refused:
  assumes "charge_one env i now key s = (Ok r, t)" and "r \<noteq> Charged" and "subs s i = Some x"
  obtains (exhausted) c s1 u where "resolve_charge_amount env i x s = (Ok c, s1)" and "cap_exhausted x"
      and "r = ChargeLifetimeCapReached" and "cancel_at_cap i x now s1 = (Ok u, t)"
    | (over) c where "resolve_charge_amount env i x s = (Ok c, t)" and "cap_exhausted x"
      and "r = ChargeLifetimeCapReached" and "status x = Cancelled"
    | (period) c s1 where "resolve_charge_amount env i x s = (Ok c, s1)" and "charge_period env i x now key c s1 = (Ok r, t)"
proof -
  from assms obtain c s1 where res: "resolve_charge_amount env i x s = (Ok c, s1)"
    and run: "(if cap_exhausted x then
         if status x \<noteq> Cancelled
         then try_op (cancel_at_cap i x now s1) (\<lambda>_ s3. (Ok ChargeLifetimeCapReached, s3))
         else (Ok ChargeLifetimeCapReached, s1)
       else if status x \<noteq> Active \<and> status x \<noteq> GracePeriod then (Err NotActive, s1)
       else charge_period env i x now key c s1) = (Ok r, t)"
    by (auto simp: charge_one_def get_subscription_Ok expiration_guard_Ok try_res_Ok try_op_Ok split: if_splits)
  show ?thesis
  proof (cases "cap_exhausted x")
    case True
    show ?thesis
    proof (cases "status x = Cancelled")
      case False
      with run True have "r = ChargeLifetimeCapReached \<and> (\<exists>u. cancel_at_cap i x now s1 = (Ok u, t))"
        by (auto simp add: try_op_Ok)
      with exhausted res True show ?thesis by blast
    qed (use run True over res in simp)
  qed (use run period res in \<open>simp split: if_splits\<close>)
qed

text \<open>C12. A charge that is not taken takes nothing. When it reports an insufficient balance, the interval had
  elapsed and the resolved amount is not covered by the prepaid balance, and the subscription moves to
  its grace period while that runs, else to insufficient balance; when it reports the lifetime cap,
  the cap is used up or less than the amount is left under it, and the subscription is cancelled.
  Either way nothing else of any subscription, no merchant balance, no statement, no snapshot, no
  charged period and no token moves.\<close>

theorem charge_refusals:
  assumes "charge_one env i now key s = (Ok r, t)" and "r \<noteq> Charged" and "subs s i = Some x"
  shows "books_untouched s t \<and>
    (case r of
       ChargeInsufficientBalance \<Rightarrow> last_payment_timestamp x + interval_seconds x \<le> now
         \<and> subs t = (subs s)(i \<mapsto> x\<lparr>status := shortfall_status s x now\<rparr>)
         \<and> (\<exists>c. fst (resolve_charge_amount env i x s) = Ok c \<and>
              \<not> (0 \<le> c \<and> c \<le> prepaid_balance x \<and> in_i128 (prepaid_balance x - c)))
     | ChargeLifetimeCapReached \<Rightarrow> subs t = (subs s)(i \<mapsto> x\<lparr>status := Cancelled\<rparr>)
         \<and> (\<exists>c cap. fst (resolve_charge_amount env i x s) = Ok c \<and> lifetime_cap x = Some cap \<and>
              (cap \<le> lifetime_charged x \<or> cap - lifetime_charged x < c))
     | Charged \<Rightarrow> False)"
proof -
  have cancelled: "books_untouched s t \<and> subs t = (subs s)(i \<mapsto> x\<lparr>status := Cancelled\<rparr>)"
    if "resolve_charge_amount env i x s = (Ok c, s1)" and "cancel_at_cap i x now s1 = (Ok u, t)" for c s1 u
    using cancel_at_cap_Ok [OF that(2)] resolve_untouched [OF that(1)] by (simp add: books_untouched_def)
  from assms show ?thesis
  proof (cases rule: charge_one_refused)
    case (exhausted c s1 u)
    with cancelled show ?thesis by (auto simp: cap_exhausted_def split: option.splits)
  next
    case (over c)
    have "x\<lparr>status := Cancelled\<rparr> = x" using over(4) by simp
    with over assms(3) resolve_untouched [OF over(1)] show ?thesis
      by (auto simp: cap_exhausted_def books_untouched_def fun_upd_idem split: option.splits)
  next
    case (period c s1)
    note same = resolve_untouched [OF period(1)]
    have "shortfall_status s1 x now = shortfall_status s x now" by (simp add: shortfall_status_def same)
    then show ?thesis
      using charge_period_refused(1,3) [OF period(2) assms(2)] cancelled [OF period(1)]
        charge_shortfall_Ok [of i x now c s1 r t] period(1) same
      by (auto simp: books_untouched_def)
  qed
qed

section \<open>Charges over time\<close>

text \<open>The period a charge is taken for lies after every period charged before.\<close>

lemma charged_period:
  assumes "lib_charge_subscription env i s = (Ok Charged, t)"
  obtains x where "subs s i = Some x" and "0 < interval_seconds x"
    and "\<forall>q. charged_period_key (sbs s) i = Some q \<longrightarrow> q < period_of x (ledger_timestamp env)"
    and "charged_period_key (sbs t) i = Some (period_of x (ledger_timestamp env))"
proof -
  let ?now = "ledger_timestamp env"
  from assms obtain s1 u where run: "charge_one env i ?now None s1 = (Ok Charged, u)" and same: "sbs s1 = sbs s" "sbs t = sbs u"
    by (auto simp: lib_charge_subscription_def unless_stopped_Ok with_lock_Ok drop_guard_def)
  then obtain x where x: "subs s1 i = Some x" by (auto simp: charge_one_def try_res_Ok get_subscription_Ok)
  obtain c s2 where res: "resolve_charge_amount env i x s1 = (Ok c, s2)"
    and p: "charge_period env i x ?now None c s2 = (Ok Charged, u)"
    by (rule charge_one_Charged [OF run x]) simp_all
  note same2 = resolve_sbs [OF res]
  note period = charge_period_Charged [OF p, simplified]
  have "charged_period_key (sbs u) = (charged_period_key (sbs s2))(i \<mapsto> period_of x ?now)"
    by (rule settle_interval_Ok [OF period(7)]) (use same2 x in simp_all)
  with x period(1,2) same same2 that [of x] show thesis by simp
qed

text \<open>C9. No billing period is charged twice: when an interval charge of a subscription was taken and, after
  any sequence of transactions, another one is, the second is for a strictly later billing period, and
  while the interval has not been changed by a migration a full period boundary lies between them.\<close>

theorem no_double_charge:
  assumes "lib_charge_subscription env i s = (Ok Charged, t)" and "store_ok s"
    and "reaches self (\<lambda>_ _ _. True) t u" and "lib_charge_subscription env' i u = (Ok Charged, v)"
  shows "\<exists>x y. subs s i = Some x \<and> subs u i = Some y \<and> start_time y = start_time x
    \<and> period_of x (ledger_timestamp env) < period_of y (ledger_timestamp env')
    \<and> (interval_seconds y = interval_seconds x \<longrightarrow>
         start_time x + (period_of x (ledger_timestamp env) + 1) * interval_seconds x \<le> ledger_timestamp env')"
proof -
  let ?now = "ledger_timestamp env" and ?now' = "ledger_timestamp env'"
  obtain x where x: "subs s i = Some x" and p: "charged_period_key (sbs t) i = Some (period_of x ?now)"
    by (rule charged_period [OF assms(1)])
  obtain y where y: "subs u i = Some y" "0 < interval_seconds y"
    and q: "\<forall>q. charged_period_key (sbs u) i = Some q \<longrightarrow> q < period_of y ?now'"
    by (rule charged_period [OF assms(4)])
  have "transact env (ChargeCall (Charge_Subscription i)) s = (Ok (), t)"
    by (simp add: transact_def invoke_def assms(1))
  then have "effect env True s t"
    using transact_refines [of env "ChargeCall (Charge_Subscription i)" s] by simp
  from store_grows_effect [OF this] assms(2) have t: "store_ok t" "remembers s t" by (simp_all add: store_grows_def)
  have u: "remembers t u" using store_runs.R_reaches [OF assms(3)] t(1) by (simp add: store_grows_def)
  then obtain q' where "period_of x ?now \<le> q'" "charged_period_key (sbs u) i = Some q'"
    using p unfolding remembers_def by blast
  with q have later: "period_of x ?now < period_of y ?now'" by auto
  from remembers_trans [OF t(2) u] x obtain y' where "subs u i = Some y'" "develops x y'"
    unfolding remembers_def by blast
  with y(1) have "develops x y" by simp
  then have start: "start_time y = start_time x" by (simp add: develops_def)
  have "start_time x + (period_of x ?now + 1) * interval_seconds x \<le> ?now'" if same: "interval_seconds y = interval_seconds x"
  proof -
    have "period_of x ?now + 1 \<le> (?now' - start_time x) div interval_seconds x"
      using later by (simp add: period_of_def start same)
    then have "(period_of x ?now + 1) * interval_seconds x \<le> ?now' - start_time x"
      using y(2) same by (simp add: less_eq_div_iff_mult_less_eq)
    moreover from this have "start_time x \<le> ?now'" using y(2) same by (cases "start_time x \<le> ?now'") auto
    ultimately show ?thesis by linarith
  qed
  with x y(1) later start show ?thesis by blast
qed

text \<open>
  The index of the period is counted in intervals, but it is kept when a migration changes the interval.
  After a migration to a longer interval no charge is taken until the new count has caught up.
\<close>

lemma migration_defers_charges:
  assumes "do_migrate_subscription_to_plan env u i p s = (Ok (), t)" and "subs s i = Some x"
    and "plan_key (pln s) p = Some plan" and "charged_period_key (sbs s) i = Some q"
    and "ledger_timestamp env' < start_time x + (q + 1) * plan_interval_seconds plan"
  shows "lib_charge_subscription env' i t \<noteq> (Ok Charged, v)"
proof
  assume "lib_charge_subscription env' i t = (Ok Charged, v)"
  then obtain y where y: "subs t i = Some y" "0 < interval_seconds y"
    and q: "\<forall>q. charged_period_key (sbs t) i = Some q \<longrightarrow> q < period_of y (ledger_timestamp env')"
    by (rule charged_period)
  from assms(1) obtain x' and new :: plan_template where new: "subs s i = Some x'" "plan_key (pln s) p = Some new"
    and t: "\<exists>tp ev. t = publish tp ev (put_sub_plan i p (put_sub i (x'\<lparr>lifetime_cap := plan_lifetime_cap new,
       amount := plan_amount new, interval_seconds := plan_interval_seconds new\<rparr>) s))"
    by (rule migrate_Ok)
  have "charged_period_key (sbs t) i = Some q" using t assms(4) by auto
  with q have "q < period_of y (ledger_timestamp env')" by blast
  then have "q + 1 \<le> (ledger_timestamp env' - start_time y) div interval_seconds y" by (simp add: period_of_def)
  then have le: "(q + 1) * interval_seconds y \<le> ledger_timestamp env' - start_time y"
    using y(2) by (simp add: less_eq_div_iff_mult_less_eq)
  have "start_time y = start_time x" "interval_seconds y = plan_interval_seconds plan"
    using y(1) t new assms(2,3) by auto
  with le assms(5) y(2) show False by (cases "start_time x \<le> ledger_timestamp env'") auto
qed

end
