(* ===== verification/Quiet_Calls.thy ===== *)
theory Quiet_Calls
  imports Vault_Invariants
begin

text \<open>
  The two sides of the books, lifetime totals and statements, and the calls and phases that touch
  neither of them nor the period snapshots: every call but charges and compaction, and within a
  charge everything but the booking itself.
\<close>

section \<open>The two sides of the books\<close>

definition statement_books ::
  "vault \<Rightarrow> (u32 \<times> u32 \<rightharpoonup> billing_statement) \<times> (u32 \<rightharpoonup> u32) \<times> (u32 \<rightharpoonup> u32) \<times> (u32 \<rightharpoonup> billing_statement_aggregate)" where
  "statement_books s = (srow_key (stm s), snext_key (stm s), slive_key (stm s), sagg_key (stm s))"

definition lifetime_of :: "vault \<Rightarrow> u32 \<Rightarrow> i128" where
  "lifetime_of s i = (case subs s i of Some x \<Rightarrow> lifetime_charged x | None \<Rightarrow> 0)"

definition reconciles :: "vault \<Rightarrow> u32 \<Rightarrow> bool" where
  "reconciles s i \<longleftrightarrow> statements_ok s i \<and> booked s i = lifetime_of s i
     \<and> pruned_count (get_compacted_aggregate s i) + get_total_statements s i = next_sequence s i"

definition reconciled :: "vault \<Rightarrow> bool" where
  "reconciled s \<longleftrightarrow> (\<forall>i. reconciles s i)"

text \<open>The books of the merchants: what they hold, what they earned, and what was paid out to them according
  to the published events.\<close>

fun payout_of :: "string \<times> event \<Rightarrow> ((address \<times> address) \<times> i128) list" where
  "payout_of (_, FundsEv (MerchantWithdrawalEvent m tok amt _ _)) = [((m, tok), amt)]"
| "payout_of _ = []"

definition payouts :: "(string \<times> event) list \<Rightarrow> ((address \<times> address) \<times> i128) list" where
  "payouts l = concat (map payout_of l)"

lemma payouts_simps [simp]: "payouts [] = []" "payouts (e # l) = payout_of e @ payouts l" "payouts (l @ r) = payouts l @ payouts r"
  by (simp_all add: payouts_def)

definition merchant_books ::
  "vault \<Rightarrow> (address \<times> address \<rightharpoonup> i128) \<times> (address \<times> address \<rightharpoonup> token_earnings) \<times> ((address \<times> address) \<times> i128) list" where
  "merchant_books s = (merchant_balances s, merchant_earnings_key (mer s), payouts (evlog s))"

text \<open>
  \<open>level s t\<close>: neither side has moved. \<open>quiet s t\<close>: nor have the period snapshots, which only interval
  charges write. \<open>calm s t\<close>: nor have the books of the merchants;
  \<open>still s t\<close>: nor any subscription.
\<close>

definition level :: "vault \<Rightarrow> vault \<Rightarrow> bool" where
  "level s t \<longleftrightarrow> statement_books t = statement_books s \<and> lifetime_of t = lifetime_of s"

definition quiet :: "vault \<Rightarrow> vault \<Rightarrow> bool" where
  "quiet s t \<longleftrightarrow> level s t \<and> snp t = snp s"

definition calm :: "vault \<Rightarrow> vault \<Rightarrow> bool" where
  "calm s t \<longleftrightarrow> quiet s t \<and> merchant_books t = merchant_books s"

definition still :: "vault \<Rightarrow> vault \<Rightarrow> bool" where
  "still s t \<longleftrightarrow> calm s t \<and> subs t = subs s"

interpretation level_steps: step_relation level
  by unfold_locales (simp_all add: level_def)

interpretation quiet_steps: step_relation quiet
  by unfold_locales (simp_all add: quiet_def level_def)

interpretation calm_steps: step_relation calm
  by unfold_locales (simp_all add: calm_def quiet_def level_def)

lemma calm_quiet: "calm s t \<Longrightarrow> quiet s t"
  by (simp add: calm_def)

interpretation still_steps: step_relation still
  by unfold_locales (simp_all add: still_def calm_def quiet_def level_def)

lemma still_calm: "still s t \<Longrightarrow> calm s t"
  by (simp add: still_def)

lemma keeps_quiet: "calm_steps.keeps s m \<Longrightarrow> quiet_steps.keeps s m"
  by (erule ends_mono) (rule calm_quiet)

lemma same_books:
  assumes "statement_books t = statement_books s"
  shows "statements_ok t i = statements_ok s i" and "booked t i = booked s i"
    and "get_compacted_aggregate t i = get_compacted_aggregate s i" and "get_total_statements t i = get_total_statements s i"
    and "next_sequence t i = next_sequence s i"
  using assms
  by (simp_all add: statement_books_def statements_ok_def booked_def live_rows_def get_compacted_aggregate_def get_total_statements_def)

lemma level_reconciled: "level s t \<Longrightarrow> reconciled s \<Longrightarrow> reconciled t"
  using same_books [of t s] by (simp add: reconciled_def reconciles_def level_def)

lemma quiet_reconciled: "quiet s t \<Longrightarrow> reconciled s \<Longrightarrow> reconciled t"
  by (auto simp: quiet_def intro: level_reconciled)

lemma lifetime_cong: "subs t = subs s \<Longrightarrow> lifetime_of t = lifetime_of s"
  by (rule ext) (simp add: lifetime_of_def)

lemma lifetime_put: "subs t = (subs s)(i \<mapsto> y) \<Longrightarrow> lifetime_of t = (lifetime_of s)(i := lifetime_charged y)"
  by (rule ext) (simp add: lifetime_of_def)

lemma level_same: "subs t = subs s \<Longrightarrow> stm t = stm s \<Longrightarrow> level s t"
  using lifetime_cong [of t s] by (simp add: level_def statement_books_def)

lemma level_change:
  assumes "lifetime_of s i = lifetime_charged y" and "subs t = (subs s)(i \<mapsto> y)" and "stm t = stm s"
  shows "level s t"
proof -
  have "lifetime_of t = lifetime_of s" unfolding lifetime_put [OF assms(2)] assms(1) [symmetric] by simp
  then show ?thesis using assms(3) by (simp add: level_def statement_books_def)
qed

lemma quiet_same: "subs t = subs s \<Longrightarrow> stm t = stm s \<Longrightarrow> snp t = snp s \<Longrightarrow> quiet s t"
  by (simp add: quiet_def level_same)

lemma calmI: "quiet s t \<Longrightarrow> merchant_balances t = merchant_balances s \<Longrightarrow>
   merchant_earnings_key (mer t) = merchant_earnings_key (mer s) \<Longrightarrow> payouts (evlog t) = payouts (evlog s) \<Longrightarrow> calm s t"
  by (simp add: calm_def merchant_books_def)

lemma calm_same: "subs t = subs s \<Longrightarrow> stm t = stm s \<Longrightarrow> snp t = snp s \<Longrightarrow> merchant_balances t = merchant_balances s \<Longrightarrow>
   merchant_earnings_key (mer t) = merchant_earnings_key (mer s) \<Longrightarrow> payouts (evlog t) = payouts (evlog s) \<Longrightarrow> calm s t"
  by (simp add: calmI quiet_same)

lemma still_same: "subs t = subs s \<Longrightarrow> stm t = stm s \<Longrightarrow> snp t = snp s \<Longrightarrow> merchant_balances t = merchant_balances s \<Longrightarrow>
   merchant_earnings_key (mer t) = merchant_earnings_key (mer s) \<Longrightarrow> payouts (evlog t) = payouts (evlog s) \<Longrightarrow> still s t"
  by (simp add: still_def calm_same)

lemma calm_put:
  "subs s i = Some x \<Longrightarrow> subs t = (subs s)(i \<mapsto> y) \<Longrightarrow> lifetime_charged y = lifetime_charged x \<Longrightarrow> stm t = stm s \<Longrightarrow>
   snp t = snp s \<Longrightarrow> mer t = mer s \<Longrightarrow> payouts (evlog t) = payouts (evlog s) \<Longrightarrow> calm s t"
  using level_change [of s i y t] by (intro calmI) (simp_all add: quiet_def lifetime_of_def)

lemma calm_new:
  "subs s i = None \<Longrightarrow> subs t = (subs s)(i \<mapsto> y) \<Longrightarrow> lifetime_charged y = 0 \<Longrightarrow> stm t = stm s \<Longrightarrow>
   snp t = snp s \<Longrightarrow> mer t = mer s \<Longrightarrow> payouts (evlog t) = payouts (evlog s) \<Longrightarrow> calm s t"
  using level_change [of s i y t] by (intro calmI) (simp_all add: quiet_def lifetime_of_def)

section \<open>Calls that touch neither side\<close>

lemma retention_still: "set_billing_retention env a k s = (Ok u, t) \<Longrightarrow> still s t"
  by (auto simp: set_billing_retention_def set_retention_config_def still_def calm_def merchant_books_def
      quiet_def level_def statement_books_def ok_iff intro!: lifetime_cong)

lemma settings_still:
  "do_init env tok d a m g s = (Ok u, t) \<Longrightarrow> still s t"
  "do_set_min_topup env a n s = (Ok u, t) \<Longrightarrow> still s t"
  "lib_set_oracle_config env a en orc g s = (Ok u, t) \<Longrightarrow> still s t"
  "enable_emergency_stop env a s = (Ok u, t) \<Longrightarrow> still s t"
  "disable_emergency_stop env a s = (Ok u, t) \<Longrightarrow> still s t"
  "add_accepted_token env a tok d s = (Ok u, t) \<Longrightarrow> still s t"
  "remove_accepted_token env a tok s = (Ok u, t) \<Longrightarrow> still s t"
  "set_protocol_fee env a tok f s = (Ok u, t) \<Longrightarrow> still s t"
  "do_rotate_admin env a b nonce s = (Ok u, t) \<Longrightarrow> still s t"
  "do_recover_stranded_funds env a tok r amt rid why s = (Ok u, t) \<Longrightarrow> still s t"
  "do_add_to_blocklist env a who note s = (Ok u, t) \<Longrightarrow> still s t"
  "do_remove_from_blocklist env a who s = (Ok u, t) \<Longrightarrow> still s t"
  "export_contract_snapshot env a s = (Ok cs, t) \<Longrightarrow> still s t"
  "export_subscription_summary env a i s = (Ok su, t) \<Longrightarrow> still s t"
  "export_subscription_summaries env a i k s = (Ok sus, t) \<Longrightarrow> still s t"
  by (auto simp: do_init_def do_set_min_topup_def lib_set_oracle_config_def set_oracle_config_def enable_emergency_stop_def
      disable_emergency_stop_def add_accepted_token_def remove_accepted_token_def set_protocol_fee_def do_rotate_admin_def
      do_recover_stranded_funds_def do_add_to_blocklist_def do_remove_from_blocklist_def export_contract_snapshot_def
      export_subscription_summary_def export_subscription_summaries_def ok_iff Let_def check_and_advance_Ok
      intro!: still_same split: if_splits option.splits)

lemma merchants_still:
  "pause_merchant env m s = (Ok u, t) \<Longrightarrow> still s t"
  "unpause_merchant env m s = (Ok u, t) \<Longrightarrow> still s t"
  "initialize_merchant_config env m p f ops fa url s = (Ok c, t) \<Longrightarrow> still s t"
  "set_merchant_config env m c s = (Ok u, t) \<Longrightarrow> still s t"
  "update_merchant_config env m np nf nops na nfa nurl npa s = (Ok c, t) \<Longrightarrow> still s t"
  by (auto simp: pause_merchant_def unpause_merchant_def initialize_merchant_config_def set_merchant_config_def
      update_merchant_config_def set_merchant_paused_def put_merchant_config_def ok_iff Let_def intro!: still_same split: if_splits)

text \<open>A payout touches neither side, but the books of its merchant.\<close>

lemma payouts_quiet:
  "withdraw_merchant_funds_for_token env m tok amt s = (Ok u, t) \<Longrightarrow> quiet s t"
  "withdraw_merchant_funds env m amt s = (Ok u, t) \<Longrightarrow> quiet s t"
  "merchant_refund env m who tok amt s = (Ok u, t) \<Longrightarrow> quiet s t"
  by (auto simp: withdraw_merchant_funds_for_token_def withdraw_merchant_funds_def merchant_refund_def
      merchant_writes sub_total_accounted_Ok ok_iff Let_def intro!: quiet_same split: if_splits)

lemma plans_still:
  "do_create_plan_template env m amt iv en cap s = (Ok p, t) \<Longrightarrow> still s t"
  "do_create_plan_template_with_token env m tok amt iv en cap s = (Ok p, t) \<Longrightarrow> still s t"
  "do_update_plan_template env m p amt iv en cap s = (Ok p', t) \<Longrightarrow> still s t"
  "do_set_plan_max_active_subs env m p n s = (Ok u, t) \<Longrightarrow> still s t"
  "do_set_subscriber_credit_limit env a w tok x s = (Ok u, t) \<Longrightarrow> still s t"
  "do_configure_usage_limits env m i mc w' b c s = (Ok u, t) \<Longrightarrow> still s t"
  "do_set_global_cap_default env a cap s = (Ok u, t) \<Longrightarrow> still s t"
  "do_set_merchant_cap_default env m cap s = (Ok u, t) \<Longrightarrow> still s t"
  "do_update_subscription_cap env a i cap s = (Ok u, t) \<Longrightarrow> still s t"
  by (auto simp: do_create_plan_template_def do_create_plan_template_with_token_def store_new_plan_def next_plan_id_def
      put_plan_def do_update_plan_template_def do_set_plan_max_active_subs_def do_set_subscriber_credit_limit_def
      do_configure_usage_limits_def do_set_global_cap_default_def do_set_merchant_cap_default_def
      do_update_subscription_cap_def ok_iff Let_def intro!: still_same split: option.splits if_splits)

text \<open>The operations on a subscription that leave its lifetime total alone.\<close>

lemma metadata_still:
  "do_set_metadata env i a key v s = (Ok u, t) \<Longrightarrow> still s t"
  "do_delete_metadata env i a key s = (Ok u, t) \<Longrightarrow> still s t"
  by (auto simp: do_set_metadata_def do_delete_metadata_def set_metadata_keys_def set_metadata_value_def ok_iff Let_def
      intro!: still_same split: if_splits option.splits)

lemma status_calm:
  "do_cancel_subscription env i a s = (Ok u, t) \<Longrightarrow> calm s t"
  "do_pause_subscription env i a s = (Ok u, t) \<Longrightarrow> calm s t"
  "do_resume_subscription env i a s = (Ok u, t) \<Longrightarrow> calm s t"
  by (auto simp: cancel_Ok pause_Ok resume_Ok party_def simp del: can_transition_targets
      intro: calm_put calm_steps.R_refl split: if_splits)

text \<open>The events of the operations on a subscription report no payout to a merchant.\<close>

lemma recovery_payouts [simp]: "payouts (evlog (recover_after_deposit env i x s)) = payouts (evlog s)"
  by (simp add: recover_after_deposit_def)

lemma other_payouts:
  "do_cleanup_subscription env i a s = (Ok u, t) \<Longrightarrow> payouts (evlog t) = payouts (evlog s)"
  "do_create_subscription_with_token env w m tok amt iv en cap ex s = (Ok j, t) \<Longrightarrow> payouts (evlog t) = payouts (evlog s)"
  "do_create_subscription_from_plan env w p s = (Ok j, t) \<Longrightarrow> payouts (evlog t) = payouts (evlog s)"
  "do_migrate_subscription_to_plan env w i p s = (Ok u, t) \<Longrightarrow> payouts (evlog t) = payouts (evlog s)"
  by (auto simp: do_cleanup_subscription_def do_create_subscription_with_token_def do_create_subscription_from_plan_def
      do_migrate_subscription_to_plan_def store_new_subscription_def put_sub_plan_def ok_iff Let_def
      split: if_splits option.splits)

lemma cleanup_calm: "do_cleanup_subscription env i a s = (Ok u, t) \<Longrightarrow> calm s t"
  using other_payouts(1) [of env i a s u t] by (auto elim!: cleanup_Ok intro: calm_put calm_steps.R_refl)

lemma deposit_frame: "do_deposit_funds env i w amt s = (Ok u, t) \<Longrightarrow> stm t = stm s \<and> snp t = snp s \<and> mer t = mer s \<and> payouts (evlog t) = payouts (evlog s)"
  by (auto simp: do_deposit_funds_def ok_iff Let_def) (auto simp: add_total_accounted_Ok split: if_splits)

lemma withdraw_frame: "do_withdraw_subscriber_funds env i w s = (Ok u, t) \<Longrightarrow> stm t = stm s \<and> snp t = snp s \<and> mer t = mer s \<and> payouts (evlog t) = payouts (evlog s)"
  by (auto simp: do_withdraw_subscriber_funds_def ok_iff Let_def sub_total_accounted_Ok split: if_splits)

lemma partial_refund_frame: "do_partial_refund env a i w amt s = (Ok u, t) \<Longrightarrow> stm t = stm s \<and> snp t = snp s \<and> mer t = mer s \<and> payouts (evlog t) = payouts (evlog s)"
  by (auto simp: do_partial_refund_def ok_iff Let_def sub_total_accounted_Ok split: if_splits)

lemma put_sub_plan_stm [simp]: "stm (put_sub_plan i p s) = stm s" "snp (put_sub_plan i p s) = snp s"
  "mer (put_sub_plan i p s) = mer s" "evlog (put_sub_plan i p s) = evlog s"
  by (simp_all add: put_sub_plan_def)

lemma deposit_calm:
  assumes "do_deposit_funds env i w amt s = (Ok u, t)"
  shows "calm s t"
proof -
  from assms have "do_deposit_funds env i w amt s = (Ok (), t)" by simp
  then obtain x where "subs s i = Some x" "subs t = (subs s)(i \<mapsto> recovered (x\<lparr>prepaid_balance := prepaid_balance x + amt\<rparr>))"
    by (rule deposit_Ok)
  then show ?thesis using deposit_frame [OF assms] by (auto elim!: calm_put simp: recovered_def)
qed

lemma withdraw_calm:
  assumes "do_withdraw_subscriber_funds env i w s = (Ok u, t)"
  shows "calm s t"
proof -
  from assms have "do_withdraw_subscriber_funds env i w s = (Ok (), t)" by simp
  then obtain x where "subs s i = Some x" "subs t = (subs s)(i \<mapsto> x\<lparr>prepaid_balance := 0\<rparr>)"
    by (rule subscriber_withdraw_Ok)
  then show ?thesis using withdraw_frame [OF assms] by (auto elim!: calm_put)
qed

lemma partial_refund_calm:
  assumes "do_partial_refund env a i w amt s = (Ok u, t)"
  shows "calm s t"
proof -
  from assms have "do_partial_refund env a i w amt s = (Ok (), t)" by simp
  then obtain x where "subs s i = Some x" "subs t = (subs s)(i \<mapsto> x\<lparr>prepaid_balance := prepaid_balance x - amt\<rparr>)"
    by (rule partial_refund_Ok)
  then show ?thesis using partial_refund_frame [OF assms] by (auto elim!: calm_put)
qed

lemma migrate_calm:
  assumes "do_migrate_subscription_to_plan env w i p s = (Ok u, t)"
  shows "calm s t"
proof -
  from assms have "do_migrate_subscription_to_plan env w i p s = (Ok (), t)" by simp
  then obtain x and new :: plan_template where "subs s i = Some x"
    and "\<exists>tp ev. t = publish tp ev (put_sub_plan i p (put_sub i (x\<lparr>lifetime_cap := plan_lifetime_cap new,
       amount := plan_amount new, interval_seconds := plan_interval_seconds new\<rparr>) s))"
    by (rule migrate_Ok)
  then show ?thesis using other_payouts(4) [OF assms] by (auto elim!: calm_put)
qed

text \<open>A new subscription starts with a total of zero, under an id that had no statements to count.\<close>

lemma create_calm:
  assumes "do_create_subscription_with_token env u m tok amt iv en cap ex s = (Ok i, t)" and "subs s (next_id_of s) = None"
  shows "calm s t"
  using create_Ok(9,11) [OF assms(1)] other_payouts(2) [OF assms(1)] assms(2) by (auto elim!: calm_new simp: store_new_subscription_def)

lemma create_default_calm:
  "do_create_subscription env u m amt iv en cap ex s = (Ok i, t) \<Longrightarrow> subs s (next_id_of s) = None \<Longrightarrow> calm s t"
  by (auto simp: do_create_subscription_def ok_iff intro: create_calm)

lemma from_plan_calm:
  assumes "do_create_subscription_from_plan env u p s = (Ok i, t)" and "subs s (next_id_of s) = None"
  shows "calm s t"
proof -
  from assms(1) obtain plan :: plan_template where "i = next_id_of s"
    and "\<exists>tp ev. t = publish tp ev (put_sub_plan i p (store_new_subscription i (i + 1)
        (new_subscription env u (plan_merchant plan) (plan_token plan) (plan_amount plan) (plan_interval_seconds plan)
          (plan_usage_enabled plan) (resolve_cap s (plan_merchant plan) (plan_lifetime_cap plan)) None) s))"
    by (rule from_plan_Ok)
  then show ?thesis using other_payouts(3) [OF assms(1)] assms(2) by (auto elim!: calm_new simp: store_new_subscription_def put_sub_plan_def)
qed

lemma locked_run:
  assumes "with_lock name body s = (Ok a, t)"
  obtains s1 u where "still s s1" and "body s1 = (Ok a, u)" and "still u t"
proof -
  from assms obtain u where "body (s\<lparr>lock_key := (lock_key s)(name \<mapsto> True)\<rparr>) = (Ok a, u)" and "t = drop_guard name u"
    by (auto simp: with_lock_Ok)
  then show thesis by (intro that) (auto simp: drop_guard_def intro: still_same)
qed

lemma locked_still:
  assumes "with_lock name body s = (Ok a, t)" and "\<And>s u. body s = (Ok a, u) \<Longrightarrow> still s u"
  shows "still s t"
  using assms(1) by (rule locked_run) (meson assms(2) still_steps.R_trans)

lemma locked_calm:
  assumes "with_lock name body s = (Ok a, t)" and "\<And>s u. body s = (Ok a, u) \<Longrightarrow> calm s u"
  shows "calm s t"
  using assms(1) by (rule locked_run) (meson assms(2) still_calm calm_steps.R_trans)

lemma admin_calls_still:
  "run_admin env c s = (Ok u, t) \<Longrightarrow> \<forall>a i k. c \<noteq> Compact_Billing_Statements a i k \<Longrightarrow> still s t"
  by (cases c) (auto simp: void_Ok intro: retention_still settings_still)

text \<open>The calls that pay a merchant out.\<close>

fun pays_merchant :: "merchant_call \<Rightarrow> bool" where
  "pays_merchant (Withdraw_Merchant_Funds m amt) = True"
| "pays_merchant (Withdraw_Merchant_Token_Funds m tok amt) = True"
| "pays_merchant (Merchant_Refund m u tok amt) = True"
| "pays_merchant _ = False"

lemma merchant_calls_still: "run_merchant env c s = (Ok u, t) \<Longrightarrow> \<not> pays_merchant c \<Longrightarrow> still s t"
  by (cases c) (auto simp: void_Ok lib_calls intro: plans_still merchants_still elim!: locked_still)

lemma locked_quiet:
  assumes "with_lock name body s = (Ok a, t)" and "\<And>s u. body s = (Ok a, u) \<Longrightarrow> quiet s u"
  shows "quiet s t"
  using assms(1) by (rule locked_run) (meson assms(2) still_calm calm_quiet quiet_steps.R_trans)

lemma merchant_calls_quiet: "run_merchant env c s = (Ok u, t) \<Longrightarrow> quiet s t"
proof (cases "pays_merchant c")
  case True
  moreover assume "run_merchant env c s = (Ok u, t)"
  ultimately show ?thesis
    by (cases c) (auto simp: void_Ok lib_calls intro: payouts_quiet elim!: locked_quiet)
qed (simp add: calm_quiet still_calm merchant_calls_still)

lemma subscription_calls_calm:
  "run_subscription env c s = (Ok u, t) \<Longrightarrow> subs s (next_id_of s) = None \<Longrightarrow> calm s t"
  by (cases c) (auto simp: void_Ok lib_calls unless_stopped_Ok intro: create_default_calm create_calm from_plan_calm
      status_calm cleanup_calm migrate_calm plans_still [THEN still_calm] metadata_still [THEN still_calm] deposit_calm withdraw_calm partial_refund_calm
      elim!: locked_calm)

section \<open>Charges\<close>

text \<open>The phases of a charge before and after the booking touch neither side, whatever their outcome.\<close>

lemma credit_quiet: "quiet_steps.keeps s (credit_merchant_balance_for_token m tok amt k s)"
proof (rule endsI)
  fix r t
  assume c: "credit_merchant_balance_for_token m tok amt k s = (r, t)"
  then have "stm t = stm s" "snp t = snp s"
    using endsD [OF credit_ends] by (metis vault.select_convs(5,6) vault.surjective vault.update_convs(2))+
  with credit_sbs [OF c] show "quiet s t" by (intro quiet_same) simp_all
qed

lemma treasury_quiet: "quiet_steps.keeps s (credit_treasury i tok m f now tr s)"
  unfolding credit_treasury_def
  by (auto intro!: quiet_steps.keeps_rules credit_quiet quiet_steps.keeps_return quiet_same split: option.split)

lemma resolve_calm: "calm_steps.keeps s (resolve_charge_amount env i sub s)"
  unfolding resolve_charge_amount_def Let_def
  by (intro ends_intro) (auto intro!: calm_same)

lemma cap_event_payouts [simp]:
  "payouts (evlog (cap_event i y now s)) = payouts (evlog s)"
  "payouts (evlog (cap_reach_event i y now s)) = payouts (evlog s)"
  by (simp_all add: cap_event_def cap_reach_event_def split: option.split)

lemma expiration_guard_calm:
  "subs s i = Some sub \<Longrightarrow> calm_steps.keeps s (expiration_guard i sub now s)"
  unfolding expiration_guard_def
  by (auto intro!: calm_steps.keeps_rules calm_steps.keeps_return elim!: calm_put)

lemma cancel_at_cap_calm:
  "subs s i = Some sub \<Longrightarrow> calm_steps.keeps s (cancel_at_cap i sub now s)"
  unfolding cancel_at_cap_def Let_def
  by (auto intro!: calm_steps.keeps_rules calm_steps.keeps_return elim!: calm_put)

lemma charge_shortfall_calm:
  "subs s i = Some sub \<Longrightarrow> calm_steps.keeps s (charge_shortfall i sub now c s)"
  unfolding charge_shortfall_def Let_def
  by (auto intro!: calm_steps.keeps_rules calm_steps.keeps_return elim!: calm_put)

lemma usage_shortfall_calm:
  "subs s i = Some sub \<Longrightarrow> calm_steps.keeps s (usage_shortfall i sub u now s)"
  unfolding usage_shortfall_def
  by (auto intro!: calm_steps.keeps_rules calm_steps.keeps_return elim!: calm_put)

lemma usage_limit_calm: "calm_steps.keeps s (usage_limit_step i sub now u s)"
  unfolding usage_limit_step_def
  by (auto intro!: calm_steps.keeps_rules calm_steps.keeps_return calm_same split: sum.split)

lemma write_snapshot_level: "level_steps.keeps s (write_period_snapshot x s)"
  by (intro endsI level_same) (auto dest: write_snapshot_sbs)

text \<open>A statement of a positive amount over a proper period is refused only when a counter is full.\<close>

lemma append_outcome:
  assumes "append_statement env i c m k a b s = (r, t)" and "0 < c" and "a \<le> b" and "k = Interval \<longrightarrow> a < b"
  shows "r = Ok () \<or> r = Err Overflow"
proof -
  have "ends (\<lambda>r t. r = Ok () \<or> r = Err Overflow) (append_statement env i c m k a b s)"
    using assms(2-) unfolding append_statement_def Let_def
    by (intro ends_intro) (auto simp: ok_or_def split: option.splits)
  from endsD [OF this assms(1)] show ?thesis .
qed

end
