(* ===== verification/Clean_Runs.thy ===== *)
theory Clean_Runs
  imports Quiet_Calls
begin

text \<open>
  Relations that charges keep unless a counter overflows. A charge whose statement or earnings counter
  is full has written before it fails; alone it is undone with its transaction, inside a batch it is
  not. What holds of every other outcome is found phase by phase, and holds of whole runs as long as
  no charge of a batch overflows.
\<close>

section \<open>The phases of a charge\<close>

locale clean_relation = step_relation R
  for R :: "vault \<Rightarrow> vault \<Rightarrow> bool" +
  assumes calm_R: "calm s t \<Longrightarrow> R s t"
begin

abbreviation settles :: "vault \<Rightarrow> 'a res \<times> vault \<Rightarrow> bool" where
  "settles s m \<equiv> ends (\<lambda>r t. r \<noteq> Err Overflow \<longrightarrow> R s t) m"

lemma settles_keeps: "keeps s m \<Longrightarrow> settles s m"
  by (erule ends_mono) simp

lemma settles_calm: "calm_steps.keeps s m \<Longrightarrow> settles s m"
  by (erule ends_mono) (simp add: calm_R)

lemma settles_stay: "settles s (r, s)"
  by (simp add: ends_def R_refl)

lemma settles_after: "R s t \<Longrightarrow> settles t m \<Longrightarrow> settles s m"
  unfolding ends_def using R_trans by blast

lemma settles_try_res: "(\<And>a. r = Ok a \<Longrightarrow> settles s (k a)) \<Longrightarrow> settles s (try_res r s k)"
  by (cases r) (auto simp: ends_def R_refl)

lemma settles_try_op:
  assumes "settles s m" and "\<And>a t. m = (Ok a, t) \<Longrightarrow> settles t (k a t)"
  shows "settles s (try_op m k)"
proof (cases m)
  case (Pair r t)
  with assms show ?thesis by (cases r) (auto simp: ends_def intro: R_trans)
qed

lemmas settles_rules = settles_stay settles_try_res settles_try_op ends_if ends_case_option

text \<open>A call that takes a lock.\<close>

lemma locked_R:
  assumes "with_lock name body s = (Ok a, t)" and "\<And>s u. body s = (Ok a, u) \<Longrightarrow> R s u"
  shows "R s t"
  using assms(1) by (rule locked_run) (meson assms(2) still_calm calm_R R_trans)

lemma locked_settles: "with_lock name body s = (Ok a, t) \<Longrightarrow> (\<And>s. settles s (body s)) \<Longrightarrow> R s t"
  by (erule locked_R) (auto dest: endsD)

end

section \<open>Charges and runs\<close>

text \<open>Besides the calm calls there are the three charges, compaction and the payouts to merchants.\<close>

locale charge_relation = clean_relation R
  for R :: "vault \<Rightarrow> vault \<Rightarrow> bool" +
  assumes charge_R: "settles s (charge_one env i now key s)"
    and usage_R: "settles s (charge_usage_one env i u reference s)"
    and one_off_R: "settles s (do_charge_one_off env i m u s)"
    and compaction_R: "compact_billing_statements env a i k s = (Ok sm, t) \<Longrightarrow> R s t"
    and payout_R: "run_merchant env c s = (Ok (), t) \<Longrightarrow> pays_merchant c \<Longrightarrow> R s t"
begin

lemma trace_R:
  "\<forall>m \<in> set (batch_trace env now ids s). fst m \<noteq> Err Overflow \<Longrightarrow> R s (last (s # map snd (batch_trace env now ids s)))"
proof (induction ids arbitrary: s)
  case (Cons i ids)
  obtain r u where m: "charge_one env i now None s = (r, u)" by fastforce
  with Cons.prems have "r \<noteq> Err Overflow" by simp
  with endsD [OF charge_R m] have "R s u" by simp
  with Cons.IH [of u] Cons.prems m show ?case by (auto intro: R_trans)
qed (simp add: R_refl)

lemma batch_R:
  assumes "do_batch_charge env ids n s = (Ok rs, t)" and "\<forall>r \<in> set rs. error_code r \<noteq> to_code Overflow"
  shows "R s t"
proof -
  from assms(1) obtain admin s1 where nonce: "check_and_advance env admin DOMAIN_BATCH_CHARGE n s = (Ok (), s1)"
    and loop: "batch_loop env (ledger_timestamp env) ids [] s1 = (Ok rs, t)"
    by (auto simp: do_batch_charge_def ok_iff)
  let ?trace = "batch_trace env (ledger_timestamp env) ids s1"
  have rs: "rs = map (batch_result \<circ> fst) ?trace" and t: "t = last (s1 # map snd ?trace)"
    using loop by (simp_all add: batch_loop_Ok)
  from nonce have "calm s s1" by (intro calm_same) (auto simp: check_and_advance_Ok)
  moreover have "\<forall>m \<in> set ?trace. fst m \<noteq> Err Overflow" using assms(2) by (auto simp: rs batch_result_def)
  then have "R s1 t" unfolding t by (rule trace_R)
  ultimately show ?thesis using calm_R R_trans by blast
qed

lemma charge_calls_R:
  assumes "run_charge env c s = (Ok u, t)" and "batch_clean env (ChargeCall c) s"
  shows "R s t"
proof (cases c)
  case (Batch_Charge ids n)
  with assms(1) obtain rs where "do_batch_charge env ids n s = (Ok rs, t)"
    by (auto simp: void_Ok lib_calls unless_stopped_Ok)
  then show ?thesis using assms(2) by (rule_tac batch_R) (simp_all add: Batch_Charge list_all_iff)
qed (use assms in \<open>auto simp: void_Ok lib_calls unless_stopped_Ok
    elim: locked_settles [OF _ charge_R] locked_settles [OF _ usage_R] locked_settles [OF _ one_off_R]\<close>)

lemma admin_calls_R: "run_admin env c s = (Ok u, t) \<Longrightarrow> R s t"
  using admin_calls_still [of env c s u t] still_calm calm_R by (cases c) (auto simp: void_Ok intro: compaction_R)

lemma run_R:
  assumes "run env c s = (Ok u, t)" and "batch_clean env c s" and "store_ok s"
  shows "R s t"
proof -
  have "next_id_of s \<notin> dom (subs s)" using assms(3) by (simp add: store_ok_def)
  then have "subs s (next_id_of s) = None" by (simp add: domIff)
  moreover have "R s t" if "run_merchant env d s = (Ok (), t)" for d
    using that payout_R calm_R still_calm merchant_calls_still by blast
  ultimately show ?thesis
    using assms(1,2) by (cases c) (auto intro: admin_calls_R charge_calls_R calm_R [OF subscription_calls_calm])
qed

end

sublocale charge_relation \<subseteq> clean: run_relation "\<lambda>s t. store_ok s \<longrightarrow> store_ok t \<and> R s t" self batch_clean for self
proof
  show "store_ok s \<longrightarrow> store_ok s \<and> R s s" for s by (simp add: R_refl)
  show "(store_ok s \<longrightarrow> store_ok t \<and> R s t) \<Longrightarrow> (store_ok t \<longrightarrow> store_ok u \<and> R t u) \<Longrightarrow> store_ok s \<longrightarrow> store_ok u \<and> R s u" for s t u
    using R_trans by blast
  show "store_ok s \<longrightarrow> store_ok (snd (transact env c s)) \<and> R s (snd (transact env c s))" if clean: "batch_clean env c s" for env c s
  proof (intro impI conjI)
    assume ok: "store_ok s"
    then show "store_ok (snd (transact env c s))"
      using store_grows_effect [OF transact_refines, of s env c] by (simp add: store_grows_def)
    show "R s (snd (transact env c s))"
    proof (cases "run env c s")
      case (Pair r t)
      with ok clean run_R [of env c s] show ?thesis by (cases r) (auto simp: transact_def invoke_def R_refl)
    qed
  qed
  show "store_ok s \<longrightarrow> store_ok (s\<lparr>tokens := l\<rparr>) \<and> R s (s\<lparr>tokens := l\<rparr>)" if "\<forall>tok. tokens s tok self \<le> l tok self" for s l
    using store_runs.R_outside [of s self l, OF that] calm_R [OF calm_same [of "s\<lparr>tokens := l\<rparr>" s]]
    by (simp add: store_grows_def)
qed

end
