(* ===== verification/Reconciliation.thy ===== *)
theory Reconciliation
  imports Clean_Runs
begin

text \<open>
  The reconciliation of the books, as \<open>docs/reconciliation_strategy.md\<close> describes it: what a subscription
  has been charged in its lifetime is what its statements and its aggregate of compacted statements
  add up to, and every statement ever written is either live or counted in the aggregate. A charge
  moves both sides by the same amount; compaction moves statements into the aggregate.
\<close>

section \<open>Charges\<close>

definition still_reconciled :: "vault \<Rightarrow> vault \<Rightarrow> bool" where
  "still_reconciled s t \<longleftrightarrow> (reconciled s \<longrightarrow> reconciled t)"

interpretation tally: clean_relation still_reconciled
  by unfold_locales (auto simp: still_reconciled_def intro: quiet_reconciled calm_quiet)

lemma quiet_tallied: "quiet s t \<Longrightarrow> still_reconciled s t"
  by (simp add: still_reconciled_def quiet_reconciled)

lemma level_tallied: "level_steps.keeps s m \<Longrightarrow> tally.settles s m"
  by (erule ends_mono) (simp add: still_reconciled_def level_reconciled)

lemma keeps_tallied: "quiet_steps.keeps s m \<Longrightarrow> tally.settles s m"
  by (erule ends_mono) (simp add: quiet_tallied)

text \<open>The booking: the lifetime total and the statements grow by the same amount.\<close>

lemma reconciles_other:
  assumes "append_statement env i amt m k a b s = (Ok u, t)" and "j \<noteq> i"
  shows "reconciles t j = reconciles s j"
proof -
  have "lifetime_of t = lifetime_of s" using append_sbs [OF assms(1)] by (intro lifetime_cong) simp
  then show ?thesis
    using append_other [OF assms] append_Ok(5) [OF assms(1)] assms(2)
    by (simp add: reconciles_def booked_def get_compacted_aggregate_def get_total_statements_def)
qed

lemma append_tallied:
  assumes sub: "subs s i = Some x" and s': "subs s' = (subs s)(i \<mapsto> y)" "stm s' = stm s"
    and y: "lifetime_charged y = lifetime_charged x + c" "0 \<le> c" and period: "a \<le> b" "k = Interval \<longrightarrow> a < b"
    and app: "append_statement env i c m k a b s' = (r, t)"
  shows "r \<noteq> Err Overflow \<longrightarrow> still_reconciled s t"
  unfolding still_reconciled_def
proof (intro impI)
  assume r: "r \<noteq> Err Overflow" and rec: "reconciled s"
  have books: "statement_books s' = statement_books s" by (simp add: s' statement_books_def)
  note same = same_books [OF books]
  note life = lifetime_put [OF s'(1)]
  show "reconciled t"
  proof (cases "c = 0")
    case True
    then have "t = s'" using app period by (auto simp: append_statement_def)
    moreover have "level s s'" by (rule level_change [OF _ s']) (simp add: y(1) True lifetime_of_def sub)
    ultimately show ?thesis using rec level_reconciled by blast
  next
    case False
    with y(2) have "0 < c" by simp
    with append_outcome [OF app _ period] r app have ok: "append_statement env i c m k a b s' = (Ok (), t)" by simp
    have "reconciles t j" for j
    proof (cases "j = i")
      case False
      moreover have "reconciles s' j" using rec same [of j] False by (simp add: reconciled_def reconciles_def life)
      ultimately show ?thesis using reconciles_other [OF ok] by simp
    next
      case True
      have ri: "statements_ok s i" "booked s i = lifetime_charged x"
        "pruned_count (get_compacted_aggregate s i) + get_total_statements s i = next_sequence s i"
        using rec sub by (auto simp: reconciled_def reconciles_def lifetime_of_def)
      then have "statements_ok s' i" by (simp add: same)
      note rows = append_represents [OF this ok]
      have "lifetime_of t = lifetime_of s'" using append_sbs [OF ok] by (intro lifetime_cong) simp
      then have "lifetime_of t i = lifetime_charged x + c" by (simp add: life y(1))
      moreover have "get_compacted_aggregate t i = get_compacted_aggregate s i"
        "get_total_statements t i = get_total_statements s i + 1" "next_sequence t i = next_sequence s i + 1"
        by (simp_all add: append_Ok(5) [OF ok] get_compacted_aggregate_def get_total_statements_def s')
      moreover have "booked t i = booked s i + c"
        using same(2) [of i] by (simp add: booked_def rows calculation same)
      ultimately show ?thesis using ri rows(1) True by (simp add: reconciles_def)
    qed
    then show ?thesis by (simp add: reconciled_def)
  qed
qed

lemma record_charge_tallied:
  assumes "subs s i = Some x" and "subs s' = (subs s)(i \<mapsto> y)" and "stm s' = stm s"
    and "lifetime_charged y = lifetime_charged x + c" and "0 \<le> c" and "n - interval_seconds y < now"
  shows "tally.settles s (record_charge env i y now key c p a b n k s')"
  unfolding record_charge_def Let_def
proof (rule tally.settles_try_op)
  show "tally.settles s (append_statement env i c (merchant y) Interval (n - interval_seconds y) now s')"
    using assms by (intro endsI append_tallied) simp_all
  show "tally.settles t (try_op (write_period_snapshot w t) (\<lambda>_ s2.
      (Ok Charged, if k then cap_event i y now (publish tp ev (mark_charged i p key s2)) else publish tp ev (mark_charged i p key s2))))"
    for w t tp ev
    by (intro level_tallied level_steps.keeps_try_op write_snapshot_level level_steps.keeps_return level_same) simp_all
qed

lemma settle_interval_tallied:
  assumes sub: "subs s i = Some sub" and c: "0 \<le> c" and n: "n - interval_seconds sub < now"
  shows "tally.settles s (settle_interval env i sub now key c nb p a b n s)"
proof -
  have writes: "tally.settles t (record_charge env i y now key c p a b n (cap_exhausted y) (put_sub i y t))"
    if "subs t = subs s" "safe_add (lifetime_charged sub) c = Ok new"
      "settled_status (sub\<lparr>prepaid_balance := nb, last_payment_timestamp := a, lifetime_charged := new\<rparr>) = Ok y" for t new y
  proof -
    from settled_status_Ok [OF that(3)] obtain st where
      "y = sub\<lparr>prepaid_balance := nb, last_payment_timestamp := a, lifetime_charged := new, status := st\<rparr>" by metis
    moreover have "new = lifetime_charged sub + c" using that(2) by (simp add: ok_iff)
    ultimately show ?thesis using that(1) sub c n by (intro record_charge_tallied [where x = sub]) simp_all
  qed
  have "subs u = subs s"
    if "credit_merchant_balance_for_token m tok x k s = (r, t)" "credit_treasury i tok' x f now tr t = (r', u)" for m tok x k r t tok' f tr r' u
    using credit_sbs [OF that(1)] treasury_sbs [OF that(2)] by simp
  then show ?thesis
    unfolding settle_interval_def Let_def split_beta
    by (intro tally.settles_try_op tally.settles_try_res keeps_tallied [OF credit_quiet] keeps_tallied [OF treasury_quiet] writes)
qed

lemma charge_period_tallied:
  assumes sub: "subs s i = Some sub"
  shows "tally.settles s (charge_period env i sub now key c s)"
proof -
  have settle: "tally.settles s (case safe_sub_balance (prepaid_balance sub) c of
        Ok new_balance \<Rightarrow> settle_interval env i sub now key c new_balance p a b n s
      | _ \<Rightarrow> charge_shortfall i sub now c s)"
    if "interval_seconds sub \<noteq> 0" "next_charge_time (last_payment_timestamp sub) (interval_seconds sub) = Ok n" "\<not> now < n" for p a b n
  proof (cases "safe_sub_balance (prepaid_balance sub) c")
    case (Ok nb)
    then have "0 \<le> c" by (simp add: ok_iff)
    moreover have "n - interval_seconds sub < now"
      using that by (auto simp: next_charge_time_def ok_iff checked_Some)
    ultimately show ?thesis using Ok settle_interval_tallied [OF sub] by simp
  qed (use sub in \<open>simp_all add: tally.settles_calm charge_shortfall_calm\<close>)
  show ?thesis
    unfolding charge_period_def Let_def
    by (intro ends_if tally.settles_try_res tally.settles_try_op tally.settles_calm [OF cancel_at_cap_calm] sub settle tally.settles_stay)
qed

lemma charge_one_tallied: "tally.settles s (charge_one env i now key s)"
  unfolding charge_one_def
  by (intro ends_if tally.settles_try_res tally.settles_try_op tally.settles_calm [OF expiration_guard_calm]
      tally.settles_calm [OF resolve_calm] tally.settles_calm [OF cancel_at_cap_calm] charge_period_tallied tally.settles_stay)
    (auto simp: ok_iff dest: resolve_sbs)

lemma settle_usage_tallied:
  assumes sub: "subs s i = Some sub" and u: "0 < u" and pending: "pending = lifetime_charged sub + u"
  shows "tally.settles s (settle_usage env i sub u reference nb pending s)"
proof -
  have book: "tally.settles t (try_op (append_statement env i u (merchant y) Usage now now s')
      (\<lambda>_ s4. (Ok UsageCharged, if k then cap_event i y now (publish tp ev s4) else publish tp ev s4)))"
    if "subs t = subs s" "usage_status (sub\<lparr>prepaid_balance := nb, lifetime_charged := pending\<rparr>) = Ok y"
      and "subs s' = (subs t)(i \<mapsto> y)" "stm s' = stm t" for t y s' now k tp ev
  proof (rule tally.settles_try_op)
    from usage_status_Ok [OF that(2)] obtain st where
      "y = sub\<lparr>prepaid_balance := nb, lifetime_charged := pending, status := st\<rparr>" by metis
    with that sub u pending show "tally.settles t (append_statement env i u (merchant y) Usage now now s')"
      by (intro endsI append_tallied [where x = sub and y = y and s' = s']) simp_all
  qed (auto intro!: keeps_tallied quiet_steps.keeps_return quiet_same)
  show ?thesis
    unfolding settle_usage_def Let_def
    by (intro tally.settles_try_op tally.settles_try_res keeps_tallied [OF credit_quiet] book) (auto dest: credit_sbs)
qed

lemma charge_usage_one_tallied: "tally.settles s (charge_usage_one env i u reference s)"
proof -
  have settle: "tally.settles t (case safe_sub_balance (prepaid_balance sub) u of
        Ok new_balance \<Rightarrow> settle_usage env i sub u reference new_balance pending t
      | _ \<Rightarrow> usage_shortfall i sub u now t)"
    if "subs t i = Some sub" "\<not> u \<le> 0" "safe_add (lifetime_charged sub) u = Ok pending" for sub t pending now
  proof (cases "safe_sub_balance (prepaid_balance sub) u")
    case (Ok nb)
    with that show ?thesis by (auto simp: safe_add_Ok intro: settle_usage_tallied)
  qed (use that in \<open>simp_all add: tally.settles_calm usage_shortfall_calm\<close>)
  have reject: "tally.settles t (reject_usage i sub u now reference r t)" for sub now r t
    unfolding reject_usage_def by (intro tally.settles_calm calm_steps.keeps_return calm_same) simp_all
  show ?thesis
    unfolding charge_usage_one_def usage_within_limits_def Let_def
    by (intro ends_if tally.settles_try_res tally.settles_try_op tally.settles_calm [OF expiration_guard_calm] ends_case_option
        tally.settles_calm [OF cancel_at_cap_calm] tally.settles_calm [OF usage_limit_calm] reject settle tally.settles_stay)
      (auto simp: ok_iff dest: usage_limit_step_same)
qed

lemma settle_one_off_tallied:
  assumes sub: "subs s i = Some sub" and u: "0 < u" and new: "new = lifetime_charged sub + u"
  shows "tally.settles s (settle_one_off env i sub u new s)"
proof -
  have book: "tally.settles t (try_op (append_statement env i u m OneOff now now (put_sub i y t')) (\<lambda>_ s3. (Ok (), publish tp ev s3)))"
    if "subs t = subs s" "subs t' = subs t" "stm t' = stm t" "lifetime_charged y = new" for t m y t' now tp ev
  proof (rule tally.settles_try_op)
    show "tally.settles t (append_statement env i u m OneOff now now (put_sub i y t'))"
      using that sub u new by (intro endsI append_tallied [where x = sub and y = y and s' = "put_sub i y t'"]) simp_all
  qed (auto intro!: keeps_tallied quiet_steps.keeps_return quiet_same)
  show ?thesis
    unfolding settle_one_off_def Let_def
    by (intro tally.settles_try_op tally.settles_try_res keeps_tallied [OF credit_quiet] book) (simp_all add: credit_sbs)
qed

lemma one_off_tallied: "tally.settles s (do_charge_one_off env i m u s)"
  unfolding do_charge_one_off_def Let_def
  by (intro ends_if tally.settles_try_res tally.settles_try_op tally.settles_calm [OF expiration_guard_calm]
      tally.settles_calm [OF cancel_at_cap_calm] settle_one_off_tallied tally.settles_stay)
    (simp_all add: get_subscription_Ok expiration_guard_Ok safe_add_Ok)

section \<open>Compaction\<close>

lemma compaction_lifetime: "compact_subscription_statements i k s = (Ok sm, t) \<Longrightarrow> lifetime_of t = lifetime_of s"
  using compaction_frame by (intro lifetime_cong) (metis vault.select_convs(3) vault.surjective vault.update_convs(5))

lemma compaction_changes:
  assumes "statements_ok s i" and "compact_subscription_statements i k s = (Ok sm, t)"
  shows "next_sequence t j = next_sequence s j"
    and "j \<noteq> i \<Longrightarrow> reconciles t j = reconciles s j"
proof -
  note life = compaction_lifetime [OF assms(2)]
  define n where "n = get_total_statements s i - unwrap_or k (get_retention_config s)"
  have "t = s \<or> (\<exists>lo agg live. t = (erase_rows i lo (lo + n) s)\<lparr>stm := (stm (erase_rows i lo (lo + n) s))\<lparr>
      sagg_key := (sagg_key (stm s))(i \<mapsto> agg), slive_key := (slive_key (stm s))(i \<mapsto> live)\<rparr>\<rparr>)"
  proof (cases "n = 0")
    case True
    then show ?thesis using assms(2) by (auto simp: compact_subscription_statements_def Let_def n_def)
  next
    case False
    then show ?thesis using compact_Ok [OF assms n_def] by (metis bot_nat_0.not_eq_extremum)
  qed
  then have same: "next_sequence t j = next_sequence s j"
    and other: "j \<noteq> i \<Longrightarrow> rows_of t j = rows_of s j \<and> slive_key (stm t) j = slive_key (stm s) j
      \<and> sagg_key (stm t) j = sagg_key (stm s) j"
    by (auto simp: erase_rows_def erase_range_def fun_eq_iff)
  show "next_sequence t j = next_sequence s j" by (rule same)
  assume "j \<noteq> i"
  from other [OF this] same life show "reconciles t j = reconciles s j"
    by (simp add: reconciles_def statements_ok_def booked_def live_rows_def get_compacted_aggregate_def
        get_total_statements_def fun_eq_iff)
qed

lemma compaction_tallied:
  assumes "compact_billing_statements env a i k s = (Ok sm, t)" and rec: "reconciled s"
  shows "reconciled t"
proof -
  from assms(1) obtain u where c: "compact_subscription_statements i k s = (Ok sm, u)" and t: "\<exists>tp ev. t = publish tp ev u"
    by (auto simp: compact_billing_statements_def ok_iff Let_def)
  have ri: "statements_ok s i" "booked s i = lifetime_of s i"
    "pruned_count (get_compacted_aggregate s i) + get_total_statements s i = next_sequence s i"
    using rec by (auto simp: reconciled_def reconciles_def)
  note books = compaction_books [OF ri(1) c, unfolded Let_def]
  note change = compaction_changes [OF ri(1) c]
  have "get_total_statements u i = get_total_statements s i - (get_total_statements s i - unwrap_or k (get_retention_config s))"
    using books length_live_rows [OF ri(1)] length_live_rows [of u i] by (metis length_drop)
  then have "reconciles u i" using books ri change(1) [of i] compaction_lifetime [OF c] by (simp add: reconciles_def)
  then have "reconciled u"
    using change(2) rec unfolding reconciled_def by metis
  moreover have "quiet u t" using t by (auto intro: quiet_same)
  ultimately show ?thesis by (rule quiet_reconciled [rotated])
qed

section \<open>Every run\<close>

interpretation tally: charge_relation still_reconciled
proof
  show "tally.settles s (charge_one env i now key s)" for s env i now key by (rule charge_one_tallied)
  show "tally.settles s (charge_usage_one env i u reference s)" for s env i u reference by (rule charge_usage_one_tallied)
  show "tally.settles s (do_charge_one_off env i m u s)" for s env i m u by (rule one_off_tallied)
  show "compact_billing_statements env a i k s = (Ok sm, t) \<Longrightarrow> still_reconciled s t" for env a i k s sm t
    using compaction_tallied by (auto simp: still_reconciled_def)
  show "run_merchant env c s = (Ok (), t) \<Longrightarrow> pays_merchant c \<Longrightarrow> still_reconciled s t" for env c s t
    by (intro quiet_tallied merchant_calls_quiet)
qed

lemma reconciled_vault_init: "reconciled vault_init"
proof -
  have empty: "subs vault_init = Map.empty" "sagg_key (stm vault_init) = Map.empty"
    "snext_key (stm vault_init) = Map.empty" "slive_key (stm vault_init) = Map.empty"
    by (simp_all add: vault_init_def)
  show ?thesis
    by (simp add: reconciled_def reconciles_def statements_ok_init booked_def lifetime_of_def live_rows_def
        get_compacted_aggregate_def get_total_statements_def empty empty_aggregate_def amounts_def)
qed

text \<open>C7. The books reconcile: after any run, as long as no charge of a batch overflows a counter, what a
  subscription was charged in its lifetime is the total of its compacted statements and its live
  ones, every statement ever written is either live or counted in the aggregate, and the live ones
  are numbered without gaps from the number of compacted ones up to the next number.\<close>

theorem statements_reconcile:
  assumes "reaches self batch_clean s t" and "store_ok s" and "reconciled s"
  shows "(\<forall>x. subs t i = Some x \<longrightarrow> total_amount (get_compacted_aggregate t i) + amounts (live_rows t i) = lifetime_charged x)
    \<and> pruned_count (get_compacted_aggregate t i) + length (live_rows t i) = next_sequence t i
    \<and> map sequence (live_rows t i) = [pruned_count (get_compacted_aggregate t i) ..< next_sequence t i]"
proof -
  have "reconciled t" using tally.clean.R_reaches [OF assms(1)] assms(2,3) by (simp add: still_reconciled_def)
  then have r: "reconciles t i" by (simp add: reconciled_def)
  then have ok: "statements_ok t i" by (simp add: reconciles_def)
  let ?p = "pruned_count (get_compacted_aggregate t i)"
  have "?p + get_total_statements t i = next_sequence t i" using r by (simp add: reconciles_def)
  then have "map sequence (live_rows t i) = [?p ..< next_sequence t i]"
    using nth_live_rows(2) [OF ok] length_live_rows [OF ok] by (intro nth_equalityI) auto
  with r show ?thesis
    by (auto simp: reconciles_def booked_def lifetime_of_def length_live_rows)
qed

end
