(* ===== verification/Earnings.thy ===== *)
theory Earnings
  imports Clean_Runs
begin

text \<open>
  The earnings of the merchants, as \<open>docs/merchant_earnings.md\<close> describes them: a balance is what the
  merchant accrued, less refunds and withdrawals. The code counts accruals and refunds in the earnings
  record, but withdrawals only in its \<open>withdrawn\<close> events; with these the balances reconcile.
\<close>

section \<open>What was paid out\<close>

definition withdrawn :: "vault \<Rightarrow> address \<Rightarrow> address \<Rightarrow> int" where
  "withdrawn s m tok = (\<Sum>(k, amt) \<leftarrow> payouts (evlog s). if k = (m, tok) then amt else 0)"

abbreviation earnings_of :: "vault \<Rightarrow> address \<Rightarrow> address \<Rightarrow> token_earnings" where
  "earnings_of \<equiv> get_merchant_token_earnings"

text \<open>What the balance of a merchant lacks of its earnings.\<close>

definition discrepancy :: "vault \<Rightarrow> address \<Rightarrow> address \<Rightarrow> int" where
  "discrepancy s m tok = earned (earnings_of s m tok) - refunds (earnings_of s m tok) - withdrawn s m tok
     - get_merchant_balance_by_token s m tok"

definition grown :: "token_earnings \<Rightarrow> token_earnings \<Rightarrow> bool" where
  "grown e f \<longleftrightarrow> acc_interval (accruals e) \<le> acc_interval (accruals f) \<and> acc_usage (accruals e) \<le> acc_usage (accruals f)
     \<and> acc_one_off (accruals e) \<le> acc_one_off (accruals f) \<and> withdrawals f = withdrawals e
     \<and> refunds e \<le> refunds f \<and> (refunds e \<le> I128_MAX \<longrightarrow> refunds f \<le> I128_MAX)"

lemma grown_refl [simp]: "grown e e"
  by (simp add: grown_def)

lemma grown_trans: "grown e f \<Longrightarrow> grown f g \<Longrightarrow> grown e g"
  by (simp add: grown_def)

definition earns :: "vault \<Rightarrow> vault \<Rightarrow> bool" where
  "earns s t \<longleftrightarrow> (\<forall>m tok. discrepancy t m tok = discrepancy s m tok \<and> grown (earnings_of s m tok) (earnings_of t m tok))"

lemma earns_same: "merchant_books t = merchant_books s \<Longrightarrow> earns s t"
  by (simp add: earns_def discrepancy_def merchant_books_def withdrawn_def get_merchant_token_earnings_def
      get_merchant_balance_by_token_def)

interpretation earning: clean_relation earns
proof
  show "earns s t \<Longrightarrow> earns t u \<Longrightarrow> earns s u" for s t u
    unfolding earns_def by (metis grown_trans)
qed (simp_all add: earns_same calm_def)

section \<open>Charges\<close>

lemma accrue_grown: "accrue e amt k = Ok f \<Longrightarrow> 0 \<le> amt \<Longrightarrow> grown e f"
  by (cases k) (auto simp: ok_iff grown_def)

lemma credit_earns:
  assumes "credit_merchant_balance_for_token m tok amt k s = (Ok u, t)"
  shows "earns s t"
proof -
  from assms obtain e where e: "accrue (earnings_of s m tok) amt k = Ok e"
    and get: "\<And>m' tok'. earnings_of t m' tok' = (if m' = m \<and> tok' = tok then e else earnings_of s m' tok')"
    by (auto simp: credit_merchant_balance_for_token_def Let_def ok_iff get_merchant_token_earnings_def merchant_writes)
  note c = credit_Ok [OF assms]
  have "evlog t = evlog s" using c(9) by (metis vault.select_convs(12) vault.surjective vault.update_convs(2))
  then show ?thesis
    using accrue_grown [OF e c(1)] accrue_Ok [OF e] c(3)
    by (simp add: earns_def discrepancy_def withdrawn_def get get_merchant_balance_by_token_def)
qed

lemma credit_settles: "earning.settles s (credit_merchant_balance_for_token m tok amt k s)"
proof (rule endsI)
  fix r t
  assume c: "credit_merchant_balance_for_token m tok amt k s = (r, t)"
  show "r \<noteq> Err Overflow \<longrightarrow> earns s t"
  proof (cases r)
    case (Ok u)
    with credit_earns c show ?thesis by simp
  qed (use endsD [OF credit_ends c] in \<open>auto intro: earns_same\<close>)
qed

lemma treasury_settles: "earning.settles s (credit_treasury i tok m f now tr s)"
  unfolding credit_treasury_def
  by (auto intro!: earning.settles_rules credit_settles ends_pair earns_same simp: merchant_books_def)

text \<open>Statements and snapshots are not the merchants' books.\<close>

lemma append_books: "append_statement env i amt m k a b s = (r, t) \<Longrightarrow> merchant_books t = merchant_books s"
  using endsD [OF append_frame]
  by (metis merchant_books_def vault.select_convs(2,12) vault.surjective vault.update_convs(5))

lemma snapshot_books: "write_period_snapshot x s = (r, t) \<Longrightarrow> merchant_books t = merchant_books s"
  using endsD [OF write_frame]
  by (metis merchant_books_def vault.select_convs(2,12) vault.surjective vault.update_convs(6))

lemma append_settles: "merchant_books s' = merchant_books s \<Longrightarrow> earning.settles s (append_statement env i amt m k a b s')"
  by (auto intro!: endsI earns_same dest: append_books)

lemma snapshot_settles: "earning.settles s (write_period_snapshot x s)"
  by (auto intro!: endsI earns_same dest: snapshot_books)

lemma publish_settles: "payout_of (tp, ev) = [] \<Longrightarrow> merchant_books u = merchant_books s \<Longrightarrow>
    earning.settles s (r, if k then cap_event i y now (publish tp ev u) else publish tp ev u)"
  by (intro ends_pair impI earns_same) (simp add: merchant_books_def)

lemma put_sub_books [simp]: "merchant_books (put_sub i y s) = merchant_books s"
  by (simp add: merchant_books_def)

lemma mark_charged_books [simp]: "merchant_books (mark_charged i p key s) = merchant_books s"
  by (simp add: merchant_books_def mark_charged_def Let_def split: option.split)

lemma settle_interval_earns: "earning.settles s (settle_interval env i sub now key c nb p a b n s)"
  unfolding settle_interval_def record_charge_def Let_def split_beta
  by (intro earning.settles_rules credit_settles treasury_settles append_settles snapshot_settles publish_settles) simp_all

lemma charge_period_earns:
  assumes "subs s i = Some sub"
  shows "earning.settles s (charge_period env i sub now key c s)"
proof -
  have settle: "earning.settles s (case safe_sub_balance (prepaid_balance sub) c of
        Ok new_balance \<Rightarrow> settle_interval env i sub now key c new_balance p a b n s
      | _ \<Rightarrow> charge_shortfall i sub now c s)" for p a b n
    using assms by (cases "safe_sub_balance (prepaid_balance sub) c")
      (simp_all add: settle_interval_earns earning.settles_calm charge_shortfall_calm)
  show ?thesis
    unfolding charge_period_def Let_def
    by (intro earning.settles_rules earning.settles_calm [OF cancel_at_cap_calm] settle assms)
qed

lemma charge_one_earns: "earning.settles s (charge_one env i now key s)"
  unfolding charge_one_def
  by (intro earning.settles_rules earning.settles_calm [OF expiration_guard_calm]
      earning.settles_calm [OF resolve_calm] earning.settles_calm [OF cancel_at_cap_calm] charge_period_earns)
    (auto simp: ok_iff dest: resolve_sbs)

lemma settle_usage_earns: "earning.settles s (settle_usage env i sub u reference nb pending s)"
  unfolding settle_usage_def Let_def
  by (intro earning.settles_rules credit_settles append_settles publish_settles) (simp_all add: merchant_books_def)

lemma charge_usage_one_earns: "earning.settles s (charge_usage_one env i u reference s)"
proof -
  have settle: "earning.settles t (case safe_sub_balance (prepaid_balance sub) u of
        Ok new_balance \<Rightarrow> settle_usage env i sub u reference new_balance pending t
      | _ \<Rightarrow> usage_shortfall i sub u now t)" if "subs t i = Some sub" for sub t pending now
    using that by (cases "safe_sub_balance (prepaid_balance sub) u")
      (simp_all add: settle_usage_earns earning.settles_calm usage_shortfall_calm)
  have reject: "earning.settles t (reject_usage i sub u now reference r t)" for sub now r t
    unfolding reject_usage_def by (intro earning.settles_calm calm_steps.keeps_return calm_same) simp_all
  show ?thesis
    unfolding charge_usage_one_def usage_within_limits_def Let_def
    by (intro earning.settles_rules earning.settles_calm [OF expiration_guard_calm]
        earning.settles_calm [OF cancel_at_cap_calm] earning.settles_calm [OF usage_limit_calm] reject settle)
      (auto simp: ok_iff dest: usage_limit_step_same)
qed

lemma settle_one_off_earns: "earning.settles s (settle_one_off env i sub u new s)"
  unfolding settle_one_off_def Let_def
  by (intro earning.settles_rules credit_settles append_settles ends_pair impI earns_same) (simp_all add: merchant_books_def)

lemma one_off_earns: "earning.settles s (do_charge_one_off env i m u s)"
  unfolding do_charge_one_off_def Let_def
  by (intro earning.settles_rules earning.settles_calm [OF expiration_guard_calm]
      earning.settles_calm [OF cancel_at_cap_calm] settle_one_off_earns)
    (simp_all add: get_subscription_Ok expiration_guard_Ok)

section \<open>Payouts\<close>

lemma withdraw_earns:
  assumes "withdraw_merchant_funds_for_token env m tok amt s = (Ok u, t)"
  shows "earns s t"
  using assms
  by (rule withdraw_Ok) (simp add: earns_def discrepancy_def withdrawn_def get_merchant_token_earnings_def
      get_merchant_balance_by_token_def)

lemma refund_earns:
  assumes "merchant_refund env m w tok amt s = (Ok u, t)"
  shows "earns s t"
proof -
  have "refunds (earnings_of s m tok) + amt \<le> I128_MAX"
    using assms by (auto simp: merchant_refund_def Let_def ok_iff in_i128_def get_merchant_token_earnings_def
        set_merchant_balance_def)
  with assms show ?thesis
    by (elim refund_Ok) (simp add: earns_def discrepancy_def withdrawn_def get_merchant_token_earnings_def
        get_merchant_balance_by_token_def earned_def grown_def)
qed

lemma withdraw_default_earns: "withdraw_merchant_funds env m amt s = (Ok u, t) \<Longrightarrow> earns s t"
  by (auto simp: withdraw_merchant_funds_def ok_iff intro: withdraw_earns)

lemma payouts_earn: "run_merchant env c s = (Ok (), t) \<Longrightarrow> pays_merchant c \<Longrightarrow> earns s t"
  by (cases c) (auto simp: void_Ok lib_calls elim!: earning.locked_R intro: withdraw_earns withdraw_default_earns refund_earns)

lemma compaction_earns:
  assumes "compact_billing_statements env a i k s = (Ok sm, t)"
  shows "earns s t"
proof -
  from assms obtain u where c: "compact_subscription_statements i k s = (Ok sm, u)"
    and t: "mer t = mer u" "payouts (evlog t) = payouts (evlog u)"
    by (auto simp: compact_billing_statements_def ok_iff Let_def)
  from compaction_frame [OF c] have "mer u = mer s" "evlog u = evlog s"
    by (metis vault.select_convs(2,12) vault.surjective vault.update_convs(5))+
  with t show ?thesis by (intro earns_same) (simp add: merchant_books_def)
qed

section \<open>Runs\<close>

interpretation earning: charge_relation earns
  by unfold_locales (fact charge_one_earns charge_usage_one_earns one_off_earns compaction_earns payouts_earn)+

text \<open>Earnings that reconcile, from the record a merchant starts with.\<close>

definition no_earnings :: token_earnings where
  "no_earnings = \<lparr>accruals = \<lparr>acc_interval = 0, acc_usage = 0, acc_one_off = 0\<rparr>, withdrawals = 0, refunds = 0\<rparr>"

definition earnings_ok :: "vault \<Rightarrow> bool" where
  "earnings_ok s \<longleftrightarrow> (\<forall>m tok. discrepancy s m tok = 0 \<and> grown no_earnings (earnings_of s m tok))"

lemma earns_ok: "earns s t \<Longrightarrow> earnings_ok s \<Longrightarrow> earnings_ok t"
  unfolding earns_def earnings_ok_def by (metis grown_trans)

lemma earnings_ok_new: "mer s = mer vault_init \<Longrightarrow> payouts (evlog s) = [] \<Longrightarrow> earnings_ok s"
  by (simp add: earnings_ok_def discrepancy_def vault_init_def get_merchant_token_earnings_def earned_def no_earnings_def
      get_merchant_balance_by_token_def withdrawn_def)

lemma earnings_vault_init: "earnings_ok vault_init"
  by (rule earnings_ok_new) (simp_all add: vault_init_def)

text \<open>The reported snapshot adds up as long as the accruals fit into a counter.\<close>

lemma snapshot_adds_up:
  assumes "grown no_earnings (earnings_of s m tok)" and "earned (earnings_of s m tok) \<le> I128_MAX"
    and "r \<in> set (get_reconciliation_snapshot s m)" and "recon_token r = tok"
  shows "total_accruals r = earned (earnings_of s m tok) \<and>
    computed_balance r = earned (earnings_of s m tok) - refunds (earnings_of s m tok)"
proof -
  let ?e = "earnings_of s m tok"
  let ?a = "accruals ?e"
  have e: "0 \<le> acc_interval ?a" "0 \<le> acc_usage ?a" "0 \<le> acc_one_off ?a" "withdrawals ?e = 0" "0 \<le> refunds ?e" "refunds ?e \<le> I128_MAX"
    using assms(1) I128_MAX_pos by (simp_all add: grown_def no_earnings_def)
  with assms(2) have "checked_add (acc_interval ?a) (acc_usage ?a) = Some (acc_interval ?a + acc_usage ?a)"
    "checked_add (acc_interval ?a + acc_usage ?a) (acc_one_off ?a) = Some (earned ?e)"
    "checked_sub (earned ?e) (withdrawals ?e) = Some (earned ?e)"
    "checked_sub (earned ?e) (refunds ?e) = Some (earned ?e - refunds ?e)"
    by (simp_all add: checked_Some in_i128_def I128_MIN_eq earned_def)
  then show ?thesis using assms(3,4) by (auto simp: get_reconciliation_snapshot_def Let_def)
qed

text \<open>C8. The earnings of the merchants reconcile: after any run, as long as no charge of a batch overflows a
  counter, a merchant's balance in a token is what it accrued, less its refunds, less the amounts of its
  \<open>withdrawn\<close> events, and the withdrawals in its earnings record are still zero. So as long as the accruals
  fit into a counter, the reconciliation snapshot reports them exactly, but a computed balance that exceeds
  the true one by everything the merchant withdrew.\<close>

theorem earnings_reconcile:
  assumes "reaches self batch_clean s t" and "store_ok s" and "earnings_ok s"
  shows "get_merchant_balance_by_token t m tok =
      earned (earnings_of t m tok) - refunds (earnings_of t m tok) - withdrawn t m tok
    \<and> withdrawals (earnings_of t m tok) = 0
    \<and> (\<forall>r \<in> set (get_reconciliation_snapshot t m). recon_token r = tok \<longrightarrow> earned (earnings_of t m tok) \<le> I128_MAX \<longrightarrow>
         total_accruals r = earned (earnings_of t m tok) \<and>
         computed_balance r = get_merchant_balance_by_token t m tok + withdrawn t m tok)"
proof -
  have "earnings_ok t" using earning.clean.R_reaches [OF assms(1)] assms(2,3) earns_ok by blast
  then have ok: "discrepancy t m tok = 0" "grown no_earnings (earnings_of t m tok)" by (simp_all add: earnings_ok_def)
  then show ?thesis
    using snapshot_adds_up [OF ok(2)] by (auto simp: discrepancy_def grown_def no_earnings_def)
qed

end
