(* ===== verification/Custody.thy ===== *)
theory Custody
  imports Quiet_Calls
begin

text \<open>
  Who can take money out of a subscription: a charge whose guards it passes, its own subscriber once it has
  ended, and the admin for its subscriber. No other call lowers a prepaid balance, nor does any
  sequence of them.
\<close>

section \<open>What may lower a balance\<close>

definition due :: "vault \<Rightarrow> u64 \<Rightarrow> subscription \<Rightarrow> bool" where
  "due s now x \<longleftrightarrow> \<not> get_merchant_paused s (merchant x) \<and> \<not> is_expired x now
     \<and> (status x = Active \<or> status x = GracePeriod) \<and> last_payment_timestamp x + interval_seconds x \<le> now"

definition metered :: "vault \<Rightarrow> u64 \<Rightarrow> i128 \<Rightarrow> subscription \<Rightarrow> bool" where
  "metered s now u x \<longleftrightarrow> \<not> get_merchant_paused s (merchant x) \<and> \<not> is_expired x now
     \<and> status x = Active \<and> usage_enabled x \<and> 0 < u \<and> u \<le> prepaid_balance x"

definition billable :: "u64 \<Rightarrow> address \<Rightarrow> i128 \<Rightarrow> subscription \<Rightarrow> bool" where
  "billable now m amt x \<longleftrightarrow> merchant x = m \<and> \<not> is_expired x now
     \<and> (status x = Active \<or> status x = Paused) \<and> 0 < amt \<and> amt \<le> prepaid_balance x"

definition ended :: "u64 \<Rightarrow> subscription \<Rightarrow> bool" where
  "ended now x \<longleftrightarrow> status x \<in> {Cancelled, Expired, Archived} \<or> is_expired x now"

fun charge_debits :: "env \<Rightarrow> charge_call \<Rightarrow> u32 \<Rightarrow> subscription \<Rightarrow> vault \<Rightarrow> bool" where
  "charge_debits env (Charge_Subscription i) k x s = (i = k \<and> due s (ledger_timestamp env) x)"
| "charge_debits env (Charge_Usage i u) k x s = (i = k \<and> metered s (ledger_timestamp env) u x)"
| "charge_debits env (Charge_Usage_With_Reference i u r) k x s = (i = k \<and> metered s (ledger_timestamp env) u x)"
| "charge_debits env (Charge_One_Off i m amt) k x s = (i = k \<and> authorized env m \<and> billable (ledger_timestamp env) m amt x)"
| "charge_debits env (Batch_Charge ids n) k x s = (k \<in> set ids \<and> due s (ledger_timestamp env) x
     \<and> (case admin_key (adm s) of Some a \<Rightarrow> authorized env a | None \<Rightarrow> False))"

fun debits :: "env \<Rightarrow> call \<Rightarrow> u32 \<Rightarrow> subscription \<Rightarrow> vault \<Rightarrow> bool" where
  "debits env (ChargeCall c) k x s = (\<not> get_emergency_stop s \<and> charge_debits env c k x s)"
| "debits env (SubscriptionCall (Withdraw_Subscriber_Funds i u)) k x s =
     (i = k \<and> u = subscriber x \<and> authorized env u \<and> ended (ledger_timestamp env) x)"
| "debits env (SubscriptionCall (Partial_Refund a i u amt)) k x s =
     (i = k \<and> u = subscriber x \<and> authorized env a \<and> admin_key (adm s) = Some a)"
| "debits env _ k x s = False"

section \<open>Balances that a charge cannot reach\<close>

text \<open>\<open>P\<close> is the condition under which a charge debits; a charge leaves alone what does not fulfil it, and does
  not make it fulfil it.\<close>

definition spared :: "u32 \<Rightarrow> vault \<Rightarrow> vault \<Rightarrow> bool" where
  "spared k s t \<longleftrightarrow> (\<forall>x. subs s k = Some x \<longrightarrow> (\<exists>y. subs t k = Some y \<and> prepaid_balance x \<le> prepaid_balance y))"

definition shut :: "(subscription \<Rightarrow> bool) \<Rightarrow> u32 \<Rightarrow> vault \<Rightarrow> vault \<Rightarrow> bool" where
  "shut P k s t \<longleftrightarrow> (\<forall>x. subs s k = Some x \<longrightarrow> \<not> P x \<longrightarrow>
     (\<exists>y. subs t k = Some y \<and> \<not> P y \<and> prepaid_balance x \<le> prepaid_balance y))"

interpretation spared_steps: step_relation "spared k" for k
proof
  show "spared k s t \<Longrightarrow> spared k t u \<Longrightarrow> spared k s u" for s t u
    unfolding spared_def by (meson order_trans)
qed (simp add: spared_def)

interpretation shut_steps: step_relation "shut P k" for P k
proof
  show "shut P k s t \<Longrightarrow> shut P k t u \<Longrightarrow> shut P k s u" for s t u
    unfolding shut_def by (meson order_trans)
qed (simp add: shut_def)

definition closing :: "(subscription \<Rightarrow> bool) \<Rightarrow> bool" where
  "closing P \<longleftrightarrow> (\<forall>x. \<not> P (x\<lparr>status := Expired\<rparr>) \<and> \<not> P (x\<lparr>status := Cancelled\<rparr>))"

lemma closing_conditions [simp]: "closing (due s now)" "closing (metered s now u)" "closing (billable now m amt)"
  by (simp_all add: closing_def due_def metered_def billable_def)

lemma shut_at: "subs t k = subs s k \<Longrightarrow> shut P k s t"
  by (simp add: shut_def)

lemma shut_put: "subs s i = Some x \<Longrightarrow> subs t = (subs s)(i \<mapsto> y) \<Longrightarrow> \<not> P y \<Longrightarrow> prepaid_balance x \<le> prepaid_balance y \<Longrightarrow> shut P k s t"
  by (simp add: shut_def)

text \<open>Either the charge is not for this subscription, or the condition holds.\<close>

lemma shut_otherwise:
  assumes "subs s i = Some x" and "i = k \<Longrightarrow> P x" and "i \<noteq> k \<Longrightarrow> ends (\<lambda>_ t. subs t k = subs s k) m"
  shows "shut_steps.keeps P k s m"
proof (cases "i = k")
  case True
  with assms(1,2) show ?thesis by (simp add: ends_def shut_def)
next
  case False
  from assms(3) [OF this] show ?thesis by (rule ends_mono) (rule shut_at)
qed

lemma same_subs_shut: "(\<And>r t. m = (r, t) \<Longrightarrow> subs t = subs s) \<Longrightarrow> shut_steps.keeps P k s m"
  by (auto intro!: endsI shut_at)

lemma expiration_guard_shut:
  "closing P \<Longrightarrow> subs s i = Some sub \<Longrightarrow> shut_steps.keeps P k s (expiration_guard i sub now s)"
  unfolding expiration_guard_def
  by (auto intro!: shut_steps.keeps_rules shut_steps.keeps_return elim!: shut_put simp: closing_def)

lemma cancel_at_cap_shut:
  "closing P \<Longrightarrow> subs s i = Some sub \<Longrightarrow> shut_steps.keeps P k s (cancel_at_cap i sub now s)"
  unfolding cancel_at_cap_def Let_def
  by (auto intro!: shut_steps.keeps_rules shut_steps.keeps_return elim!: shut_put simp: closing_def)

section \<open>Charges\<close>

lemma settle_interval_other: "i \<noteq> k \<Longrightarrow> ends (\<lambda>_ t. subs t k = subs s k) (settle_interval env i sub now key c nb p a b n s)"
  unfolding settle_interval_def record_charge_def Let_def split_beta
  by (intro ends_intro) (auto dest!: credit_sbs treasury_sbs append_sbs write_snapshot_sbs)

lemma charge_shortfall_other: "i \<noteq> k \<Longrightarrow> ends (\<lambda>_ t. subs t k = subs s k) (charge_shortfall i sub now c s)"
  unfolding charge_shortfall_def Let_def by (intro ends_intro) simp_all

lemma charge_period_shut:
  assumes "closing P" and sub: "subs s i = Some sub"
    and P: "i = k \<Longrightarrow> last_payment_timestamp sub + interval_seconds sub \<le> now \<Longrightarrow> P sub"
  shows "shut_steps.keeps P k s (charge_period env i sub now key c s)"
proof -
  have settle: "shut_steps.keeps P k s (case safe_sub_balance (prepaid_balance sub) c of
        Ok new_balance \<Rightarrow> settle_interval env i sub now key c new_balance p a b n s
      | _ \<Rightarrow> charge_shortfall i sub now c s)"
    if "next_charge_time (last_payment_timestamp sub) (interval_seconds sub) = Ok n" "\<not> now < n" for p a b n
  proof (rule shut_otherwise [OF sub])
    show "i = k \<Longrightarrow> P sub" using that by (intro P) (auto simp: next_charge_time_def ok_iff checked_Some)
  qed (simp add: settle_interval_other charge_shortfall_other split: result.split)
  show ?thesis
    unfolding charge_period_def Let_def
    by (intro shut_steps.keeps_rules cancel_at_cap_shut settle assms)
qed

lemma charge_one_shut:
  assumes "closing P" and "\<And>x. i = k \<Longrightarrow> due s now x \<Longrightarrow> P x"
  shows "shut_steps.keeps P k s (charge_one env i now key s)"
  unfolding charge_one_def
  by (intro shut_steps.keeps_rules expiration_guard_shut cancel_at_cap_shut charge_period_shut same_subs_shut assms)
    (auto simp: ok_iff due_def dest: resolve_sbs)

lemma due_frame: "charge_frame s t \<Longrightarrow> due t now x = due s now x"
  by (simp add: due_def charge_frame_def get_merchant_paused_def get_merchant_config_def)

lemma batch_trace_shut:
  "closing P \<Longrightarrow> (\<And>x. k \<in> set ids \<Longrightarrow> due s now x \<Longrightarrow> P x) \<Longrightarrow>
   shut P k s (last (s # map snd (batch_trace env now ids s)))"
proof (induction ids arbitrary: s)
  case (Cons i ids)
  let ?m = "charge_one env i now None s"
  have "shut P k s (snd ?m)"
    using shut_steps.keeps_result [OF charge_one_shut [of P i k s now env None]] Cons.prems by (cases ?m) auto
  moreover have "charge_frame s (snd ?m)"
    using charge_steps.keeps_result [OF charge_one_keeps [of s env i now None]] by (cases ?m) auto
  then have "shut P k (snd ?m) (last (snd ?m # map snd (batch_trace env now ids (snd ?m))))"
    using Cons.prems by (intro Cons.IH) (auto simp: due_frame)
  ultimately show ?case by (auto intro: shut_steps.R_trans)
qed (simp add: shut_steps.R_refl)

lemma settle_usage_other: "i \<noteq> k \<Longrightarrow> ends (\<lambda>_ t. subs t k = subs s k) (settle_usage env i sub u reference nb pending s)"
  unfolding settle_usage_def Let_def
  by (intro ends_intro) (auto dest!: credit_sbs append_sbs)

lemma usage_shortfall_other: "i \<noteq> k \<Longrightarrow> ends (\<lambda>_ t. subs t k = subs s k) (usage_shortfall i sub u now s)"
  unfolding usage_shortfall_def by (intro ends_intro) simp_all

lemma charge_usage_one_shut:
  assumes "closing P" and "\<And>x. i = k \<Longrightarrow> metered s (ledger_timestamp env) u x \<Longrightarrow> P x"
  shows "shut_steps.keeps P k s (charge_usage_one env i u reference s)"
proof -
  have settle: "shut_steps.keeps P k t (case safe_sub_balance (prepaid_balance sub) u of
        Ok new_balance \<Rightarrow> settle_usage env i sub u reference new_balance pending t
      | _ \<Rightarrow> usage_shortfall i sub u now t)"
    if "subs t i = Some sub" "i = k \<Longrightarrow> P sub" for t sub pending now
  proof (rule shut_otherwise [where P = P and k = k and i = i, OF that])
  qed (simp_all add: settle_usage_other usage_shortfall_other split: result.split)
  have reject: "shut_steps.keeps P k t (reject_usage i sub u now reference r t)" for sub now r t
    by (rule same_subs_shut) (simp add: reject_usage_def)
  show ?thesis
    unfolding charge_usage_one_def usage_within_limits_def Let_def
    by (intro shut_steps.keeps_rules expiration_guard_shut cancel_at_cap_shut reject settle same_subs_shut assms(1))
      (auto simp: ok_iff metered_def not_le not_less intro!: assms(2) dest: usage_limit_step_same)
qed

lemma one_off_spared:
  assumes "do_charge_one_off env i m amt s = (Ok (), t)" and "subs s k = Some x"
    and "\<not> (i = k \<and> authorized env m \<and> billable (ledger_timestamp env) m amt x)"
  shows "spared k s t"
  by (rule one_off_changes [OF assms(1)]) (use assms(2,3) in \<open>auto simp: spared_def billable_def\<close>)

section \<open>Calls\<close>

lemma shut_spared: "shut P k s t \<Longrightarrow> subs s k = Some x \<Longrightarrow> \<not> P x \<Longrightarrow> spared k s t"
  by (auto simp: shut_def spared_def)

lemma spared_same: "subs t = subs s \<Longrightarrow> spared k s t"
  by (simp add: spared_def)

lemma still_spared: "still s t \<Longrightarrow> spared k s t"
  by (simp add: still_def spared_same)

lemma charge_one_spares:
  assumes "charge_one env i now key s = (r, t)" and "subs s k = Some x" and "\<not> (i = k \<and> due s now x)"
  shows "spared k s t"
proof (rule shut_spared)
  show "shut (\<lambda>y. i = k \<and> due s now y) k s t"
    using charge_one_shut assms(1) by (rule shut_steps.keeps_result) (auto simp: closing_def due_def)
qed (use assms in auto)

lemma charge_usage_one_spares:
  assumes "charge_usage_one env i u reference s = (r, t)" and "subs s k = Some x"
    and "\<not> (i = k \<and> metered s (ledger_timestamp env) u x)"
  shows "spared k s t"
proof (rule shut_spared)
  show "shut (\<lambda>y. i = k \<and> metered s (ledger_timestamp env) u y) k s t"
    using charge_usage_one_shut assms(1) by (rule shut_steps.keeps_result) (auto simp: closing_def metered_def)
qed (use assms in auto)

lemma batch_spares:
  assumes "do_batch_charge env ids n s = (Ok rs, t)" and "subs s k = Some x"
    and "\<not> charge_debits env (Batch_Charge ids n) k x s"
  shows "spared k s t"
proof -
  from assms(1) obtain a s1 where a: "admin_key (adm s) = Some a" "authorized env a"
    and nonce: "check_and_advance env a DOMAIN_BATCH_CHARGE n s = (Ok (), s1)"
    and loop: "batch_loop env (ledger_timestamp env) ids [] s1 = (Ok rs, t)"
    by (auto simp: do_batch_charge_def require_stored_admin_auth_def require_admin_def ok_iff)
  let ?P = "\<lambda>y. k \<in> set ids \<and> due s (ledger_timestamp env) y"
  from nonce have same: "subs s1 = subs s" "due s1 = due s"
    by (auto simp: check_and_advance_Ok fun_eq_iff due_def get_merchant_paused_def get_merchant_config_def)
  have "shut ?P k s1 (last (s1 # map snd (batch_trace env (ledger_timestamp env) ids s1)))"
    by (rule batch_trace_shut) (auto simp: closing_def due_def same)
  then have "shut ?P k s1 t" using loop by (simp add: batch_loop_Ok)
  then have "spared k s1 t" using assms(2,3) a by (intro shut_spared) (auto simp: same)
  then show ?thesis by (simp add: spared_def same)
qed

lemma lock_conditions [simp]:
  "due (s\<lparr>lock_key := l\<rparr>) = due s" "metered (s\<lparr>lock_key := l\<rparr>) = metered s"
  by (simp_all add: fun_eq_iff due_def metered_def get_merchant_paused_def get_merchant_config_def)

lemma locked_spared:
  assumes "with_lock name body s = (Ok a, t)"
    and "\<And>u. body (s\<lparr>lock_key := (lock_key s)(name \<mapsto> True)\<rparr>) = (Ok a, u) \<Longrightarrow> spared k (s\<lparr>lock_key := (lock_key s)(name \<mapsto> True)\<rparr>) u"
  shows "spared k s t"
proof -
  from assms(1) obtain u where "body (s\<lparr>lock_key := (lock_key s)(name \<mapsto> True)\<rparr>) = (Ok a, u)" and "t = drop_guard name u"
    by (auto simp: with_lock_Ok)
  with assms(2) show ?thesis by (auto simp: spared_def drop_guard_def)
qed

lemma admin_calls_spare: "run_admin env c s = (Ok u, t) \<Longrightarrow> spared k s t"
proof (cases "\<exists>a i n. c = Compact_Billing_Statements a i n")
  case True
  moreover assume "run_admin env c s = (Ok u, t)"
  ultimately obtain i n cs v where "compact_subscription_statements i n s = (Ok cs, v)" and t: "subs t = subs v"
    by (auto simp: void_Ok compact_billing_statements_def ok_iff Let_def)
  from compaction_frame [OF this(1)] have "subs v = subs s"
    by (metis vault.select_convs(3) vault.surjective vault.update_convs(5))
  with t show ?thesis by (intro spared_same) simp
qed (auto intro: still_spared admin_calls_still)

lemma payouts_spare:
  "withdraw_merchant_funds_for_token env m tok amt s = (Ok u, t) \<Longrightarrow> spared k s t"
  "withdraw_merchant_funds env m amt s = (Ok u, t) \<Longrightarrow> spared k s t"
  "merchant_refund env m who tok amt s = (Ok u, t) \<Longrightarrow> spared k s t"
  using withdraw_merchant_Ok(1) merchant_refund_Ok(1)
  by (fastforce simp: withdraw_merchant_funds_def paid_out_def ok_iff intro!: spared_same)+

lemma merchant_calls_spare: "run_merchant env c s = (Ok u, t) \<Longrightarrow> spared k s t"
proof (cases "pays_merchant c")
  case True
  moreover assume "run_merchant env c s = (Ok u, t)"
  ultimately show ?thesis
    by (cases c) (auto simp: void_Ok lib_calls intro: payouts_spare elim!: locked_spared)
qed (auto intro: still_spared merchant_calls_still)

lemma charge_calls_spare:
  assumes "run_charge env c s = (Ok u, t)" and "subs s k = Some x" and "\<not> debits env (ChargeCall c) k x s"
  shows "spared k s t"
proof -
  have "\<not> get_emergency_stop s" using assms(1) charge_call_stopped [of s env c] by auto
  with assms(3) have no: "\<not> charge_debits env c k x s" by simp
  show ?thesis
  proof (cases c)
    case (Batch_Charge ids n)
    with assms(1) obtain rs where "do_batch_charge env ids n s = (Ok rs, t)"
      by (auto simp: void_Ok lib_calls unless_stopped_Ok)
    then show ?thesis using assms(2) no [unfolded Batch_Charge] by (rule batch_spares)
  qed (use assms(1,2) no in \<open>auto simp: void_Ok lib_calls unless_stopped_Ok elim!: locked_spared
      intro: charge_one_spares charge_usage_one_spares one_off_spared\<close>)
qed

lemma spared_put: "subs s i = Some x \<Longrightarrow> subs t = (subs s)(i \<mapsto> y) \<Longrightarrow> (i = k \<Longrightarrow> prepaid_balance x \<le> prepaid_balance y) \<Longrightarrow> spared k s t"
  by (simp add: spared_def)

lemma status_spared:
  "do_cancel_subscription env i a s = (Ok u, t) \<Longrightarrow> spared k s t"
  "do_pause_subscription env i a s = (Ok u, t) \<Longrightarrow> spared k s t"
  "do_resume_subscription env i a s = (Ok u, t) \<Longrightarrow> spared k s t"
  by (auto simp: cancel_Ok pause_Ok resume_Ok party_def simp del: can_transition_targets
      intro: spared_put spared_steps.R_refl split: if_splits)

lemma cleanup_spared: "do_cleanup_subscription env i a s = (Ok u, t) \<Longrightarrow> spared k s t"
  by (erule cleanup_Ok) (auto intro: spared_put spared_steps.R_refl)

lemma deposit_spared: "do_deposit_funds env i w amt s = (Ok u, t) \<Longrightarrow> spared k s t"
  by (cases u) (auto elim!: deposit_Ok spared_put)

lemma withdraw_spared:
  assumes "do_withdraw_subscriber_funds env i w s = (Ok u, t)" and "subs s k = Some x"
    and "\<not> (i = k \<and> w = subscriber x \<and> authorized env w \<and> ended (ledger_timestamp env) x)"
  shows "spared k s t"
  using assms by (cases u) (auto elim!: subscriber_withdraw_Ok simp: spared_def ended_def)

lemma partial_refund_spared:
  assumes "do_partial_refund env a i w amt s = (Ok u, t)" and "subs s k = Some x"
    and "\<not> (i = k \<and> w = subscriber x \<and> authorized env a \<and> admin_key (adm s) = Some a)"
  shows "spared k s t"
  using assms by (cases u) (auto elim!: partial_refund_Ok simp: spared_def)

lemma migrate_spared: "do_migrate_subscription_to_plan env w i p s = (Ok u, t) \<Longrightarrow> spared k s t"
  by (cases u) (auto elim!: migrate_Ok spared_put)

lemma create_spared:
  "do_create_subscription_with_token env w m tok amt iv en cap ex s = (Ok j, t) \<Longrightarrow> next_id_of s \<noteq> k \<Longrightarrow> spared k s t"
  using create_Ok(9,11) [of env w m tok amt iv en cap ex s j t] by (auto simp: spared_def)

lemma create_default_spared:
  "do_create_subscription env w m amt iv en cap ex s = (Ok j, t) \<Longrightarrow> next_id_of s \<noteq> k \<Longrightarrow> spared k s t"
  by (auto simp: do_create_subscription_def ok_iff intro: create_spared)

lemma from_plan_spared:
  "do_create_subscription_from_plan env w p s = (Ok j, t) \<Longrightarrow> next_id_of s \<noteq> k \<Longrightarrow> spared k s t"
  by (erule from_plan_Ok) (auto simp: spared_def)

lemma subscription_calls_spare:
  assumes "run_subscription env c s = (Ok u, t)" and "store_ok s" and "subs s k = Some x"
    and "\<not> debits env (SubscriptionCall c) k x s"
  shows "spared k s t"
proof -
  have "k \<in> {..< next_id_of s}" using assms(2,3) by (auto simp: store_ok_def)
  then have "next_id_of s \<noteq> k" by simp
  with assms show ?thesis
    by (cases c) (auto simp: void_Ok lib_calls unless_stopped_Ok elim!: locked_spared
        intro: create_spared create_default_spared from_plan_spared status_spared cleanup_spared deposit_spared migrate_spared withdraw_spared partial_refund_spared
          still_spared [OF metadata_still(1)] still_spared [OF metadata_still(2)] still_spared [OF plans_still(9)])
qed

section \<open>Runs\<close>

definition cannot_debit :: "u32 \<Rightarrow> env \<Rightarrow> call \<Rightarrow> vault \<Rightarrow> bool" where
  "cannot_debit k env c s = (case subs s k of Some x \<Rightarrow> \<not> debits env c k x s | None \<Rightarrow> True)"

lemma run_spares:
  assumes "run env c s = (Ok u, t)" and "store_ok s" and "cannot_debit k env c s"
  shows "spared k s t"
proof (cases "subs s k")
  case (Some x)
  with assms(3) have no: "\<not> debits env c k x s" by (simp add: cannot_debit_def)
  with assms(1,2) Some show ?thesis
    by (cases c) (auto intro: admin_calls_spare merchant_calls_spare charge_calls_spare subscription_calls_spare)
qed (simp add: spared_def)

interpretation custody: run_relation "\<lambda>s t. store_ok s \<longrightarrow> store_ok t \<and> spared k s t" self "cannot_debit k" for k self
proof
  show "store_ok s \<longrightarrow> store_ok s \<and> spared k s s" for s by (simp add: spared_steps.R_refl)
  show "(store_ok s \<longrightarrow> store_ok t \<and> spared k s t) \<Longrightarrow> (store_ok t \<longrightarrow> store_ok u \<and> spared k t u) \<Longrightarrow>
      store_ok s \<longrightarrow> store_ok u \<and> spared k s u" for s t u
    using spared_steps.R_trans by blast
  show "store_ok s \<longrightarrow> store_ok (snd (transact env c s)) \<and> spared k s (snd (transact env c s))" if "cannot_debit k env c s" for env c s
  proof (intro impI conjI)
    assume ok: "store_ok s"
    then show "store_ok (snd (transact env c s))"
      using store_grows_effect [OF transact_refines, of s env c] by (simp add: store_grows_def)
    show "spared k s (snd (transact env c s))"
    proof (cases "run env c s")
      case (Pair r t)
      with ok that run_spares [of env c s] show ?thesis
        by (cases r) (auto simp: transact_def invoke_def spared_steps.R_refl)
    qed
  qed
  show "store_ok s \<longrightarrow> store_ok (s\<lparr>tokens := l\<rparr>) \<and> spared k s (s\<lparr>tokens := l\<rparr>)" if "\<forall>tok. tokens s tok self \<le> l tok self" for s l
    using store_runs.R_outside [of s self l, OF that] by (simp add: store_grows_def spared_def)
qed

text \<open>C6. Custody of prepaid balances: over every run the prepaid balance of a subscription falls only in a
  transaction that may take from it. These are, while the contract is not stopped, an interval charge or a
  batch that is signed by the admin and names it, if it is due, unexpired, active or in grace and its merchant is
  not paused; a usage charge of a covered amount on an active metered subscription; a one-off charge of a
  covered amount signed by its merchant; and at any time a withdrawal signed by its subscriber once it has
  ended, and a refund to its subscriber signed by the admin.\<close>

theorem balance_custody:
  assumes "reaches self (cannot_debit k) s t" and "store_ok s" and "subs s k = Some x"
  shows "\<exists>y. subs t k = Some y \<and> prepaid_balance x \<le> prepaid_balance y"
  using custody.R_reaches [OF assms(1)] assms(2,3) by (simp add: spared_def)

end
