(* ===== verification/Snapshot_Laws.thy ===== *)
theory Snapshot_Laws
  imports Quiet_Calls Charge_Outcomes
begin

text \<open>
  The period snapshots follow the charged periods: a snapshot exists only for periods up to the last one
  charged. With this invariant the checks of an interval charge are complete: a subscription that is
  due and funded is charged.
\<close>

section \<open>Snapshots follow the charged periods\<close>

definition snapshots_follow :: "vault \<Rightarrow> bool" where
  "snapshots_follow s \<longleftrightarrow> (\<forall>i p. get_period_snapshot s i p \<noteq> None \<longrightarrow> (\<exists>q \<ge> p. charged_period_key (sbs s) i = Some q))"

definition follows :: "vault \<Rightarrow> vault \<Rightarrow> bool" where
  "follows s t \<longleftrightarrow> (snapshots_follow s \<longrightarrow> snapshots_follow t)"

interpretation follow_steps: step_relation follows
  by unfold_locales (simp_all add: follows_def)

lemma follows_monotone:
  assumes "snp t = snp s" and "\<forall>i p. charged_period_key (sbs s) i = Some p \<longrightarrow> (\<exists>q \<ge> p. charged_period_key (sbs t) i = Some q)"
  shows "follows s t"
  unfolding follows_def snapshots_follow_def get_period_snapshot_def assms(1)
proof (intro impI allI)
  fix i p
  assume "\<forall>i p. period_snapshot_key (snp s) (i, p) \<noteq> None \<longrightarrow> (\<exists>q \<ge> p. charged_period_key (sbs s) i = Some q)"
    and "period_snapshot_key (snp s) (i, p) \<noteq> None"
  then obtain q where "p \<le> q" "charged_period_key (sbs s) i = Some q" by blast
  with assms(2) show "\<exists>q \<ge> p. charged_period_key (sbs t) i = Some q" by (meson order_trans)
qed

text \<open>A phase that writes no snapshot and keeps to the frame of a charge.\<close>

lemma keeps_follow:
  assumes "quiet_steps.keeps s m" and "charge_steps.keeps s m"
  shows "follow_steps.keeps s m"
  using assms by (auto simp: ends_def quiet_def charge_frame_def intro: follows_monotone)

lemmas phase_follows = keeps_follow [OF credit_quiet credit_keeps] keeps_follow [OF treasury_quiet credit_treasury_keeps]
  keeps_follow [OF keeps_quiet [OF resolve_calm] resolve_keeps] keeps_follow [OF keeps_quiet [OF expiration_guard_calm] expiration_guard_keeps]
  keeps_follow [OF keeps_quiet [OF cancel_at_cap_calm] cancel_at_cap_keeps] keeps_follow [OF keeps_quiet [OF charge_shortfall_calm] charge_shortfall_keeps]

lemma append_follows: "follow_steps.keeps s (append_statement env i amt m k a b s)"
proof (rule endsI)
  fix r t
  assume app: "append_statement env i amt m k a b s = (r, t)"
  then have "snp t = snp s" using endsD [OF append_frame]
    by (metis vault.select_convs(6) vault.surjective vault.update_convs(5))
  with append_sbs [OF app] show "follows s t" by (intro follows_monotone) auto
qed

text \<open>The snapshot of a charge is written for the period that is then marked as charged.\<close>

lemma snapshot_then_mark:
  assumes w: "write_period_snapshot x s = (Ok u, t)" and x: "ps_subscription_id x = i" "ps_period_index x = p"
    and later: "\<forall>q. charged_period_key (sbs s) i = Some q \<longrightarrow> q \<le> p"
    and v: "snp v = snp t" "charged_period_key (sbs v) = (charged_period_key (sbs t))(i \<mapsto> p)"
  shows "follows s v"
  unfolding follows_def snapshots_follow_def
proof (intro impI allI)
  fix j q
  assume s: "\<forall>i p. get_period_snapshot s i p \<noteq> None \<longrightarrow> (\<exists>q \<ge> p. charged_period_key (sbs s) i = Some q)"
    and j: "get_period_snapshot v j q \<noteq> None"
  have sbs_t: "sbs t = sbs s" using write_snapshot_sbs [OF w] by simp
  show "\<exists>r \<ge> q. charged_period_key (sbs v) j = Some r"
  proof (cases "(j, q) = (i, p)")
    case True
    then show ?thesis by (simp add: v)
  next
    case False
    with write_other [OF w, of j q] x v(1) j have "get_period_snapshot s j q \<noteq> None" by (simp add: get_period_snapshot_def)
    with s obtain r where "q \<le> r" "charged_period_key (sbs s) j = Some r" by blast
    with later show ?thesis by (cases "j = i") (auto simp: v(2) sbs_t intro: order_trans)
  qed
qed

lemma record_charge_follows:
  assumes "\<forall>q. charged_period_key (sbs s) i = Some q \<longrightarrow> q \<le> p"
  shows "follow_steps.keeps s (record_charge env i sub now key c p a b n at_cap s)"
  unfolding record_charge_def Let_def
proof (rule follow_steps.keeps_try_op [OF append_follows])
  fix u t
  assume "append_statement env i c (merchant sub) Interval (n - interval_seconds sub) now s = (Ok u, t)"
  then have later: "\<forall>q. charged_period_key (sbs t) i = Some q \<longrightarrow> q \<le> p" using assms by (auto dest: append_sbs)
  let ?x = "\<lparr>ps_subscription_id = i, ps_period_index = p, ps_period_start = n - interval_seconds sub, ps_period_end = now,
      total_charged = c, ps_total_usage_units = 0,
      ps_status_flags = SNAPSHOT_FLAG_CLOSED OR SNAPSHOT_FLAG_INTERVAL_CHARGED, ps_finalized_at = now\<rparr>"
  let ?mark = "\<lambda>s2. publish ''charged'' (LifecycleEv (SubscriptionChargedEvent i (subscriber sub) (merchant sub)
      (token sub) c (lifetime_charged sub) now a b)) (mark_charged i p key s2)"
  show "follow_steps.keeps t (try_op (write_period_snapshot ?x t)
      (\<lambda>_ s2. (Ok Charged, if at_cap then cap_event i sub now (?mark s2) else ?mark s2)))"
  proof (cases "write_period_snapshot ?x t")
    case (Pair r v)
    show ?thesis
    proof (cases "is_ok r")
      case True
      then obtain u' where "r = Ok u'" by (auto simp: is_ok_iff)
      with Pair have w: "write_period_snapshot ?x t = (Ok u', v)" by simp
      have "follows t (if at_cap then cap_event i sub now (?mark v) else ?mark v)"
        by (rule snapshot_then_mark [OF w _ _ later]) simp_all
      then show ?thesis by (simp add: w ends_def)
    next
      case False
      with endsD [OF write_frame Pair] have "v = t" by simp
      with False Pair show ?thesis by (cases r) (simp_all add: ends_def follow_steps.R_refl)
    qed
  qed
qed

lemma put_sub_follows: "follows s (put_sub i x s)"
  by (rule follows_monotone) auto

lemma settle_interval_follows:
  assumes "\<forall>q. charged_period_key (sbs s) i = Some q \<longrightarrow> q \<le> p"
  shows "follow_steps.keeps s (settle_interval env i sub now key c nb p a b n s)"
proof -
  have later: "follow_steps.keeps t (record_charge env i y now key c p a b n k (put_sub i y t))"
    if "sbs t = sbs s" for t y k
    by (rule follow_steps.keeps_after [OF put_sub_follows record_charge_follows]) (use assms that in simp)
  have "sbs u = sbs s"
    if "credit_merchant_balance_for_token m tok x k s = (r, t)" "credit_treasury i tok' x f now tr t = (r', u)" for m tok x k r t tok' f tr r' u
    using credit_sbs [OF that(1)] treasury_sbs [OF that(2)] by simp
  then show ?thesis
    unfolding settle_interval_def Let_def split_beta
    by (intro follow_steps.keeps_try_op follow_steps.keeps_try_res phase_follows later)
qed

lemma charge_period_follows:
  assumes sub: "subs s i = Some sub"
  shows "follow_steps.keeps s (charge_period env i sub now key c s)"
proof -
  have settle: "follow_steps.keeps s (case safe_sub_balance (prepaid_balance sub) c of
        Ok new_balance \<Rightarrow> settle_interval env i sub now key c new_balance p a b n s
      | _ \<Rightarrow> charge_shortfall i sub now c s)"
    if "\<not> (case charged_period_key (sbs s) i of Some stored \<Rightarrow> p \<le> stored | None \<Rightarrow> False)" for p a b n
    using that sub
    by (cases "safe_sub_balance (prepaid_balance sub) c") (auto intro!: settle_interval_follows phase_follows split: option.splits)
  show ?thesis
    unfolding charge_period_def Let_def
    by (intro follow_steps.keeps_rules phase_follows settle sub)
qed

lemma charge_one_follows: "follow_steps.keeps s (charge_one env i now key s)"
  unfolding charge_one_def
  by (intro follow_steps.keeps_rules phase_follows charge_period_follows)
    (auto simp: ok_iff dest: resolve_sbs)

text \<open>The other charges write no snapshot.\<close>

interpretation snapshot_steps: step_relation "\<lambda>s t. snp t = snp s"
  by unfold_locales simp_all

lemma keeps_snapshots: "quiet_steps.keeps s m \<Longrightarrow> snapshot_steps.keeps s m"
  by (erule ends_mono) (simp add: quiet_def)

lemmas phase_snapshots = keeps_snapshots [OF credit_quiet] keeps_snapshots [OF keeps_quiet [OF expiration_guard_calm]]
  keeps_snapshots [OF keeps_quiet [OF cancel_at_cap_calm]] keeps_snapshots [OF keeps_quiet [OF usage_shortfall_calm]] keeps_snapshots [OF keeps_quiet [OF usage_limit_calm]]

lemma append_snapshots: "snapshot_steps.keeps s (append_statement env i amt m k a b s)"
  by (rule ends_mono [OF append_frame]) (metis vault.select_convs(6) vault.surjective vault.update_convs(5))

lemma settle_usage_snapshots: "snapshot_steps.keeps s (settle_usage env i sub u reference nb pending s)"
proof -
  have tail: "snapshot_steps.keeps t (try_op (append_statement env i u m Usage now now t')
      (\<lambda>_ s4. (Ok UsageCharged, if k then cap_event i y now (publish tp ev s4) else publish tp ev s4)))"
    if "snp t' = snp t" for t m t' now k y tp ev
    by (rule snapshot_steps.keeps_after [where t = t'], rule that, intro snapshot_steps.keeps_try_op append_snapshots)
      (simp add: ends_def)
  show ?thesis
    unfolding settle_usage_def Let_def
    by (rule snapshot_steps.keeps_try_op [OF phase_snapshots(1)], rule snapshot_steps.keeps_try_res, rule tail) simp
qed

lemma charge_usage_one_snapshots: "snapshot_steps.keeps s (charge_usage_one env i u reference s)"
proof -
  have settle: "snapshot_steps.keeps t (case safe_sub_balance (prepaid_balance sub) u of
        Ok new_balance \<Rightarrow> settle_usage env i sub u reference new_balance pending t
      | _ \<Rightarrow> usage_shortfall i sub u now t)" if "subs t i = Some sub" for sub t pending now
    using that by (cases "safe_sub_balance (prepaid_balance sub) u") (auto intro: settle_usage_snapshots phase_snapshots)
  have reject: "snapshot_steps.keeps t (reject_usage i sub u now reference r t)" for sub now r t
    unfolding reject_usage_def by (simp add: ends_def)
  show ?thesis
    unfolding charge_usage_one_def usage_within_limits_def Let_def
    by (intro snapshot_steps.keeps_rules phase_snapshots reject settle)
      (auto simp: ok_iff dest: usage_limit_step_same)
qed

lemma settle_one_off_snapshots: "snapshot_steps.keeps s (settle_one_off env i sub u new s)"
proof -
  have tail: "snapshot_steps.keeps t (try_op (append_statement env i u m OneOff now now t') (\<lambda>_ s3. (Ok (), publish tp ev s3)))"
    if "snp t' = snp t" for t m t' now tp ev
    by (rule snapshot_steps.keeps_after [where t = t'], rule that, intro snapshot_steps.keeps_try_op append_snapshots)
      (simp add: ends_def)
  show ?thesis
    unfolding settle_one_off_def Let_def
    by (rule snapshot_steps.keeps_try_res, rule snapshot_steps.keeps_try_op [OF phase_snapshots(1)],
        rule snapshot_steps.keeps_try_res, rule tail) simp
qed

lemma one_off_snapshots: "snapshot_steps.keeps s (do_charge_one_off env i m u s)"
  unfolding do_charge_one_off_def Let_def
  by (intro snapshot_steps.keeps_rules phase_snapshots settle_one_off_snapshots)
    (simp_all add: get_subscription_Ok expiration_guard_Ok)

lemma batch_trace_follows: "follows s (last (s # map snd (batch_trace env now ids s)))"
proof (induction ids arbitrary: s)
  case (Cons i ids)
  have "follows s (snd (charge_one env i now None s))"
    using charge_one_follows [of s env i now None] by (simp add: ends_def)
  from follow_steps.R_trans [OF this Cons.IH] show ?case by simp
qed (simp add: follow_steps.R_refl)

lemma batch_follows:
  assumes "do_batch_charge env ids n s = (Ok rs, t)"
  shows "follows s t"
proof -
  from assms obtain admin s1 where nonce: "check_and_advance env admin DOMAIN_BATCH_CHARGE n s = (Ok (), s1)"
    and loop: "batch_loop env (ledger_timestamp env) ids [] s1 = (Ok rs, t)"
    by (auto simp: do_batch_charge_def ok_iff)
  have "follows s s1" using nonce by (intro follows_monotone) (auto simp: check_and_advance_Ok)
  moreover have "follows s1 t"
    using loop batch_trace_follows [of s1] by (simp add: batch_loop_Ok)
  ultimately show ?thesis by (rule follow_steps.R_trans)
qed

section \<open>Every call\<close>

lemma locked_snapshots:
  assumes "with_lock name body s = (Ok a, t)" and "\<And>s. snapshot_steps.keeps s (body s)"
  shows "snp t = snp s"
proof -
  from assms(1) obtain s1 u where "still s s1" "body s1 = (Ok a, u)" "still u t" by (rule locked_run)
  with endsD [OF assms(2), of s1 "Ok a" u] show ?thesis by (simp add: still_def calm_def quiet_def)
qed

lemma locked_charge_follows:
  assumes "with_lock name (charge_one env i now key) s = (Ok a, t)"
  shows "follows s t"
proof -
  from assms obtain u where run: "charge_one env i now key (s\<lparr>lock_key := (lock_key s)(name \<mapsto> True)\<rparr>) = (Ok a, u)" and "t = drop_guard name u"
    by (auto simp: with_lock_Ok)
  then have "follows u t" by (intro follows_monotone) (auto simp: drop_guard_def)
  moreover have "follows s (s\<lparr>lock_key := (lock_key s)(name \<mapsto> True)\<rparr>)" by (intro follows_monotone) auto
  ultimately show ?thesis using endsD [OF charge_one_follows run] by (meson follow_steps.R_trans)
qed

lemma run_follows:
  assumes "run env c s = (Ok u, t)" and ok: "store_ok s"
  shows "follows s t"
proof -
  have "next_id_of s \<notin> dom (subs s)" using ok by (simp add: store_ok_def)
  then have new: "subs s (next_id_of s) = None" by (simp add: domIff)
  have "remembers s t" using store_grows_effect [OF run_refines [OF assms(1)]] ok by (simp add: store_grows_def)
  then have mono: "snp t = snp s \<Longrightarrow> follows s t" by (intro follows_monotone) (simp_all add: remembers_def)
  have quiet: "quiet s t \<Longrightarrow> follows s t" using mono by (simp add: quiet_def)
  show ?thesis
  proof (cases c)
    case (AdminCall d)
    show ?thesis
    proof (cases "\<exists>a i k. d = Compact_Billing_Statements a i k")
      case True
      with AdminCall assms(1) obtain a i k sm where "compact_billing_statements env a i k s = (Ok sm, t)"
        by (auto simp: void_Ok)
      then obtain u where "compact_subscription_statements i k s = (Ok sm, u)" and t: "\<exists>tp ev. t = publish tp ev u"
        by (auto simp: compact_billing_statements_def ok_iff Let_def)
      from compaction_frame [OF this(1)] have "snp u = snp s"
        by (metis vault.select_convs(6) vault.surjective vault.update_convs(5))
      with t mono show ?thesis by auto
    qed (use AdminCall assms(1) quiet in \<open>simp add: calm_quiet [OF still_calm [OF admin_calls_still]]\<close>)
  next
    case (SubscriptionCall d)
    with calm_quiet [OF subscription_calls_calm [OF _ new]] assms(1) quiet show ?thesis by simp
  next
    case (MerchantCall d)
    with merchant_calls_quiet assms(1) quiet show ?thesis by simp
  next
    case (ChargeCall d)
    with assms(1) show ?thesis
      by (cases d) (auto simp: void_Ok lib_calls unless_stopped_Ok intro: locked_charge_follows batch_follows
        mono [OF locked_snapshots [OF _ charge_usage_one_snapshots]] mono [OF locked_snapshots [OF _ one_off_snapshots]])
  qed
qed

definition stays_followed :: "vault \<Rightarrow> vault \<Rightarrow> bool" where
  "stays_followed s t \<longleftrightarrow> (store_ok s \<and> snapshots_follow s \<longrightarrow> store_ok t \<and> snapshots_follow t)"

interpretation followed_runs: run_relation stays_followed self "\<lambda>_ _ _. True" for self
proof
  show "stays_followed s s" for s by (simp add: stays_followed_def)
  show "stays_followed s t \<Longrightarrow> stays_followed t u \<Longrightarrow> stays_followed s u" for s t u
    by (simp add: stays_followed_def)
  show "stays_followed s (snd (transact env c s))" for env c s
  proof (cases "run env c s")
    case (Pair r t)
    have "store_ok s \<Longrightarrow> store_ok (snd (transact env c s))"
      using store_grows_effect [OF transact_refines, of s env c] by (simp add: store_grows_def)
    with Pair run_follows [of env c s] show ?thesis
      by (cases r) (auto simp: stays_followed_def follows_def transact_def invoke_def)
  qed
  show "stays_followed s (s\<lparr>tokens := l\<rparr>)" if "\<forall>tok. tokens s tok self \<le> l tok self" for s l
  proof -
    have "follows s (s\<lparr>tokens := l\<rparr>)" by (intro follows_monotone) auto
    with store_runs.R_outside [of s self l, OF that] show ?thesis
      by (auto simp: stays_followed_def store_grows_def follows_def)
  qed
qed

lemma snapshots_follow_init: "snapshots_follow vault_init"
  by (simp add: snapshots_follow_def get_period_snapshot_def vault_init_def)

end
