(* ===== verification/Due_Charges.thy ===== *)
theory Due_Charges
  imports Snapshot_Laws
begin

text \<open>
  The checks of an interval charge are complete: what is due, allowed and funded is charged. The only
  way left to fail is the overflow of a counter, which no check of the code can exclude.
\<close>

section \<open>A due charge\<close>

definition taken :: "charge_execution_result res \<Rightarrow> bool" where
  "taken r \<longleftrightarrow> r = Ok Charged \<or> r = Err Overflow"

lemma taken_simps [simp]: "taken (Ok r) \<longleftrightarrow> r = Charged" "taken (Err e) \<longleftrightarrow> e = Overflow" "\<not> taken Trap"
  by (simp_all add: taken_def)

lemma record_charge_taken:
  assumes "0 < c" and "n - interval_seconds sub < now" and "get_period_snapshot s i p = None"
  shows "ends (\<lambda>r t. taken r) (record_charge env i sub now key c p a b n k s)"
proof -
  have app: "ends (\<lambda>r t. (r = Ok () \<or> r = Err Overflow) \<and> snp t = snp s)
      (append_statement env i c (merchant sub) Interval (n - interval_seconds sub) now s)"
  proof (rule endsI)
    fix r t
    assume app: "append_statement env i c (merchant sub) Interval (n - interval_seconds sub) now s = (r, t)"
    show "(r = Ok () \<or> r = Err Overflow) \<and> snp t = snp s"
      using append_outcome [OF app] endsD [OF append_snapshots app] assms(1,2) by auto
  qed
  have stores: "r = Ok ()"
    if "write_period_snapshot x t = (r, v)" "snp t = snp s" "ps_subscription_id x = i" "ps_period_index x = p" for x r t v
    using assms(3) that by (simp add: write_period_snapshot_def get_period_snapshot_def Let_def)
  show ?thesis
    unfolding record_charge_def Let_def
    by (intro ends_intro) (use app in \<open>auto simp: ends_def dest: stores\<close>)
qed

lemma settle_interval_taken:
  assumes books: "finite_books s" and fee: "fee_safe s" and sub: "subs s i = Some sub" and ok: "sub_ok sub"
    and st: "status sub = Active \<or> status sub = GracePeriod"
    and c: "0 < c" "c \<le> prepaid_balance sub" and n: "n - interval_seconds sub < now" and snap: "get_period_snapshot s i p = None"
  shows "ends (\<lambda>r t. taken r) (settle_interval env i sub now key c (prepaid_balance sub - c) p a b n s)"
proof -
  let ?f = "fee_of s c"
  have bps: "get_protocol_fee_bps s \<le> 10000" and c_max: "c * 10000 \<le> I128_MAX"
    using fee sub c(2) by (fastforce simp: fee_safe_def)+
  have c0: "0 \<le> c" using c(1) by simp
  note f = fee_of_bounds [OF c0 bps]
  have range: "in_i128 (c - ?f)" "in_i128 ?f" "0 \<le> c - ?f" "in_i128 c"
    using f c c_max by (auto simp: i128_range)
  have treasury: "?f > 0 \<Longrightarrow> get_treasury s \<noteq> None" by (simp add: fee_of_def split: if_splits)
  have lifetime: "safe_add (lifetime_charged sub) c = Err Overflow \<or> safe_add (lifetime_charged sub) c = Ok (lifetime_charged sub + c)"
    using ok c0 range(4) I128_MAX_pos
    by (auto simp: safe_add_def checked_defs checked_i128_def i128_range sub_ok_def)
  let ?sub = "sub\<lparr>prepaid_balance := prepaid_balance sub - c, last_payment_timestamp := a,
                lifetime_charged := lifetime_charged sub + c\<rparr>"
  obtain y where y: "settled_status ?sub = Ok y" using settled_status_total [of ?sub] st by auto
  obtain st' where y_def: "y = ?sub\<lparr>status := st'\<rparr>" by (rule settled_status_Ok [OF y])
  obtain r1 s1 where 1: "credit_merchant_balance_for_token (merchant sub) (token sub) (c - ?f) Interval s = (r1, s1)"
    by fastforce
  obtain r2 s2 where 2: "credit_treasury i (token sub) (c - ?f) ?f now (get_treasury s) s1 = (r2, s2)"
    by fastforce
  have r1: "r1 = Err Overflow \<or> r1 = Ok ()" using credit_error [OF 1 range(3,1) books] by (auto simp: is_ok_iff)
  have r2: "r1 = Ok () \<Longrightarrow> r2 = Err Overflow \<or> r2 = Ok ()"
    using credit_treasury_outcome [OF 2 f(1) range(2) _ treasury] owed_credit [OF books] 1 by blast
  have "snp s2 = snp s"
    using endsD [OF keeps_snapshots [OF credit_quiet] 1] endsD [OF keeps_snapshots [OF treasury_quiet] 2] by simp
  then have "get_period_snapshot (put_sub i y s2) i p = None" using snap by (simp add: get_period_snapshot_def)
  then have "ends (\<lambda>r t. taken r) (record_charge env i y now key c p a b n k (put_sub i y s2))" for k
    using c(1) n by (intro record_charge_taken) (simp_all add: y_def)
  with r1 r2 lifetime show ?thesis
    unfolding settle_interval_def split_fee_exact [OF c0 c_max bps] Let_def prod.case 1
    by (auto simp: 2 y ends_def)
qed

definition due :: "vault \<Rightarrow> u32 \<Rightarrow> subscription \<Rightarrow> u64 \<Rightarrow> bool" where
  "due s i x now \<longleftrightarrow> subs s i = Some x \<and> (status x = Active \<or> status x = GracePeriod)
     \<and> \<not> is_expired x now \<and> \<not> get_merchant_paused s (merchant x)
     \<and> last_payment_timestamp x + interval_seconds x \<le> now
     \<and> (case charged_period_key (sbs s) i of Some q \<Rightarrow> q < period_of x now | None \<Rightarrow> True)"

definition affordable :: "subscription \<Rightarrow> i128 \<Rightarrow> bool" where
  "affordable x c \<longleftrightarrow> 0 < c \<and> c \<le> prepaid_balance x \<and>
     (case lifetime_cap x of Some cap \<Rightarrow> lifetime_charged x + c \<le> cap | None \<Rightarrow> True)"

lemma charge_period_taken:
  assumes books: "finite_books s" "fee_safe s" and ok: "sub_ok x" and follow: "snapshots_follow s"
    and due: "due s i x now" and c: "affordable x c"
  shows "ends (\<lambda>r t. taken r) (charge_period env i x now None c s)"
proof -
  have sub: "subs s i = Some x" "status x = Active \<or> status x = GracePeriod" using due by (auto simp: due_def)
  have interval: "interval_seconds x \<noteq> 0" using ok by (simp add: sub_ok_def)
  have snap: "get_period_snapshot s i (period_of x now) = None"
  proof (rule ccontr)
    assume "get_period_snapshot s i (period_of x now) \<noteq> None"
    with follow obtain q where "period_of x now \<le> q" "charged_period_key (sbs s) i = Some q"
      unfolding snapshots_follow_def by blast
    with due show False by (simp add: due_def)
  qed
  have "prepaid_balance x * 10000 \<le> I128_MAX" using books(2) sub(1) by (auto simp: fee_safe_def)
  then have nb: "safe_sub_balance (prepaid_balance x) c = Ok (prepaid_balance x - c)"
    using c by (auto simp: affordable_def safe_sub_balance_Ok i128_range)
  have settle: "ends (\<lambda>r t. taken r) (settle_interval env i x now None c (prepaid_balance x - c) (period_of x now) a b n s)"
    if "\<not> now < n" "n = last_payment_timestamp x + interval_seconds x" for a b n
    using that interval c by (intro settle_interval_taken books sub ok snap) (auto simp: affordable_def)
  have overflow: "ok_or z Overflow = Err e \<Longrightarrow> e = Overflow" "ok_or z Overflow \<noteq> Trap" for z :: "u64 option" and e
    by (auto simp: ok_or_def split: option.splits)
  have cap: "(case lifetime_cap x of
        Some cap \<Rightarrow> bind_res (if lifetime_charged x \<ge> cap then Ok 0 else safe_sub cap (lifetime_charged x))
          (\<lambda>remaining. Ok (remaining = 0 \<or> c > remaining))
      | None \<Rightarrow> Ok False) \<in> {Ok False, Err Overflow}"
    using c ok by (auto simp: affordable_def sub_ok_def safe_sub_def checked_defs checked_i128_def split: option.splits)
  show ?thesis
    using due interval nb cap unfolding charge_period_def Let_def period_of_def [symmetric] next_charge_time_def
    by (intro ends_intro) (auto simp: due_def ok_or_Ok checked_Some overflow settle split: option.splits)
qed

text \<open>What the checks read is untouched by taking the lock and by publishing the price.\<close>

lemma fst_try_res: "fst (try_res r s k) = (case r of Ok a \<Rightarrow> fst (k a) | Err e \<Rightarrow> Err e | Trap \<Rightarrow> Trap)"
  by (cases r) simp_all

lemma resolve_lock: "fst (resolve_charge_amount env i x (s\<lparr>lock_key := l\<rparr>)) = fst (resolve_charge_amount env i x s)"
  by (simp add: resolve_charge_amount_def get_oracle_config_def get_token_decimals_def fst_try_res Let_def
      split: option.split result.split)

lemma unread_fields [simp]:
  "snapshots_follow (s\<lparr>lock_key := l, evlog := e\<rparr>) = snapshots_follow s"
  "due (s\<lparr>lock_key := l, evlog := e\<rparr>) i x now = due s i x now"
  "finite_books (s\<lparr>lock_key := l, evlog := e\<rparr>) = finite_books s"
  "fee_safe (s\<lparr>lock_key := l, evlog := e\<rparr>) = fee_safe s"
  by (simp_all add: snapshots_follow_def get_period_snapshot_def due_def get_merchant_paused_def get_merchant_config_def
      finite_books_def fee_safe_def get_protocol_fee_bps_def)

text \<open>A charge that is due goes past its guards to the checks of the billing period.\<close>

lemma due_charge_one:
  assumes "due s i x now" and "affordable x c" and r: "fst (resolve_charge_amount env i x s) = Ok c"
    and books: "finite_books s" "fee_safe s" and "sub_ok x" and "snapshots_follow s"
  shows "ends (\<lambda>r t. taken r) (charge_one env i now None (s\<lparr>lock_key := l\<rparr>))"
proof -
  obtain s1 where r1: "resolve_charge_amount env i x (s\<lparr>lock_key := l\<rparr>) = (Ok c, s1)"
    using r resolve_lock [where s = s and l = l] by (metis prod.collapse)
  obtain e where s1: "s1 = s\<lparr>lock_key := l, evlog := e\<rparr>" using endsD [OF resolve_frame r1] by metis
  have period: "ends (\<lambda>r t. taken r) (charge_period env i x now None c s1)"
    unfolding s1 using assms by (intro charge_period_taken) simp_all
  have "\<not> cap_exhausted x" using assms(2) by (auto simp: cap_exhausted_def affordable_def split: option.splits)
  moreover have "get_merchant_paused (s\<lparr>lock_key := l\<rparr>) = get_merchant_paused s"
    by (simp add: fun_eq_iff get_merchant_paused_def get_merchant_config_def)
  ultimately have "charge_one env i now None (s\<lparr>lock_key := l\<rparr>) = charge_period env i x now None c s1"
    using assms(1) r1 by (auto simp: charge_one_def get_subscription_def expiration_guard_def due_def)
  with period show ?thesis by simp
qed

text \<open>C10. A due charge is taken. After any run that starts solvent and with no lock held, while the emergency
  stop is off and the vault holds less of each token than the bound of \<open>i128\<close> divided by 10000, the call
  that charges a subscription succeeds, or a counter overflows, provided that the subscription is active
  or in grace, has not expired, its interval has elapsed, its period has not been charged, its merchant is not paused,
  its amount resolves (to the amount itself, or through the oracle when one is enabled, which must then
  answer with a fresh price), and its balance and lifetime cap cover that amount. The stop, a pause, a
  missing price and a missing balance are the refusals that remain.\<close>

theorem due_charge_is_taken:
  assumes "reaches self (trusted self) s t" and "solvent self s" and "snapshots_follow s" and "lock_key s = Map.empty"
    and "\<forall>tok. tokens t tok self * 10000 \<le> I128_MAX" and "\<not> get_emergency_stop t"
    and "due t i x (ledger_timestamp env)" and "fst (resolve_charge_amount env i x t) = Ok c" and "affordable x c"
  shows "taken (fst (lib_charge_subscription env i t))"
proof -
  have t: "solvent self t" using solvent_runs.R_reaches [OF assms(1)] assms(2) by (simp add: stays_solvent_def)
  from solvent_funded [OF t assms(5)] have books: "finite_books t" "fee_safe t"
    using funded_fee_safe [of t] by (auto simp: funded_def)
  have any: "reaches self (\<lambda>_ _ _. True) s t" using assms(1) by (induction rule: reaches.induct) (auto intro: reaches.intros)
  have follow: "snapshots_follow t"
    using followed_runs.R_reaches [OF any] assms(2,3) by (auto simp: stays_followed_def solvent_def)
  have lock: "lock_key t = Map.empty" using lock_runs.R_reaches [OF any] assms(4) by simp
  have "sub_ok x" using t assms(7) by (auto simp: solvent_def store_ok_def due_def)
  from due_charge_one [OF assms(7,9,8) books this follow]
  have "taken (fst (charge_one env i (ledger_timestamp env) None (t\<lparr>lock_key := [''charge_subscription'' \<mapsto> True]\<rparr>)))"
    by (simp add: ends_def split_beta)
  then show ?thesis
    using lock assms(6)
    by (auto simp: lib_charge_subscription_def unless_stopped_def require_not_emergency_stop_def with_lock_def lock_def ends_def
        split: result.splits prod.splits)
qed

end
