(* ===== verification/Vault_Runs.thy ===== *)
theory Vault_Runs
  imports Usage_Books Reconciliation Earnings Custody Due_Charges
begin

text \<open>
  Concrete runs of the operations on the concrete vault \<open>demo_subs\<close>. Each shows that the hypotheses of
  the property it belongs to can be met, and reads a result off the property.
\<close>

lemma ok_result: "fst m = Ok a \<Longrightarrow> m = (Ok a, snd m)"
  by (cases m) simp

lemma standard_env: "sep41 (token_transfer demo_env)"
  by (simp add: standard_transfer_sep41)

lemmas i128_evaluation = checked_defs checked_i128_def in_i128_def I128_MIN_def I128_MAX_def
lemmas guard_evaluation = require_auth_def get_subscription_def require_not_blocklisted_def is_blocklisted_def
  get_min_topup_def demo_vault_adm vault_init_def get_merchant_paused_def get_merchant_config_def
  expiration_guard_def is_expired_def is_token_accepted_def validate_non_negative_def get_subscriber_credit_limit_def
  enforce_credit_limit_for_delta_def validate_status_transition_def next_id_of_def cap_exhausted_def
lemmas money_evaluation = transfer_def standard_transfer_def moved_def add_total_accounted_def sub_total_accounted_def
  get_total_accounted_def safe_add_balance_def safe_add_def safe_sub_def i128_evaluation

section \<open>Money in and out\<close>

lemma demo_deposit: "fst (do_deposit_funds demo_env 0 (Address 3) 10 demo_subs) = Ok ()"
  by (simp add: do_deposit_funds_def guard_evaluation money_evaluation enforce_deposit_cap_def saturating_sub_def clamp_i128_def demo_sub_def Let_def)


lemma demo_cancelled_books:
  "finite_books (put_sub 0 (demo_sub\<lparr>status := Cancelled\<rparr>) demo_subs)"
  using demo_subs_books(1) by (simp add: finite_books_def)

theorem withdraw_pays_prepaid_once_witness:
  "let s = put_sub 0 (demo_sub\<lparr>status := Cancelled\<rparr>) demo_subs;
       t = snd (do_withdraw_subscriber_funds demo_env 0 (Address 3) s)
   in tokens t (Address 9) (Address 3) = 1025
      \<and> fst (do_withdraw_subscriber_funds demo_env 0 (Address 3) t) = Err InvalidAmount"
proof -
  let ?s = "put_sub 0 (demo_sub\<lparr>status := Cancelled\<rparr>) demo_subs"
  have "fst (do_withdraw_subscriber_funds demo_env 0 (Address 3) ?s) = Ok ()"
    by (simp add: do_withdraw_subscriber_funds_def guard_evaluation money_evaluation demo_sub_def Let_def)
  from withdraw_pays_prepaid_once [OF ok_result [OF this] standard_env demo_cancelled_books]
  show ?thesis by (auto simp: Let_def demo_sub_def moved_def)
qed

theorem one_off_effect_witness:
  "let t = snd (do_charge_one_off demo_env 0 (Address 4) 10 demo_subs)
   in map_option prepaid_balance (subs t 0) = Some 15
      \<and> get_merchant_balance_by_token t (Address 4) (Address 9) = 10 \<and> owed t = owed demo_subs"
proof -
  have "fst (do_charge_one_off demo_env 0 (Address 4) 10 demo_subs) = Ok ()"
    by (simp add: do_charge_one_off_def settle_one_off_def require_auth_def charge_evaluation Let_def)
  from one_off_effect [OF ok_result [OF this] demo_subs_books(1)]
  show ?thesis by (auto simp: Let_def demo_sub_def get_merchant_balance_by_token_def vault_init_def)
qed

definition demo_earned :: vault where
  "demo_earned = demo_subs\<lparr>mer := (mer demo_subs)\<lparr>merchant_balance_key := [(Address 4, Address 9) \<mapsto> 20]\<rparr>\<rparr>"

theorem merchant_payouts_witness:
  "let t = snd (withdraw_merchant_funds_for_token demo_env (Address 4) (Address 9) 5 demo_earned)
   in get_merchant_balance_by_token t (Address 4) (Address 9) = 15 \<and> tokens t (Address 9) (Address 4) = 1005"
proof -
  have books: "finite_books demo_earned"
    using demo_subs_books(1) by (auto simp: finite_books_def demo_earned_def split: if_splits)
  have "fst (withdraw_merchant_funds_for_token demo_env (Address 4) (Address 9) 5 demo_earned) = Ok ()"
    by (simp add: withdraw_merchant_funds_for_token_def demo_earned_def guard_evaluation money_evaluation
        get_merchant_balance_by_token_def merchant_writes Let_def)
  note run = ok_result [OF this]
  from conjunct1 [OF merchant_payouts [OF standard_env books], rule_format, OF run]
  show ?thesis by (simp add: Let_def moved_def demo_earned_def get_merchant_balance_by_token_def)
qed

section \<open>Creation, status and limits\<close>

lemmas create_evaluation = do_create_subscription_with_token_def guard_evaluation validate_interval_def
  MIN_SUBSCRIPTION_INTERVAL_SECONDS_def MAX_SUBSCRIPTION_INTERVAL_SECONDS_def resolve_cap_def get_merchant_cap_default_def
  get_global_cap_default_def MAX_SUBSCRIPTION_ID_def U32_MAX_def checked_add_u32_def Let_def

theorem create_effect_witness:
  "let t = snd (do_create_subscription_with_token demo_env (Address 3) (Address 4) (Address 9) 10 100 True None None demo_subs)
   in next_id_of t = 3 \<and> merchant_index t (Address 4) = [0, 1, 2]"
proof -
  let ?t = "snd (do_create_subscription_with_token demo_env (Address 3) (Address 4) (Address 9) 10 100 True None None demo_subs)"
  have "fst (do_create_subscription_with_token demo_env (Address 3) (Address 4) (Address 9) 10 100 True None None demo_subs) = Ok 2"
    by (simp add: create_evaluation)
  from conjunct1 [OF create_effect, rule_format, OF ok_result [OF this]]
  obtain x where "newly_made demo_env (Address 3) (Address 4) (Address 9) 10 100 True None None x" "registered demo_subs 2 x ?t"
    by (auto simp: cap_in_force_def get_merchant_cap_default_def get_global_cap_default_def vault_init_def)
  then show ?thesis unfolding Let_def by (auto simp: registered_def newly_made_def merchant_index_def vault_init_def)
qed

theorem party_operations_witness:
  "fst (do_pause_subscription demo_env 0 (Address 4) demo_subs) = Ok ()
   \<and> map_option status (subs (snd (do_pause_subscription demo_env 0 (Address 4) demo_subs)) 0) = Some Paused"
proof -
  have "party demo_env 0 (Address 4) demo_subs demo_sub \<and> status demo_sub \<in> {Active, Paused}"
    by (simp add: party_def demo_sub_def is_expired_def)
  with party_operations [of demo_env 0 "Address 4" demo_subs]
  obtain t where t: "do_pause_subscription demo_env 0 (Address 4) demo_subs = (Ok (), t)" by blast
  with party_operations [of demo_env 0 "Address 4" demo_subs] have "set_status_only 0 Paused demo_subs t" by blast
  with t show ?thesis by (auto simp: set_status_only_def)
qed

theorem credit_limit_enforced_witness:
  "let s = demo_subs\<lparr>sbs := (sbs demo_subs)\<lparr>credit_limit_key := [(Address 3, Address 9) \<mapsto> 100]\<rparr>\<rparr>;
       t = snd (do_create_subscription_with_token demo_env (Address 3) (Address 4) (Address 9) 10 100 True None None s)
   in exposure t (Address 3) (Address 9) \<le> 100"
proof -
  let ?s = "demo_subs\<lparr>sbs := (sbs demo_subs)\<lparr>credit_limit_key := [(Address 3, Address 9) \<mapsto> 100]\<rparr>\<rparr>"
  have limit: "get_subscriber_credit_limit ?s (Address 3) (Address 9) = 100"
    by (simp add: get_subscriber_credit_limit_def)
  have "fst (do_create_subscription_with_token demo_env (Address 3) (Address 4) (Address 9) 10 100 True None None ?s) = Ok 2"
    by (simp add: create_evaluation compute_subscriber_exposure_def MAX_WRITE_PATH_SCAN_DEPTH_def upt_rec demo_sub_def
        safe_add_def i128_evaluation)
  from conjunct1 [OF credit_limit_enforced [OF limit], rule_format, OF _ ok_result [OF this]] show ?thesis
    unfolding Let_def by simp
qed

section \<open>Plans\<close>

definition demo_plan :: plan_template where
  "demo_plan = \<lparr>plan_merchant = Address 4, plan_token = Address 9, plan_amount = 10, plan_interval_seconds = 100,
     plan_usage_enabled = True, plan_lifetime_cap = None, template_key = 0, version = 1, is_disabled = False\<rparr>"

text \<open>One plan with room for two subscriptions of the same subscriber.\<close>

definition demo_plans :: vault where
  "demo_plans = demo_subs\<lparr>pln := (pln demo_subs)\<lparr>next_plan_id_key := Some 1, plan_key := [0 \<mapsto> demo_plan],
     sub_plan_key := [0 \<mapsto> 0], plan_max_active_key := [0 \<mapsto> 2]\<rparr>\<rparr>"

lemma demo_plans_fields [simp]:
  "adm demo_plans = adm demo_vault" "sbs demo_plans = sbs demo_subs" "mer demo_plans = mer vault_init"
  "pln demo_plans = (pln vault_init)\<lparr>next_plan_id_key := Some 1, plan_key := [0 \<mapsto> demo_plan],
     sub_plan_key := [0 \<mapsto> 0], plan_max_active_key := [0 \<mapsto> 2]\<rparr>"
  "blocklist_key demo_plans = Map.empty"
  by (simp_all add: demo_plans_def)

theorem plan_limit_enforced_witness:
  "let t = snd (do_create_subscription_from_plan demo_env (Address 3) 0 demo_plans)
   in length (active_on_plan t (Address 3) 0) \<le> 2"
proof -
  have "fst (do_create_subscription_from_plan demo_env (Address 3) 0 demo_plans) = Ok 2"
    by (simp add: do_create_subscription_from_plan_def create_evaluation get_plan_template_def demo_plan_def
        enforce_plan_concurrency_limit_def get_plan_max_active_def count_active_subscriptions_for_plan_def
        MAX_WRITE_PATH_SCAN_DEPTH_def upt_rec demo_sub_def saturating_add_u32_def)
  from plan_limit_enforced [OF ok_result [OF this]] show ?thesis
    by (simp add: get_plan_max_active_def)
qed

theorem plan_versions_witness:
  "let t = snd (do_update_plan_template demo_env (Address 4) 0 12 100 True None demo_plans)
   in map_option version (plan_key (pln t) 1) = Some 2 \<and> plan_key (pln t) 0 = Some demo_plan"
proof -
  have "fst (do_update_plan_template demo_env (Address 4) 0 12 100 True None demo_plans) = Ok 1"
    by (simp add: do_update_plan_template_def get_plan_template_def demo_plan_def guard_evaluation validate_interval_def
        MIN_SUBSCRIPTION_INTERVAL_SECONDS_def MAX_SUBSCRIPTION_INTERVAL_SECONDS_def next_plan_id_def
        checked_add_u32_def U32_MAX_def Let_def)
  from conjunct1 [OF plan_versions, rule_format, OF ok_result [OF this]] show ?thesis
    by (auto simp: Let_def demo_plan_def)
qed

theorem disable_and_cap_update_have_no_effect_witness:
  "get_plan_template (snd (do_disable_plan_template demo_env (Address 4) 0 demo_plans)) 0 = Ok demo_plan
   \<and> fst (do_disable_plan_template demo_env (Address 4) 0 demo_plans) = Ok ()"
proof -
  have ok: "fst (do_disable_plan_template demo_env (Address 4) 0 demo_plans) = Ok ()"
    by (simp add: do_disable_plan_template_def get_plan_template_def demo_plan_def guard_evaluation Let_def)
  with conjunct1 [OF disable_and_cap_update_have_no_effect, rule_format, OF ok_result [OF ok]] show ?thesis
    by (simp add: get_plan_template_def)
qed

section \<open>Configuration and usage limits\<close>

theorem merchant_configs_stay_valid_witness:
  "let t = snd (initialize_merchant_config demo_env (Address 4) (Address 6) 250 OP_CHARGE None ''u'' demo_subs)
   in configs_ok t \<and> map_option fee_bips (get_merchant_config t (Address 4)) = Some 250"
proof -
  let ?run = "initialize_merchant_config demo_env (Address 4) (Address 6) 250 OP_CHARGE None ''u'' demo_subs"
  have ok: "configs_ok demo_subs"
    by (simp add: configs_ok_def get_merchant_config_def vault_init_def)
  have "\<exists>c. fst ?run = Ok c \<and> fee_bips c = 250"
    by (simp add: initialize_merchant_config_def guard_evaluation validate_merchant_config_input_def MAX_FEE_BIPS_def
        is_valid_allowed_operations_def OP_CHARGE_def OP_WITHDRAW_def OP_REFUND_def OP_BILLING_PAUSE_def
        OP_AUTO_RENEWAL_def Let_def)
  then obtain c where c: "fst ?run = Ok c" "fee_bips c = 250" by blast
  from conjunct1 [OF merchant_configs_stay_valid [OF ok], rule_format, OF ok_result [OF c(1)]] c(2) show ?thesis
    by (simp add: Let_def)
qed

definition demo_limits :: usage_limits where
  "demo_limits = \<lparr>rate_limit_max_calls = Some 2, rate_window_secs = 60, burst_min_interval_secs = 5, usage_cap_units = Some 30\<rparr>"

text \<open>One call is counted already; the window ends at 1050.\<close>

definition demo_metered :: vault where
  "demo_metered = demo_subs\<lparr>sbs := (sbs demo_subs)\<lparr>usage_limits_key := [0 \<mapsto> demo_limits],
     usage_state_key := [0 \<mapsto> \<lparr>last_usage_timestamp = 990, window_start_timestamp = 990, window_call_count = 1,
       current_period_usage_units = 10, period_index = 10\<rparr>]\<rparr>\<rparr>"

theorem usage_limits_enforced_witness:
  "(\<exists>t. usage_limit_step 0 demo_sub 1000 7 demo_metered = (Ok None, t))
   \<and> usage_limit_step 0 demo_sub 993 7 demo_metered = (Ok (Some UsageBurstLimitExceeded), demo_metered)
   \<and> usage_limit_step 0 demo_sub 1000 21 demo_metered = (Ok (Some UsageUsageCapExceeded), demo_metered)
   \<and> usage_run 0 demo_sub [(1000, 7), (1010, 7)] demo_metered = None"
proof -
  note demo = demo_metered_def demo_limits_def usage_state_of_def burst_ok_def rate_ok_def units_ok_def calls_so_far_def
    units_so_far_def window_over_def period_of_def demo_sub_def saturating_add_u64_def saturating_add_def i128_evaluation
    clamp_i128_def U64_MAX_def
  have lim: "usage_limits_key (sbs demo_metered) 0 = Some demo_limits" and iv: "interval_seconds demo_sub \<noteq> 0"
    by (simp_all add: demo_metered_def demo_sub_def)
  note step = conjunct1 [OF usage_limits_enforced [OF lim iv]] and runs = conjunct2 [OF usage_limits_enforced [OF lim iv]]
  have "usage_run 0 demo_sub [(1000, 7), (1010, 7)] demo_metered = None"
  proof (rule ccontr)
    assume "usage_run 0 demo_sub [(1000, 7), (1010, 7)] demo_metered \<noteq> None"
    then obtain t where "usage_run 0 demo_sub [(1000, 7), (1010, 7)] demo_metered = Some t" by blast
    with runs have "(1::nat) + 2 \<le> 2"
      by (fastforce simp: demo_metered_def demo_limits_def saturating_add_u64_def U64_MAX_def U32_MAX_def)
    then show False by simp
  qed
  then show ?thesis
    using step [of 1000 7] step [of 993 7] step [of 1000 21] by (auto simp: demo)
qed

section \<open>The invariants on a run\<close>

text \<open>A client other than the vault itself deposits into the vault of the examples.\<close>

definition client_env :: env where
  "client_env = demo_env\<lparr>authorized := (\<lambda>a. a \<noteq> Address 0)\<rparr>"

definition demo_call :: call where
  "demo_call = SubscriptionCall (Deposit_Funds 0 (Address 3) 10)"

lemma demo_run: "\<exists>t. transact client_env demo_call demo_subs = (Ok (), t) \<and>
    map_option (\<lambda>x. (prepaid_balance x, token x)) (subs t 0) = Some (35, Address 9)"
  by (simp add: transact_def demo_call_def client_env_def lib_deposit_funds_def unless_stopped_def
      require_not_emergency_stop_def get_emergency_stop_def with_lock_def lock_def do_deposit_funds_def guard_evaluation
      money_evaluation enforce_deposit_cap_def saturating_sub_def clamp_i128_def demo_sub_def
      recover_after_deposit_def invoke_def Let_def)

lemma demo_store: "store_ok demo_subs"
  by (auto simp: store_ok_def terms_ok_def sub_ok_def demo_sub_def vault_init_def next_id_of_def U32_MAX_def index_of_def
      merchant_index_def token_index_def upt_rec split: if_splits)

lemma demo_owed: "owed demo_subs tok = (if tok = Address 9 then 25 else 0)"
  by (simp add: owed_def msum_upd weight_def demo_sub_def vault_init_def)

lemma demo_solvent: "solvent (Address 0) demo_subs"
  using demo_store demo_subs_books by (auto simp: solvent_def fee_safe_def demo_owed get_total_accounted_def I128_MAX_def)

lemma demo_trusted: "trusted (Address 0) client_env demo_call demo_subs"
  by (simp add: trusted_def client_env_def demo_call_def standard_transfer_sep41 I128_MAX_def demo_subs_def)

theorem vault_stays_solvent_witness:
  "let t = snd (transact client_env demo_call demo_subs)
   in map_option prepaid_balance (subs t 0) = Some 35 \<and> 35 \<le> tokens t (Address 9) (Address 0)"
proof -
  have "reaches (Address 0) (trusted (Address 0)) demo_subs (snd (transact client_env demo_call demo_subs))"
    by (rule reaches.call) (rule reaches.here, rule demo_trusted)
  from vault_stays_solvent [OF this demo_solvent] demo_run show ?thesis by (fastforce simp: Let_def)
qed

theorem store_stays_well_formed_witness:
  "store_ok (snd (transact client_env demo_call demo_subs))"
proof -
  have "reaches (Address 0) (\<lambda>_ _ _. True) demo_subs (snd (transact client_env demo_call demo_subs))"
    by (rule reaches.call) (rule reaches.here, simp)
  from store_stays_well_formed [OF this demo_store] show ?thesis by simp
qed

text \<open>The subscriber of a subscription that has not ended cannot lower its balance: the withdrawal is rolled back,
  and the deposit after it adds.\<close>

definition demo_exit :: call where
  "demo_exit = SubscriptionCall (Withdraw_Subscriber_Funds 0 (Address 3))"

theorem balance_custody_witness:
  "let t = snd (transact client_env demo_call (snd (transact client_env demo_exit demo_subs)))
   in 25 \<le> (case subs t 0 of Some y \<Rightarrow> prepaid_balance y | None \<Rightarrow> 0)"
proof -
  have "cannot_debit 0 client_env demo_call s" for s
    by (simp add: cannot_debit_def demo_call_def split: option.split)
  moreover have "cannot_debit 0 client_env demo_exit demo_subs"
    by (simp add: cannot_debit_def demo_exit_def ended_def is_expired_def demo_sub_def)
  ultimately have "reaches (Address 0) (cannot_debit 0) demo_subs
      (snd (transact client_env demo_call (snd (transact client_env demo_exit demo_subs))))"
    by (intro reaches.intros)
  from balance_custody [OF this demo_store, of demo_sub] show ?thesis by (auto simp: Let_def demo_sub_def)
qed

text \<open>The subscription of the examples after its cancellation.\<close>

definition demo_ended :: vault where
  "demo_ended = put_sub 0 (demo_sub\<lparr>status := Cancelled\<rparr>) demo_subs"

lemma demo_ended_solvent: "solvent (Address 0) demo_ended"
proof -
  have "owed demo_ended tok = (if tok = Address 9 then 25 else 0)" for tok
    by (simp add: demo_ended_def owed_def msum_upd weight_def demo_sub_def vault_init_def)
  moreover have "store_ok demo_ended"
    by (auto simp: demo_ended_def store_ok_def terms_ok_def sub_ok_def demo_sub_def vault_init_def next_id_of_def
        U32_MAX_def index_of_def merchant_index_def token_index_def upt_rec split: if_splits)
  ultimately show ?thesis
    using demo_cancelled_books demo_subs_books(2)
    by (simp add: solvent_def demo_ended_def fee_safe_def get_protocol_fee_bps_def get_total_accounted_def I128_MAX_def)
qed

text \<open>Deposits do not ask for the status: a subscription that was cancelled still takes one.\<close>

lemma cancelled_takes_deposit: "fst (do_deposit_funds demo_env 0 (Address 3) 10 demo_ended) = Ok ()"
  by (simp add: demo_ended_def do_deposit_funds_def guard_evaluation money_evaluation enforce_deposit_cap_def
      saturating_sub_def clamp_i128_def demo_sub_def Let_def)

theorem owners_can_leave_witness:
  "\<exists>u. transact demo_env (SubscriptionCall (Withdraw_Subscriber_Funds 0 (Address 3))) demo_ended = (Ok (), u) \<and>
     tokens u (Address 9) (Address 3) = 1025"
proof -
  have "accepts_transfers demo_env" by (simp add: accepts_transfers_def standard_transfer_def)
  moreover have "lock_key demo_ended = Map.empty" by (simp add: demo_ended_def)
  ultimately show ?thesis
    using owners_can_leave [OF reaches.here demo_ended_solvent, of demo_env]
    by (fastforce simp: demo_ended_def demo_sub_def moved_def)
qed

section \<open>Charges and their books on a run\<close>

lemma demo_statement_side:
  "snext_key (stm demo_subs) = Map.empty" "slive_key (stm demo_subs) = Map.empty" "sagg_key (stm demo_subs) = Map.empty"
  by (simp_all add: vault_init_def)

lemma demo_reconciled: "reconciled demo_subs"
proof -
  have "statements_ok demo_subs i" for i using statements_ok_init [of i] statements_ok_cong [of demo_subs vault_init i] by simp
  then show ?thesis
    by (simp add: reconciled_def reconciles_def booked_def live_rows_def lifetime_of_def get_compacted_aggregate_def
        get_total_statements_def empty_aggregate_def amounts_def demo_statement_side demo_sub_def del: demo_subs_fields(4))
qed

lemma demo_interval_charge:
  "fst (lib_charge_subscription demo_env 0 demo_subs) = Ok Charged"
  "map_option lifetime_charged (subs (snd (lib_charge_subscription demo_env 0 demo_subs)) 0) = Some 10"
  by (simp_all add: lib_charge_subscription_def unless_stopped_def require_not_emergency_stop_def get_emergency_stop_def
      with_lock_def lock_def charge_evaluation Let_def)

theorem statements_reconcile_witness:
  "let t = snd (transact demo_env (ChargeCall (Charge_Subscription 0)) demo_subs)
   in total_amount (get_compacted_aggregate t 0) + amounts (live_rows t 0) = 10"
proof -
  let ?c = "ChargeCall (Charge_Subscription 0)"
  have "reaches (Address 0) batch_clean demo_subs (snd (transact demo_env ?c demo_subs))"
    by (rule reaches.call) (rule reaches.here, simp)
  note books = statements_reconcile [OF this demo_store demo_reconciled, of 0]
  have "snd (transact demo_env ?c demo_subs) = snd (lib_charge_subscription demo_env 0 demo_subs)"
    using demo_interval_charge(1) by (cases "lib_charge_subscription demo_env 0 demo_subs") (simp add: transact_def invoke_def)
  with books demo_interval_charge(2) show ?thesis by (auto simp: Let_def)
qed

text \<open>A charge of 10 to a subscription of a merchant, who then withdraws 5.\<close>

definition demo_sold :: vault where
  "demo_sold = snd (transact demo_env (ChargeCall (Charge_One_Off 0 (Address 4) 10)) demo_subs)"

definition demo_paid :: vault where
  "demo_paid = snd (transact demo_env (MerchantCall (Withdraw_Merchant_Token_Funds (Address 4) (Address 9) 5)) demo_sold)"

lemma demo_events [simp]: "payouts (evlog demo_subs) = []"
  by (simp add: demo_subs_def demo_vault_def do_init_def vault_init_def Let_def)

lemma demo_sold_books:
  "merchant_balances demo_sold = [(Address 4, Address 9) \<mapsto> 10]"
  "earned (get_merchant_token_earnings demo_sold (Address 4) (Address 9)) = 10"
  "refunds (get_merchant_token_earnings demo_sold (Address 4) (Address 9)) = 0"
  "merchant_tokens_key (mer demo_sold) (Address 4) = Some [Address 9]"
  "payouts (evlog demo_sold) = []" "lock_key demo_sold = Map.empty" "tokens demo_sold (Address 9) (Address 0) = 25"
  "total_accounted_key demo_sold = [Address 9 \<mapsto> 25]" "is_token_accepted demo_sold (Address 9)"
  by (simp_all add: demo_sold_def transact_def invoke_def lib_charge_one_off_def unless_stopped_def require_not_emergency_stop_def
      get_emergency_stop_def with_lock_def lock_def do_charge_one_off_def settle_one_off_def charge_evaluation guard_evaluation
      earned_def drop_guard_def Let_def)

lemma demo_paid_books:
  "earned (get_merchant_token_earnings demo_paid (Address 4) (Address 9)) = 10"
  "refunds (get_merchant_token_earnings demo_paid (Address 4) (Address 9)) = 0"
  "merchant_tokens_key (mer demo_paid) (Address 4) = Some [Address 9]"
  "withdrawn demo_paid (Address 4) (Address 9) = 5"
  using demo_sold_books
  by (simp_all add: demo_paid_def transact_def invoke_def lib_withdraw_merchant_token_funds_def with_lock_def lock_def
      withdraw_merchant_funds_for_token_def require_auth_def money_evaluation get_merchant_balance_by_token_def
      merchant_writes withdrawn_def get_merchant_token_earnings_def is_token_accepted_def Let_def)

theorem earnings_reconcile_witness:
  "get_merchant_balance_by_token demo_paid (Address 4) (Address 9) = 5
   \<and> map computed_balance (get_reconciliation_snapshot demo_paid (Address 4)) = [10]"
proof -
  have "reaches (Address 0) batch_clean demo_subs demo_paid"
    unfolding demo_paid_def demo_sold_def by (intro reaches.intros) simp_all
  moreover have "earnings_ok demo_subs" by (rule earnings_ok_new) simp_all
  ultimately have books: "get_merchant_balance_by_token demo_paid (Address 4) (Address 9) = 5"
    "\<And>r. r \<in> set (get_reconciliation_snapshot demo_paid (Address 4)) \<Longrightarrow> recon_token r = Address 9 \<Longrightarrow> computed_balance r = 10"
    using earnings_reconcile [OF _ demo_store, of "Address 0" demo_paid "Address 4" "Address 9"] demo_paid_books
    by (simp_all add: I128_MAX_def)
  obtain r where "get_reconciliation_snapshot demo_paid (Address 4) = [r]" "recon_token r = Address 9"
    using demo_paid_books(3) by (simp add: get_reconciliation_snapshot_def Let_def)
  with books show ?thesis by simp
qed

text \<open>A balance that does not cover the next charge.\<close>

definition demo_short :: vault where
  "demo_short = put_sub 0 (demo_sub\<lparr>prepaid_balance := 5\<rparr>) demo_subs"

theorem charge_refusals_witness:
  "map_option status (subs (snd (charge_one demo_env 0 1000 None demo_short)) 0) = Some InsufficientBalance
   \<and> mer (snd (charge_one demo_env 0 1000 None demo_short)) = mer demo_short"
proof -
  have "fst (charge_one demo_env 0 1000 None demo_short) = Ok ChargeInsufficientBalance"
    by (simp add: demo_short_def charge_evaluation charge_shortfall_def get_grace_period_def Let_def)
  moreover have "subs demo_short 0 = Some (demo_sub\<lparr>prepaid_balance := 5\<rparr>)" by (simp add: demo_short_def)
  ultimately show ?thesis
    using charge_refusals [OF ok_result]
    by (fastforce simp: books_untouched_def shortfall_status_def demo_short_def demo_vault_adm Let_def)
qed

text \<open>A hundred seconds later the next period may be charged.\<close>

definition later_env :: env where
  "later_env = demo_env\<lparr>ledger_timestamp := 1100\<rparr>"

lemma demo_second_charge:
  "fst (lib_charge_subscription later_env 0 (snd (lib_charge_subscription demo_env 0 demo_subs))) = Ok Charged"
  by (simp add: later_env_def lib_charge_subscription_def unless_stopped_def require_not_emergency_stop_def
      get_emergency_stop_def with_lock_def lock_def charge_evaluation drop_guard_def mark_charged_def Let_def)

theorem no_double_charge_witness:
  "let u = snd (lib_charge_subscription demo_env 0 demo_subs)
   in \<exists>y. subs u 0 = Some y \<and> 10 < period_of y 1100"
proof -
  let ?t = "snd (lib_charge_subscription demo_env 0 demo_subs)"
  have "reaches (Address 0) (\<lambda>_ _ _. True) ?t ?t" by (rule reaches.here)
  from no_double_charge [OF ok_result [OF demo_interval_charge(1)] demo_store this ok_result [OF demo_second_charge]]
  show ?thesis by (auto simp: Let_def later_env_def demo_sub_def period_of_def)
qed

lemma demo_snapshots: "snapshots_follow demo_subs"
  using snapshots_follow_init by (simp add: snapshots_follow_def get_period_snapshot_def vault_init_def)

theorem due_charge_is_taken_witness:
  "taken (fst (lib_charge_subscription demo_env 0 demo_subs))"
proof (rule due_charge_is_taken [OF reaches.here demo_solvent demo_snapshots])
  show "\<forall>tok. tokens demo_subs tok (Address 0) * 10000 \<le> I128_MAX" by (simp add: I128_MAX_def)
  show "\<not> get_emergency_stop demo_subs" "lock_key demo_subs = Map.empty"
    "fst (resolve_charge_amount demo_env 0 demo_sub demo_subs) = Ok (amount demo_sub)"
    by (simp_all add: get_emergency_stop_def get_oracle_config_def demo_vault_adm)
  show "due demo_subs 0 demo_sub (ledger_timestamp demo_env)"
    by (simp add: due_def guard_evaluation demo_sub_def vault_init_def)
  show "affordable demo_sub (amount demo_sub)" by (simp add: affordable_def demo_sub_def)
qed

section \<open>What the limits and pauses leave open\<close>

text \<open>A deposit that reactivates a subscription raises the exposure above the credit limit.\<close>

definition demo_limited :: vault where
  "demo_limited = demo_subs\<lparr>sbs := (sbs demo_subs)\<lparr>credit_limit_key := [(Address 3, Address 9) \<mapsto> 30],
     sub_key := (subs demo_subs)(0 \<mapsto> demo_sub\<lparr>status := InsufficientBalance\<rparr>)\<rparr>\<rparr>"

lemma reactivation_exceeds_limit:
  "fst (do_deposit_funds demo_env 0 (Address 3) 5 demo_limited) = Ok ()
   \<and> exposure (snd (do_deposit_funds demo_env 0 (Address 3) 5 demo_limited)) (Address 3) (Address 9) = 40
   \<and> get_subscriber_credit_limit demo_limited (Address 3) (Address 9) = 30"
proof -
  have run: "fst (do_deposit_funds demo_env 0 (Address 3) 5 demo_limited) = Ok ()"
    by (simp add: demo_limited_def do_deposit_funds_def guard_evaluation money_evaluation enforce_deposit_cap_def
        saturating_sub_def clamp_i128_def compute_subscriber_exposure_def MAX_WRITE_PATH_SCAN_DEPTH_def upt_rec demo_sub_def Let_def)
  have "exposure demo_limited (Address 3) (Address 9) = 25"
    by (simp add: exposure_def exposed_def demo_limited_def next_id_of_def demo_sub_def lessThan_Suc numeral_2_eq_2)
  with deposit_exposure(2) [OF ok_result [OF run]] run show ?thesis
    by (simp add: demo_limited_def demo_sub_def next_id_of_def reactivates_def get_subscriber_credit_limit_def)
qed

text \<open>A merchant that is paused still takes a one-off charge.\<close>

lemma paused_merchant_takes_one_off:
  "let s = demo_subs\<lparr>mer := (mer demo_subs)\<lparr>merchant_paused_key := [Address 4 \<mapsto> True]\<rparr>\<rparr>
   in get_merchant_paused s (Address 4) \<and> fst (do_charge_one_off demo_env 0 (Address 4) 10 s) = Ok ()"
  by (simp add: do_charge_one_off_def settle_one_off_def require_auth_def charge_evaluation Let_def)

text \<open>A plan may cap a subscription below its amount, in a token that is not accepted.\<close>

lemma plan_terms_unchecked:
  "let q = demo_plan\<lparr>plan_amount := 50, plan_lifetime_cap := Some 20, plan_token := Address 77\<rparr>;
       s = demo_subs\<lparr>pln := (pln demo_subs)\<lparr>plan_key := [0 \<mapsto> q]\<rparr>\<rparr>
   in fst (do_create_subscription_from_plan demo_env (Address 3) 0 s) = Ok 2 \<and> \<not> is_token_accepted s (Address 77)"
  by (simp add: do_create_subscription_from_plan_def get_plan_template_def enforce_plan_concurrency_limit_def
      get_plan_max_active_def create_evaluation demo_plan_def is_token_accepted_def)

end
