(* ===== verification/Spec2Isabelle.thy ===== *)
theory Spec2Isabelle
  imports Safe_Math State_Machine Vault_State Merchant Oracle Second_One_Off Contract_Draft Entry_Points Usage_Books Plan_Laws Merchant_Laws Billing_Statements Batch_Laws Access_Control Charge_Outcomes Reconciliation Earnings Custody Due_Charges Vault_Runs
begin

text \<open>
  Verification of the prepaid subscription vault \<open>contracts/subscription_vault\<close>, a Soroban contract in
  Rust. File names below are relative to \<open>contracts/subscription_vault/src\<close>.

  \<^bold>\<open>The program.\<close> Subscribers pay tokens into the vault in advance (\<open>deposit_funds\<close>); the balance
  belongs to one subscription with one merchant. Interval charges, metered (usage) charges and
  one-off charges move value from that balance to the merchant's balance, and a fee to the treasury,
  inside the books of the vault. Merchants withdraw or refund from their balance; a subscriber takes
  back what is left after a cancellation, or receives a partial refund from the admin. The admin also
  configures the vault, rotates its key, stops it, and recovers tokens nobody is owed. Around this
  are plans with versions, credit and usage limits, lifetime caps, a blocklist, metadata, billing
  statements with compaction, period snapshots, paged queries and exports for migration.

  \<^bold>\<open>The model.\<close> Everything is stated over one record \<open>vault\<close> (\<open>Vault_State\<close>), whose stores have one field
  per family of storage keys; \<open>env\<close> holds what the host answers within one call: the time, the
  address of the contract, who has authorized the call, the oracle's price and the token contract.
  A Rust function of type \<open>Result\<close> that writes storage becomes a function
  \<open>vault \<Rightarrow> 'a res \<times> vault\<close> with three outcomes, \<open>Ok\<close>, \<open>Err\<close> and \<open>Trap\<close> (a panic of the host or of
  checked arithmetic); a question mark is \<open>try_op\<close> or \<open>try_res\<close>. An \<open>Err\<close> carries the state it was
  reached in, because \<open>batch_charge\<close> keeps what a failed charge has written, and \<open>invoke\<close> rolls a
  transaction back that ends without \<open>Ok\<close>, as the host does. Integers are \<open>int\<close> and \<open>nat\<close> with the
  checks, saturation and wrap-around of \<open>i128\<close>, \<open>u64\<close> and \<open>u32\<close> written out (\<open>Vault_Prelude\<close>), and the
  two bit masks are machine words.

  \<^bold>\<open>Theories of the model\<close>, in the order of the calls:
  \<^item> \<open>Vault_Prelude\<close>: results, sequencing, machine integers, sums over finite maps; \<open>Vault_Types\<close>:
    \<open>types.rs\<close>; \<open>Vault_State\<close>: the storage, events, token transfers and rollback.
  \<^item> \<open>Safe_Math\<close>: \<open>safe_math.rs\<close>; \<open>State_Machine\<close>: \<open>state_machine.rs\<close>; \<open>Accounting\<close>: \<open>accounting.rs\<close>;
    \<open>Nonce\<close>: \<open>nonce.rs\<close>; \<open>Reentrancy\<close>: \<open>reentrancy.rs\<close>; \<open>Blocklist\<close>: \<open>blocklist.rs\<close>; \<open>Oracle\<close>: \<open>oracle.rs\<close>;
    \<open>Metadata\<close>: \<open>metadata.rs\<close>; \<open>Period_Snapshots\<close>: \<open>period_snapshots.rs\<close>; \<open>Statements\<close>: \<open>statements.rs\<close>;
    \<open>Billing_Statements\<close>: \<open>billing_statements.rs\<close>; \<open>Queries\<close>: \<open>queries.rs\<close>.
  \<^item> \<open>Admin\<close>: \<open>admin.rs\<close> without charging; \<open>Merchant\<close>: \<open>merchant.rs\<close>.
  \<^item> \<open>Charge_Core\<close>: \<open>charge_core.rs\<close>, both functions cut into guards and phases.
  \<^item> \<open>Subscription\<close> and \<open>Plans\<close>: the lifecycle and the configuration half of \<open>subscription.rs\<close>.
  \<^item> \<open>Second_One_Off\<close>: the second definition of \<open>do_charge_one_off\<close>; \<open>Contract_Draft\<close>: \<open>temp_lib.rs\<close>.
  \<^item> \<open>Migration\<close>: the exports of \<open>lib.rs\<close> and \<open>migration.rs\<close>.
  \<^item> \<open>Contract_Interface\<close>: the queries of \<open>lib.rs\<close> and the functions that only forward to a module.
  \<^item> \<open>Entry_Points\<close>: \<open>lib.rs\<close>, the charging calls of \<open>admin.rs\<close>, and the datatype \<open>call\<close> of all
    state-changing entry points with their meaning \<open>run\<close> and \<open>transact\<close>.

  \<^bold>\<open>Theories of the proofs.\<close>
  \<^item> \<open>Vault_Laws\<close>: well-formed subscriptions (\<open>sub_ok\<close>), how one may develop (\<open>develops\<close>), what the vault owes
    in a token (\<open>owed\<close>), and the locale of step relations.
  \<^item> \<open>Charge_Laws\<close>: what a charge leaves alone on every outcome (\<open>charge_frame\<close>); \<open>Charge_Books\<close>: that it
    conserves what is owed, and the exact effect of an interval charge, down to every store it writes;
    \<open>Usage_Books\<close>: the same for metered charges, with their replay protection and their limits, for one
    usage and over sequences of usages; \<open>Batch_Laws\<close>: a batch is the sequence of
    its charges, and the emergency stop.
  \<^item> \<open>Subscription_Laws\<close>, \<open>Lifecycle_Laws\<close>, \<open>Plan_Laws\<close>, \<open>Merchant_Laws\<close>: the effect of the other operations,
    each with the exact condition of its success where it has a short one; \<open>Plan_Laws\<close> also holds creation,
    directly and from plans, with the frame of everything it leaves alone, and what credit limits bound.
  \<^item> \<open>Vault_Effects\<close>: the contract as an abstract transition system with eight kinds of steps, which
    every entry point refines; \<open>Vault_Invariants\<close>: over all runs the registry of subscriptions stays
    well formed and remembers, and the vault stays solvent.
  \<^item> \<open>Access_Control\<close>: the access matrix, from calls to the role of their signer, and that every call that
    succeeds was signed in its role.
  \<^item> \<open>Quiet_Calls\<close>: the calls and phases that touch neither lifetime totals nor statements nor snapshots nor
    the books of the merchants; \<open>Clean_Runs\<close>: relations that charges keep unless a counter overflows, carried
    from the phases of a charge to whole runs; \<open>Reconciliation\<close>: over all runs the lifetime total of a
    subscription is what its compacted and live statements add up to, as \<open>docs/reconciliation_strategy.md\<close>
    promises; \<open>Earnings\<close>: the balance of a merchant is what it accrued less refunds and withdrawals, as
    \<open>docs/merchant_earnings.md\<close> promises, if the withdrawals are taken from the published events.
  \<^item> \<open>Custody\<close>: which calls, under which conditions, may lower a prepaid balance, and that over all runs no other
    sequence of calls does.
  \<^item> \<open>Charge_Outcomes\<close>: what a charge that is not taken does, and that no period is charged twice;
    \<open>Snapshot_Laws\<close>: over all runs snapshots exist only for charged periods; \<open>Due_Charges\<close>: what is due and
    funded is charged, so that the checks before a charge are neither too weak nor too strong.
  \<^item> \<open>Vault_Runs\<close>: concrete runs, on which the hypotheses of the properties hold, and runs that show what the
    code leaves open: a deposit that passes a credit limit, a one-off charge by a paused merchant, a plan whose
    terms nothing checks.
  \<^item> The laws of a single module (paging, compaction, snapshots, nonces, the transition table, metadata,
    safe arithmetic) stand in the theory of the module.

  \<^bold>\<open>Interfaces.\<close> Relations that operations keep are a locale (\<open>step_relation\<close>, extended by \<open>run_relation\<close> for
  whole runs, by \<open>vault_relation\<close> for what follows from the abstract steps alone, and by \<open>clean_relation\<close> and
  \<open>charge_relation\<close> for what charges keep unless a counter overflows), interpreted for the frame of charges,
  quiet phases, the growth of the registry, solvency, the reconciliation of statements and of earnings, the
  custody of balances, and the snapshots.
  Counters that accept every value once, bounded totals, and indices read in pages are locales as
  well, each interpreted on the model's own operations.

  \<^bold>\<open>Parameters and hypotheses.\<close> The token contract and the oracle are code of others. The books are
  exact for every behaviour of them; where balances of tokens matter, \<open>sep41\<close> states the documented
  behaviour of a standard token: a transfer that succeeds moves exactly its amount, which is neither
  negative nor more than the sender has. Solvency assumes further (\<open>trusted\<close>) that nobody signs for
  the vault, that the balances of the vault stay below the bound of \<open>i128\<close> divided by 10000, so that
  the plain product in the fee cannot wrap, and that no charge of a batch fails on the overflow of a
  merchant's counter after it has debited the subscriber. Transfers of others to the vault may happen
  at any time.

  \<^bold>\<open>Bounds.\<close> The loops of the source (scans, pages, compaction, exports) are recursive functions with
  termination proofs on the distance to their bound. Fuel occurs only in the model of a client that
  follows pages until there is none; the theorems about it name the number of pages that is enough.

  \<^bold>\<open>Readings.\<close> The crate refers to \<open>DataKey::AdminNonce\<close> and \<open>Error::NonceAlreadyUsed\<close> without declaring
  them; they are read as the obvious declarations. \<open>do_charge_one_off\<close> is defined twice in
  \<open>subscription.rs\<close>; the entry point is read as calling the first definition. The second is modelled with
  the functions it calls that are declared nowhere as parameters; it works on a copy of the subscription
  that nothing else reads, so it cannot be the one that is meant. The draft \<open>temp_lib.rs\<close>, which is in no
  crate, is modelled on a storage of its own.

  \<^bold>\<open>Not modelled.\<close> Of the topics of an event the name is kept, not the id or address after it, which the theorems
  do not use. The time-to-live extension of storage entries, resource limits and the encoding of
  values are the host's. Tests and fixtures, constants and event types that nothing uses, and the helper
  \<open>next_id\<close>, which nothing calls, are left out.
\<close>

end
